theory Spec2Isabelle
  imports Main
begin

section \<open>JavaScript values as the two servers see them\<close>

text \<open>
  Both servers (\<^verbatim>\<open>app/server.mjs\<close>, the agent, and the MCP server that follows it in
  the same source file) work on values that come out of \<^verbatim>\<open>JSON.parse\<close>, out of
  \<^verbatim>\<open>process.env\<close> or out of their own object literals. A value is therefore
  \<^verbatim>\<open>undefined\<close>, \<^verbatim>\<open>null\<close>, a boolean, a number, a string, an array or a plain
  object. An object is the list of its own properties in insertion order; a lookup takes
  the first binding of a key.

  Limits of the model:
  \<^item> numbers are the integers that JavaScript prints in plain decimal notation
    (no fractions, no exponent form, no \<^verbatim>\<open>NaN\<close>);
  \<^item> a string is a list of code units below 256, that is of the characters U+0000 to
    U+00FF; a \<open>char\<close> stands for the code unit of the same number;
  \<^item> the keys the code reads (\<^verbatim>\<open>name\<close>, \<^verbatim>\<open>tenants\<close>, ...) are never properties
    that a string, a number or an array inherits from its prototype, so reading one
    from a value that is not a plain object gives \<^verbatim>\<open>undefined\<close>.
\<close>

datatype jsv =
    JUndefined
  | JNull
  | JBool bool
  | JNum int
  | JStr string
  | JArr "jsv list"
  | JObj "(string \<times> jsv) list"

text \<open>
  What the code can throw. \<open>TypeError\<close> is the runtime's (a property read from
  \<^verbatim>\<open>null\<close> or \<^verbatim>\<open>undefined\<close>, a value with no primitive form, a call of something
  that is not a function); \<open>SyntaxError\<close> is \<^verbatim>\<open>JSON.parse\<close>'s; \<open>FetchFailed\<close> is
  a rejected \<^verbatim>\<open>fetch\<close>; \<open>URIError\<close> is \<^verbatim>\<open>encodeURIComponent\<close>'s; the last two are
  the \<^verbatim>\<open>Error\<close>s that \<^verbatim>\<open>openaiCompatChat\<close> throws itself.
\<close>

datatype error =
    TypeError
  | SyntaxError
  | URIError
  | FetchFailed
  | MissingApiKey string
  | AIRequestFailed int string

fun truthy :: "jsv \<Rightarrow> bool" where
  "truthy JUndefined = False"
| "truthy JNull = False"
| "truthy (JBool b) = b"
| "truthy (JNum n) = (n \<noteq> 0)"
| "truthy (JStr s) = (s \<noteq> [])"
| "truthy (JArr xs) = True"
| "truthy (JObj kvs) = True"

fun nullish :: "jsv \<Rightarrow> bool" where
  "nullish JUndefined = True"
| "nullish JNull = True"
| "nullish v = False"

text \<open>\<^verbatim>\<open>a || b\<close> on values (both operands already evaluated).\<close>

definition js_or :: "jsv \<Rightarrow> jsv \<Rightarrow> jsv" where
  "js_or a b = (if truthy a then a else b)"

text \<open>\<^verbatim>\<open>typeof v === "object"\<close>: true of \<^verbatim>\<open>null\<close>, of arrays and of plain objects.\<close>

fun typeof_object :: "jsv \<Rightarrow> bool" where
  "typeof_object JNull = True"
| "typeof_object (JArr xs) = True"
| "typeof_object (JObj kvs) = True"
| "typeof_object v = False"

fun isArray :: "jsv \<Rightarrow> bool" where
  "isArray (JArr xs) = True"
| "isArray v = False"

text \<open>
  Property reads. \<open>rd v k\<close> is \<^verbatim>\<open>v.k\<close> for a \<open>v\<close> that is not nullish;
  \<open>getp\<close> is the plain read, which throws on \<^verbatim>\<open>null\<close> and \<^verbatim>\<open>undefined\<close>;
  \<open>optp\<close> is the optional read \<^verbatim>\<open>v?.k\<close>.
\<close>

fun rd :: "jsv \<Rightarrow> string \<Rightarrow> jsv" where
  "rd (JObj kvs) k = (case map_of kvs k of Some v \<Rightarrow> v | None \<Rightarrow> JUndefined)"
| "rd v k = JUndefined"

definition getp :: "jsv \<Rightarrow> string \<Rightarrow> error + jsv" where
  "getp v k = (if nullish v then Inl TypeError else Inr (rd v k))"

definition optp :: "jsv \<Rightarrow> string \<Rightarrow> jsv" where
  "optp v k = (if nullish v then JUndefined else rd v k)"

subsection \<open>Strings\<close>

definition digit_char :: "nat \<Rightarrow> char" where
  "digit_char d = ''0123456789'' ! d"

fun show_nat :: "nat \<Rightarrow> string" where
  "show_nat n = (if n < 10 then [digit_char n] else show_nat (n div 10) @ [digit_char (n mod 10)])"

declare show_nat.simps [simp del]

definition show_int :: "int \<Rightarrow> string" where
  "show_int i = (if i < 0 then CHR ''-'' # show_nat (nat (- i)) else show_nat (nat i))"

text \<open>
  \<^verbatim>\<open>String(v)\<close>. An array prints as its elements joined by commas, \<^verbatim>\<open>null\<close> and
  \<^verbatim>\<open>undefined\<close> elements as nothing. A plain object prints as
  \<^verbatim>\<open>[object Object]\<close> through the inherited \<^verbatim>\<open>toString\<close>; when the object has an
  own property of that name (never a function in parsed JSON) the conversion throws a
  TypeError, and so does the method call \<^verbatim>\<open>v.toString()\<close>.
\<close>

fun js_String :: "jsv \<Rightarrow> error + string"
  and join_elems :: "jsv list \<Rightarrow> error + string"
where
  "js_String JUndefined = Inr ''undefined''"
| "js_String JNull = Inr ''null''"
| "js_String (JBool b) = Inr (if b then ''true'' else ''false'')"
| "js_String (JNum n) = Inr (show_int n)"
| "js_String (JStr s) = Inr s"
| "js_String (JArr xs) = join_elems xs"
| "js_String (JObj kvs) =
     (if ''toString'' \<in> set (map fst kvs) then Inl TypeError else Inr ''[object Object]'')"
| "join_elems [] = Inr []"
| "join_elems (x # xs) =
     (case (if nullish x then Inr [] else js_String x) of
        Inl e \<Rightarrow> Inl e
      | Inr s \<Rightarrow>
          (if xs = [] then Inr s
           else (case join_elems xs of Inl e \<Rightarrow> Inl e | Inr r \<Rightarrow> Inr (s @ '','' @ r))))"

text \<open>A value with a string form: \<^verbatim>\<open>String(v)\<close> returns. Everything has one but an
  object with an own \<^verbatim>\<open>toString\<close> property and an array that holds such an object.\<close>

definition printable :: "jsv \<Rightarrow> bool" where
  "printable v = (case js_String v of Inr s \<Rightarrow> True | Inl e \<Rightarrow> False)"

text \<open>
  White space, as \<^verbatim>\<open>trim\<close> removes it and \<^verbatim>\<open>\s\<close> matches it: the white space and
  line terminator characters of ECMAScript. Below U+0100 these are TAB, LF, VT, FF, CR,
  the space and the no-break space U+00A0; the others (U+1680, U+2000 to U+200A,
  U+2028, U+2029, U+202F, U+205F, U+3000, U+FEFF) are no code units of the model.
\<close>

definition is_space :: "char \<Rightarrow> bool" where
  "is_space c =
     (c \<in> set [CHR 0x09, CHR 0x0A, CHR 0x0B, CHR 0x0C, CHR 0x0D, CHR '' '', CHR 0xA0])"

text \<open>\<^verbatim>\<open>s.trim()\<close>.\<close>

definition trim :: "string \<Rightarrow> string" where
  "trim s = rev (dropWhile is_space (rev (dropWhile is_space s)))"

text \<open>
  \<^verbatim>\<open>s.toLowerCase()\<close>, character by character. Below U+0100 the characters with a
  lower-case form are the letters A to Z and the letters U+00C0 to U+00DE without the
  multiplication sign U+00D7; the lower-case form is 32 code units further on, so
  lower-casing stays within the strings of the model.
\<close>

definition upper_letters :: string where
  "upper_letters =
     ''ABCDEFGHIJKLMNOPQRSTUVWXYZ'' @
     [CHR 0xC0, CHR 0xC1, CHR 0xC2, CHR 0xC3, CHR 0xC4, CHR 0xC5, CHR 0xC6, CHR 0xC7,
      CHR 0xC8, CHR 0xC9, CHR 0xCA, CHR 0xCB, CHR 0xCC, CHR 0xCD, CHR 0xCE, CHR 0xCF,
      CHR 0xD0, CHR 0xD1, CHR 0xD2, CHR 0xD3, CHR 0xD4, CHR 0xD5, CHR 0xD6, CHR 0xD8,
      CHR 0xD9, CHR 0xDA, CHR 0xDB, CHR 0xDC, CHR 0xDD, CHR 0xDE]"

definition lower_letters :: string where
  "lower_letters =
     ''abcdefghijklmnopqrstuvwxyz'' @
     [CHR 0xE0, CHR 0xE1, CHR 0xE2, CHR 0xE3, CHR 0xE4, CHR 0xE5, CHR 0xE6, CHR 0xE7,
      CHR 0xE8, CHR 0xE9, CHR 0xEA, CHR 0xEB, CHR 0xEC, CHR 0xED, CHR 0xEE, CHR 0xEF,
      CHR 0xF0, CHR 0xF1, CHR 0xF2, CHR 0xF3, CHR 0xF4, CHR 0xF5, CHR 0xF6, CHR 0xF8,
      CHR 0xF9, CHR 0xFA, CHR 0xFB, CHR 0xFC, CHR 0xFD, CHR 0xFE]"

definition lower_char :: "char \<Rightarrow> char" where
  "lower_char c = (case map_of (zip upper_letters lower_letters) c of Some l \<Rightarrow> l | None \<Rightarrow> c)"

definition toLowerCase :: "string \<Rightarrow> string" where
  "toLowerCase s = map lower_char s"

text \<open>
  \<^verbatim>\<open>s.toUpperCase()\<close>. On a string of ASCII characters it replaces the letters a to z
  by A to Z and nothing else. On any other string the result comes from the case
  tables of the engine and need not stay below U+0100 (U+00DF becomes \<open>SS\<close>, the
  upper-case forms of U+00B5 and U+00FF lie beyond U+00FF); it is the parameter
  \<open>up\<close>, about which nothing is assumed.
\<close>

definition is_ascii :: "char \<Rightarrow> bool" where
  "is_ascii c = (\<not> digit7 c)"

definition upper_char :: "char \<Rightarrow> char" where
  "upper_char c =
     (case map_of (zip ''abcdefghijklmnopqrstuvwxyz'' ''ABCDEFGHIJKLMNOPQRSTUVWXYZ'') c of
        Some u \<Rightarrow> u | None \<Rightarrow> c)"

definition toUpperCase :: "(string \<Rightarrow> string) \<Rightarrow> string \<Rightarrow> string" where
  "toUpperCase up s = (if list_all is_ascii s then map upper_char s else up s)"

section \<open>Tool schema normalization (\<^verbatim>\<open>toOpenAITools\<close>)\<close>

text \<open>The open object schema both branches fall back to.\<close>

definition open_schema :: jsv where
  "open_schema =
     JObj [(''type'', JStr ''object''), (''properties'', JObj []),
           (''additionalProperties'', JBool True)]"

text \<open>\<^verbatim>\<open>(p && typeof p === "object") ? p : {type:"object", ...}\<close>.\<close>

definition pick_schema :: "jsv \<Rightarrow> jsv" where
  "pick_schema p = (if truthy p \<and> typeof_object p then p else open_schema)"

text \<open>The object literal that both branches push.\<close>

definition mk_tool :: "string \<Rightarrow> string \<Rightarrow> jsv \<Rightarrow> jsv" where
  "mk_tool n d p =
     JObj [(''type'', JStr ''function''),
           (''function'', JObj [(''name'', JStr n), (''description'', JStr d), (''parameters'', p)])]"

text \<open>The guard of the first branch:
  \<^verbatim>\<open>t && t.type === "function" && t.function && t.function.name\<close>.\<close>

definition is_openai_tool :: "jsv \<Rightarrow> bool" where
  "is_openai_tool t =
     (truthy t \<and> rd t ''type'' = JStr ''function'' \<and> truthy (rd t ''function'')
      \<and> truthy (rd (rd t ''function'') ''name''))"

text \<open>
  One turn of the loop body: \<open>Inr (Some tool)\<close> when a tool is pushed, \<open>Inr None\<close>
  when the record is skipped (\<^verbatim>\<open>continue\<close>), \<open>Inl\<close> when a conversion throws.
\<close>

definition convert_tool :: "jsv \<Rightarrow> error + jsv option" where
  "convert_tool t =
     (if is_openai_tool t then
        (let f = rd t ''function'' in
         case js_String (rd f ''name'') of
           Inl e \<Rightarrow> Inl e
         | Inr n \<Rightarrow>
             (case js_String (js_or (rd f ''description'') (JStr [])) of
                Inl e \<Rightarrow> Inl e
              | Inr d \<Rightarrow> Inr (Some (mk_tool n d (pick_schema (rd f ''parameters''))))))
      else
        (case js_String (js_or (optp t ''name'') (JStr [])) of
           Inl e \<Rightarrow> Inl e
         | Inr n0 \<Rightarrow>
             (let name = trim n0 in
              if name = [] then Inr None
              else
                (case js_String (js_or (optp t ''description'') (JStr [])) of
                   Inl e \<Rightarrow> Inl e
                 | Inr d \<Rightarrow> Inr (Some (mk_tool name d (pick_schema (optp t ''inputSchema''))))))))"

fun tools_loop :: "jsv list \<Rightarrow> jsv list \<Rightarrow> error + jsv list" where
  "tools_loop [] out = Inr out"
| "tools_loop (t # ts) out =
     (case convert_tool t of
        Inl e \<Rightarrow> Inl e
      | Inr None \<Rightarrow> tools_loop ts out
      | Inr (Some x) \<Rightarrow> tools_loop ts (out @ [x]))"

definition toOpenAITools :: "jsv \<Rightarrow> error + jsv list" where
  "toOpenAITools rawTools = tools_loop (case rawTools of JArr xs \<Rightarrow> xs | _ \<Rightarrow> []) []"







text \<open>
  The canonical tool of the specification's data model:
  \<^verbatim>\<open>{ type:"function", function:{ name, description, parameters: JSONSchemaObject } }\<close>
  with a non-empty name, a string description and an object for \<^verbatim>\<open>parameters\<close>.
  Other keys may be present.
\<close>

fun is_string :: "jsv \<Rightarrow> bool" where
  "is_string (JStr s) = True"
| "is_string v = False"

fun is_plain_object :: "jsv \<Rightarrow> bool" where
  "is_plain_object (JObj kvs) = True"
| "is_plain_object v = False"

definition canonical_tool :: "jsv \<Rightarrow> bool" where
  "canonical_tool t =
     (rd t ''type'' = JStr ''function''
      \<and> is_plain_object (rd t ''function'')
      \<and> is_string (rd (rd t ''function'') ''name'')
      \<and> rd (rd t ''function'') ''name'' \<noteq> JStr []
      \<and> is_string (rd (rd t ''function'') ''description'')
      \<and> is_plain_object (rd (rd t ''function'') ''parameters''))"





section \<open>Maximo helpers\<close>

definition startsWith :: "string \<Rightarrow> string \<Rightarrow> bool" where
  "startsWith s p = (take (length p) s = p)"

definition endsWith :: "string \<Rightarrow> string \<Rightarrow> bool" where
  "endsWith s p = (length p \<le> length s \<and> drop (length s - length p) s = p)"

text \<open>\<^verbatim>\<open>s.replace(/\/$/, "")\<close>: one trailing slash is removed.\<close>

definition strip_slash :: "string \<Rightarrow> string" where
  "strip_slash s = (if s \<noteq> [] \<and> last s = CHR ''/'' then butlast s else s)"

definition normMaximoBase :: "jsv \<Rightarrow> error + string" where
  "normMaximoBase u =
     (case js_String (js_or u (JStr [])) of
        Inl e \<Rightarrow> Inl e
      | Inr s0 \<Rightarrow>
          (let s = strip_slash (trim s0) in
           if s = [] then Inr []
           else if \<not> endsWith s ''/maximo'' then Inr (s @ ''/maximo'')
           else Inr s))"

text \<open>\<^verbatim>\<open>b ? b.replace(/\/maximo$/, "/maximo/api") : ""\<close>.\<close>

definition maximoApiBase :: "jsv \<Rightarrow> error + string" where
  "maximoApiBase u =
     (case normMaximoBase u of
        Inl e \<Rightarrow> Inl e
      | Inr b \<Rightarrow>
          (if b \<noteq> [] then Inr (if endsWith b ''/maximo'' then b @ ''/api'' else b)
           else Inr []))"

subsection \<open>\<^verbatim>\<open>normalizeOrderBy\<close>\<close>

definition is_field_char :: "char \<Rightarrow> bool" where
  "is_field_char c =
     (c \<in> set ''abcdefghijklmnopqrstuvwxyzABCDEFGHIJKLMNOPQRSTUVWXYZ0123456789_.'')"

text \<open>
  The match of \<^verbatim>\<open>/^([a-zA-Z0-9_\.]+)\s+(asc|desc)$/i\<close> against the whole string: the
  two groups, when it matches. No white space is a field character, so the first group
  is the longest run of field characters at the start, the white space is the longest
  run that follows, and the rest must be the direction word in any letter case.
\<close>

definition match_field_dir :: "string \<Rightarrow> (string \<times> string) option" where
  "match_field_dir s =
     (let field = takeWhile is_field_char s;
          rest = dropWhile is_field_char s;
          dir = dropWhile is_space rest
      in if field \<noteq> [] \<and> takeWhile is_space rest \<noteq> []
            \<and> (toLowerCase dir = ''asc'' \<or> toLowerCase dir = ''desc'')
         then Some (field, dir) else None)"

definition normalizeOrderBy :: "jsv \<Rightarrow> error + string" where
  "normalizeOrderBy orderBy =
     (case js_String (js_or orderBy (JStr [])) of
        Inl e \<Rightarrow> Inl e
      | Inr s0 \<Rightarrow>
          (let s = trim s0 in
           if s = [] then Inr []
           else if startsWith s ''+'' \<or> startsWith s ''-'' then Inr s
           else (case match_field_dir s of
                   Some (field, dir) \<Rightarrow>
                     Inr (if toLowerCase dir = ''desc'' then ''-'' @ field else ''+'' @ field)
                 | None \<Rightarrow> Inr (''+'' @ s))))"

section \<open>Tenant resolution (MCP server, \<^verbatim>\<open>resolveTenant\<close>)\<close>

text \<open>The environment variables the two servers read; \<open>None\<close> is an unset variable.\<close>

record env =
  MCP_URL :: "string option"
  MAXIMO_URL :: "string option"
  MAXIMO_APIKEY :: "string option"
  DEFAULT_SITEID :: "string option"

definition env_val :: "string option \<Rightarrow> jsv" where
  "env_val v = (case v of None \<Rightarrow> JUndefined | Some s \<Rightarrow> JStr s)"

record resolved_tenant =
  rt_id :: string
  rt_baseUrl :: string
  rt_apiBase :: string
  rt_apiKey :: jsv
  rt_site :: string
  rt_org :: jsv

text \<open>\<^verbatim>\<open>Array.isArray(settings.tenants) ? settings.tenants : []\<close>, for a \<open>settings\<close> that
  is not nullish.\<close>

definition tenants_of :: "jsv \<Rightarrow> jsv list" where
  "tenants_of settings = (case rd settings ''tenants'' of JArr ts \<Rightarrow> ts | _ \<Rightarrow> [])"

text \<open>
  \<^verbatim>\<open>const def = String(settings.maximo?.defaultTenant || "default");\<close>
  \<^verbatim>\<open>const id = String(tenantId || def || "default");\<close>
\<close>

definition tenant_id :: "jsv \<Rightarrow> jsv \<Rightarrow> error + string" where
  "tenant_id settings tenantId =
     (case js_String (js_or (optp (rd settings ''maximo'') ''defaultTenant'') (JStr ''default'')) of
        Inl e \<Rightarrow> Inl e
      | Inr def \<Rightarrow> js_String (js_or (js_or tenantId (JStr def)) (JStr ''default'')))"

text \<open>\<^verbatim>\<open>tenants.find(x => String(x.id) === id)\<close>; \<open>JUndefined\<close> when no entry matches.
  The callback throws on an entry that is \<^verbatim>\<open>null\<close>.\<close>

fun find_tenant :: "jsv list \<Rightarrow> string \<Rightarrow> error + jsv" where
  "find_tenant [] wanted = Inr JUndefined"
| "find_tenant (x # xs) wanted =
     (case getp x ''id'' of
        Inl e \<Rightarrow> Inl e
      | Inr v \<Rightarrow>
          (case js_String v of
             Inl e \<Rightarrow> Inl e
           | Inr s \<Rightarrow> if s = wanted then Inr x else find_tenant xs wanted))"

text \<open>\<^verbatim>\<open>tenants.find(... === id) || tenants.find(... === "default") || {}\<close>.\<close>

definition pick_tenant :: "jsv list \<Rightarrow> string \<Rightarrow> error + jsv" where
  "pick_tenant tenants wanted =
     (case find_tenant tenants wanted of
        Inl e \<Rightarrow> Inl e
      | Inr t1 \<Rightarrow>
          (if truthy t1 then Inr t1
           else (case find_tenant tenants ''default'' of
                   Inl e \<Rightarrow> Inl e
                 | Inr t2 \<Rightarrow> Inr (js_or t2 (JObj [])))))"

text \<open>
  \<open>resolveTenant up ev settings tenantId\<close>: \<open>ev\<close> is \<^verbatim>\<open>process.env\<close> and \<open>up\<close>
  is the engine's upper-casing of strings that are not ASCII (see \<open>toUpperCase\<close>).
\<close>

definition resolveTenant ::
  "(string \<Rightarrow> string) \<Rightarrow> env \<Rightarrow> jsv \<Rightarrow> jsv \<Rightarrow> error + resolved_tenant" where
  "resolveTenant up ev settings tenantId =
     (case getp settings ''tenants'' of
        Inl e \<Rightarrow> Inl e
      | Inr tv \<Rightarrow>
     (case tenant_id settings tenantId of
        Inl e \<Rightarrow> Inl e
      | Inr wanted \<Rightarrow>
     (case pick_tenant (tenants_of settings) wanted of
        Inl e \<Rightarrow> Inl e
      | Inr t \<Rightarrow>
          (let maximo = rd settings ''maximo'';
               baseUrl = js_or (rd t ''maximoBaseUrl'')
                           (js_or (optp maximo ''baseUrl'')
                              (js_or (env_val (MAXIMO_URL ev)) (JStr [])));
               apiKey = js_or (env_val (MAXIMO_APIKEY ev))
                          (js_or (optp maximo ''apiKey'') (JStr []));
               site0 = js_or (rd t ''site'')
                         (js_or (optp maximo ''defaultSite'')
                            (js_or (env_val (DEFAULT_SITEID ev)) (JStr [])))
           in (case js_String site0 of
                 Inl e \<Rightarrow> Inl e
               | Inr site \<Rightarrow>
               (case normMaximoBase baseUrl of
                  Inl e \<Rightarrow> Inl e
                | Inr base \<Rightarrow>
                (case maximoApiBase baseUrl of
                   Inl e \<Rightarrow> Inl e
                 | Inr api \<Rightarrow>
                     Inr \<lparr>rt_id = wanted, rt_baseUrl = base, rt_apiBase = api,
                          rt_apiKey = apiKey, rt_site = toUpperCase up site,
                          rt_org = js_or (rd t ''org'') (JStr [])\<rparr>)))))))"

section \<open>The runtime and the network\<close>

text \<open>
  A network call is one of the four \<^verbatim>\<open>fetchJson\<close> call sites of the two servers; the
  constructor says which, its arguments are what the call site puts into the request.
  The request body is kept as the value that \<^verbatim>\<open>JSON.stringify\<close> is applied to (a
  property of value \<^verbatim>\<open>undefined\<close> is left out by the serialization).
\<close>

datatype request =
    ChatCompletion string string jsv
      \<comment> \<open>\<^verbatim>\<open>POST {base}/v1/chat/completions\<close>: URL, \<^verbatim>\<open>authorization\<close> header, body\<close>
  | McpTools string
      \<comment> \<open>\<^verbatim>\<open>GET {mcpUrl}/mcp/tools?tenant=...\<close>: URL\<close>
  | McpCall string jsv
      \<comment> \<open>\<^verbatim>\<open>POST {mcpUrl}/mcp/call\<close>: URL, body\<close>
  | MaximoGet string jsv
      \<comment> \<open>\<^verbatim>\<open>GET {apiBase}/os...\<close>: URL, \<^verbatim>\<open>apikey\<close> header\<close>

text \<open>What \<^verbatim>\<open>fetch\<close> and \<^verbatim>\<open>r.text()\<close> deliver, and what \<^verbatim>\<open>fetchJson\<close> makes of it.\<close>

record fetch_raw =
  raw_ok :: bool
  raw_status :: int
  raw_text :: string

record fetch_result =
  fr_ok :: bool
  fr_status :: int
  fr_text :: string
  fr_json :: jsv

text \<open>
  What the code takes from its runtime and from the outside world. None of it is code of
  the repository, so every theorem holds for all of them:
  \<^item> \<open>json_parse\<close> is \<^verbatim>\<open>JSON.parse\<close> on a string, \<open>None\<close> when it throws;
  \<^item> \<open>json_stringify\<close> is \<^verbatim>\<open>JSON.stringify\<close>;
  \<^item> \<open>encodeURIComponent\<close> and \<open>url_search_params\<close> (the \<^verbatim>\<open>toString\<close> of a
    \<^verbatim>\<open>URLSearchParams\<close> with the given entries) build query strings;
  \<^item> \<open>to_temperature\<close> is the numeric coercion of the request's temperature,
    \<^verbatim>\<open>t ?? 0.7\<close> followed by \<^verbatim>\<open>Number.isFinite(Number(t)) ? Number(t) : 0.7\<close>
    (floating point);
  \<^item> \<open>fetch n req\<close> is the answer of the world to the request \<open>req\<close> when \<open>n\<close>
    requests were sent before it in the same turn; \<open>Inl\<close> is a rejected \<^verbatim>\<open>fetch\<close>.
\<close>

record runtime =
  json_parse :: "string \<Rightarrow> jsv option"
  json_stringify :: "jsv \<Rightarrow> string"
  encodeURIComponent :: "string \<Rightarrow> error + string"
  url_search_params :: "(string \<times> string) list \<Rightarrow> string"
  to_temperature :: "jsv \<Rightarrow> error + jsv"
  fetch :: "nat \<Rightarrow> request \<Rightarrow> error + fetch_raw"

text \<open>
  \<^verbatim>\<open>fetchJson\<close>. The list of requests sent so far is threaded through every function
  that talks to the network; a request is recorded when it is sent, whatever the answer.
\<close>

definition fetchJson ::
  "runtime \<Rightarrow> request list \<Rightarrow> request \<Rightarrow> request list \<times> (error + fetch_result)" where
  "fetchJson rt tr req =
     (tr @ [req],
      case fetch rt (length tr) req of
        Inl e \<Rightarrow> Inl e
      | Inr r \<Rightarrow>
          Inr \<lparr>fr_ok = raw_ok r, fr_status = raw_status r, fr_text = raw_text r,
               fr_json = (case json_parse rt (raw_text r) of Some j \<Rightarrow> j | None \<Rightarrow> JNull)\<rparr>)"

text \<open>An answer of a server: \<^verbatim>\<open>json(res, status, obj)\<close>.\<close>

datatype http_response = Json int jsv

section \<open>Provider resolution and completion requests (agent server)\<close>

record provider_cfg =
  cfg_provider :: string
  cfg_key :: jsv
  cfg_base :: string

definition providerConfig :: "jsv \<Rightarrow> jsv \<Rightarrow> error + provider_cfg" where
  "providerConfig provider s =
     (case js_String (js_or provider (JStr ''openai'')) of
        Inl e \<Rightarrow> Inl e
      | Inr p0 \<Rightarrow>
     (case getp s ''ai'' of
        Inl e \<Rightarrow> Inl e
      | Inr ai0 \<Rightarrow>
          (let p = toLowerCase p0;
               ai = js_or ai0 (JObj []);
               key = (if p = ''openai'' then js_or (rd ai ''openai_key'') (JStr [])
                      else if p = ''mistral'' then js_or (rd ai ''mistral_key'') (JStr [])
                      else if p = ''deepseek'' then js_or (rd ai ''deepseek_key'') (JStr [])
                      else JStr []);
               base = (if p = ''openai''
                         then js_or (rd ai ''openai_base'') (JStr ''https://api.openai.com'')
                       else if p = ''mistral''
                         then js_or (rd ai ''mistral_base'') (JStr ''https://api.mistral.ai'')
                       else if p = ''deepseek''
                         then js_or (rd ai ''deepseek_base'') (JStr ''https://api.deepseek.com'')
                       else JStr [])
           in (case js_String (js_or base (JStr [])) of
                 Inl e \<Rightarrow> Inl e
               | Inr b \<Rightarrow>
                   Inr \<lparr>cfg_provider = p, cfg_key = key, cfg_base = strip_slash (trim b)\<rparr>))))"

text \<open>The body of a completion request; \<^verbatim>\<open>tools\<close> and \<^verbatim>\<open>tool_choice\<close> are set only
  for a non-empty array of tools.\<close>

definition completion_body :: "string \<Rightarrow> jsv \<Rightarrow> jsv list \<Rightarrow> jsv \<Rightarrow> jsv" where
  "completion_body model temp messages tools =
     JObj ([(''model'', JStr (if model = [] then ''gpt-4o-mini'' else model)),
            (''temperature'', temp),
            (''messages'', JArr messages)]
           @ (case tools of
                JArr ts \<Rightarrow>
                  (if ts \<noteq> [] then [(''tools'', JArr ts), (''tool_choice'', JStr ''auto'')]
                   else [])
              | _ \<Rightarrow> []))"

definition openaiCompatChat ::
  "runtime \<Rightarrow> request list \<Rightarrow> provider_cfg \<Rightarrow> string \<Rightarrow> jsv \<Rightarrow> jsv list \<Rightarrow> jsv
     \<Rightarrow> request list \<times> (error + jsv)" where
  "openaiCompatChat rt tr cfg model temperature messages tools =
     (if \<not> truthy (cfg_key cfg) then (tr, Inl (MissingApiKey (cfg_provider cfg)))
      else
        (case to_temperature rt temperature of
           Inl e \<Rightarrow> (tr, Inl e)
         | Inr temp \<Rightarrow>
        (case js_String (cfg_key cfg) of
           Inl e \<Rightarrow> (tr, Inl e)
         | Inr k \<Rightarrow>
        (case fetchJson rt tr
                (ChatCompletion (cfg_base cfg @ ''/v1/chat/completions'') (''Bearer '' @ k)
                   (completion_body model temp messages tools)) of
           (tr', Inl e) \<Rightarrow> (tr', Inl e)
         | (tr', Inr r) \<Rightarrow>
             (if \<not> fr_ok r \<or> \<not> truthy (fr_json r)
              then (tr', Inl (AIRequestFailed (fr_status r) (take 300 (fr_text r))))
              else (tr', Inr (fr_json r)))))))"

section \<open>The chat turn (agent server, \<^verbatim>\<open>POST /api/agent/chat\<close>)\<close>

text \<open>What the handler has fixed before it talks to the network.\<close>

record chat_ctx =
  cx_cfg :: provider_cfg
  cx_model :: string
  cx_temperature :: jsv
  cx_messages :: "jsv list"
  cx_mcpUrl :: string
  cx_enableTools :: bool
  cx_tenant :: string

definition MCP_URL_DEFAULT :: "env \<Rightarrow> string" where
  "MCP_URL_DEFAULT ev =
     (case MCP_URL ev of
        Some u \<Rightarrow> (if u \<noteq> [] then u else ''http://mcp-server:8081'')
      | None \<Rightarrow> ''http://mcp-server:8081'')"

definition chat_message :: "string \<Rightarrow> string \<Rightarrow> jsv" where
  "chat_message role content = JObj [(''role'', JStr role), (''content'', JStr content)]"

definition missing_api_key_response :: "string \<Rightarrow> http_response" where
  "missing_api_key_response provider =
     Json 400 (JObj [(''error'', JStr ''missing_api_key''),
                     (''detail'', JStr (''Missing '' @ provider @ '' API key''))])"

text \<open>\<^verbatim>\<open>String(parsed.provider||"openai").toLowerCase()\<close>; the read throws when the body
  parsed to \<^verbatim>\<open>null\<close>.\<close>

definition chat_provider :: "jsv \<Rightarrow> error + string" where
  "chat_provider parsed =
     (case getp parsed ''provider'' of
        Inl e \<Rightarrow> Inl e
      | Inr pv \<Rightarrow>
          (case js_String (js_or pv (JStr ''openai'')) of
             Inl e \<Rightarrow> Inl e
           | Inr p \<Rightarrow> Inr (toLowerCase p)))"

text \<open>
  Lines 304 to 316 of the handler, after the credential check: the model, the system
  prompt and the text of the request, the messages, and the broker's URL, switch and
  tenant from the settings. \<open>Inr (Inl r)\<close> is the early answer \<^verbatim>\<open>missing_text\<close>.
\<close>

definition chat_fields :: "env \<Rightarrow> jsv \<Rightarrow> jsv \<Rightarrow> provider_cfg \<Rightarrow> error + (http_response + chat_ctx)" where
  "chat_fields ev s parsed cfg =
     (case js_String (js_or (rd parsed ''model'') (JStr [])) of
        Inl e \<Rightarrow> Inl e
      | Inr model \<Rightarrow>
     (case js_String (js_or (rd parsed ''system'') (JStr [])) of
        Inl e \<Rightarrow> Inl e
      | Inr system \<Rightarrow>
     (case js_String (js_or (rd parsed ''text'') (JStr [])) of
        Inl e \<Rightarrow> Inl e
      | Inr textIn \<Rightarrow>
          (if trim textIn = [] then Inr (Inl (Json 400 (JObj [(''error'', JStr ''missing_text'')])))
           else
             (case js_String (js_or (optp (rd s ''mcp'') ''url'') (JStr (MCP_URL_DEFAULT ev))) of
                Inl e \<Rightarrow> Inl e
              | Inr url \<Rightarrow>
             (case js_String (js_or (optp (rd s ''maximo'') ''defaultTenant'') (JStr ''default'')) of
                Inl e \<Rightarrow> Inl e
              | Inr tenant \<Rightarrow>
                  Inr (Inr \<lparr>cx_cfg = cfg, cx_model = trim model,
                            cx_temperature = rd parsed ''temperature'',
                            cx_messages =
                              (if trim system \<noteq> [] then [chat_message ''system'' (trim system)]
                               else [])
                              @ [chat_message ''user'' (trim textIn)],
                            cx_mcpUrl = strip_slash (trim url),
                            cx_enableTools = truthy (optp (rd s ''mcp'') ''enableTools''),
                            cx_tenant = tenant\<rparr>)))))))"

text \<open>Everything before the first network call.\<close>

definition chat_init :: "env \<Rightarrow> jsv \<Rightarrow> jsv \<Rightarrow> error + (http_response + chat_ctx)" where
  "chat_init ev s parsed =
     (case chat_provider parsed of
        Inl e \<Rightarrow> Inl e
      | Inr provider \<Rightarrow>
          (case providerConfig (JStr provider) s of
             Inl e \<Rightarrow> Inl e
           | Inr cfg \<Rightarrow>
               (if \<not> truthy (cfg_key cfg) then Inr (Inl (missing_api_key_response provider))
                else chat_fields ev s parsed cfg)))"

text \<open>Lines 318 to 323: the tool catalog.\<close>

definition fetch_tools :: "runtime \<Rightarrow> request list \<Rightarrow> chat_ctx \<Rightarrow> request list \<times> (error + jsv list)" where
  "fetch_tools rt tr cx =
     (if cx_enableTools cx \<and> cx_mcpUrl cx \<noteq> [] then
        (case encodeURIComponent rt (cx_tenant cx) of
           Inl e \<Rightarrow> (tr, Inl e)
         | Inr q \<Rightarrow>
             (case fetchJson rt tr (McpTools (cx_mcpUrl cx @ ''/mcp/tools?tenant='' @ q)) of
                (tr', Inl e) \<Rightarrow> (tr', Inl e)
              | (tr', Inr r) \<Rightarrow>
                  (tr', toOpenAITools
                          (if fr_ok r \<and> truthy (fr_json r) \<and> isArray (rd (fr_json r) ''tools'')
                           then rd (fr_json r) ''tools'' else JArr []))))
      else (tr, Inr []))"

text \<open>\<^verbatim>\<open>v?.[0]\<close>.\<close>

fun opt_index0 :: "jsv \<Rightarrow> jsv" where
  "opt_index0 (JArr (x # xs)) = x"
| "opt_index0 (JStr (c # cs)) = JStr [c]"
| "opt_index0 (JObj kvs) = rd (JObj kvs) ''0''"
| "opt_index0 v = JUndefined"

text \<open>\<^verbatim>\<open>out?.choices?.[0]?.message\<close>.\<close>

definition first_choice_message :: "jsv \<Rightarrow> jsv" where
  "first_choice_message out = optp (opt_index0 (optp out ''choices'')) ''message''"

text \<open>\<^verbatim>\<open>Array.isArray(msg.tool_calls) ? msg.tool_calls : []\<close>.\<close>

definition tool_calls_of :: "jsv \<Rightarrow> jsv list" where
  "tool_calls_of msg = (case rd msg ''tool_calls'' of JArr tcs \<Rightarrow> tcs | _ \<Rightarrow> [])"

text \<open>
  The argument object of one tool call:
  \<^verbatim>\<open>const argsStr = tc?.function?.arguments || "{}";\<close>
  \<^verbatim>\<open>try { args = JSON.parse(argsStr); } catch { args = { raw: argsStr }; }\<close>
  \<^verbatim>\<open>JSON.parse\<close> first converts its argument to a string; that conversion is inside
  the \<^verbatim>\<open>try\<close> as well.
\<close>

definition tool_args :: "runtime \<Rightarrow> jsv \<Rightarrow> jsv" where
  "tool_args rt tc =
     (let argsStr = js_or (optp (optp tc ''function'') ''arguments'') (JStr ''{}'') in
      case js_String argsStr of
        Inl e \<Rightarrow> JObj [(''raw'', argsStr)]
      | Inr str \<Rightarrow>
          (case json_parse rt str of
             None \<Rightarrow> JObj [(''raw'', argsStr)]
           | Some v \<Rightarrow> v))"

definition call_body :: "runtime \<Rightarrow> string \<Rightarrow> jsv \<Rightarrow> jsv" where
  "call_body rt tenant tc =
     JObj [(''name'', optp (optp tc ''function'') ''name''),
           (''args'', tool_args rt tc),
           (''tenant'', JStr tenant)]"

text \<open>\<^verbatim>\<open>cr.json ? JSON.stringify(cr.json) : String(cr.text||"")\<close>.\<close>

definition tool_content :: "runtime \<Rightarrow> fetch_result \<Rightarrow> string" where
  "tool_content rt cr =
     (if truthy (fr_json cr) then json_stringify rt (fr_json cr) else fr_text cr)"

text \<open>One turn of the loop over the tool calls: the broker is invoked, then the tool
  message is pushed; \<^verbatim>\<open>tc.id\<close> is read after the call and throws for a \<^verbatim>\<open>null\<close> entry.\<close>

definition exec_tool_call ::
  "runtime \<Rightarrow> string \<Rightarrow> string \<Rightarrow> request list \<Rightarrow> jsv list \<Rightarrow> jsv
     \<Rightarrow> request list \<times> (error + jsv list)" where
  "exec_tool_call rt mcpUrl tenant tr follow tc =
     (case fetchJson rt tr (McpCall (mcpUrl @ ''/mcp/call'') (call_body rt tenant tc)) of
        (tr', Inl e) \<Rightarrow> (tr', Inl e)
      | (tr', Inr cr) \<Rightarrow>
          (case getp tc ''id'' of
             Inl e \<Rightarrow> (tr', Inl e)
           | Inr tid \<Rightarrow>
               (tr', Inr (follow @ [JObj [(''role'', JStr ''tool''), (''tool_call_id'', tid),
                                          (''content'', JStr (tool_content rt cr))]]))))"

fun run_tool_calls ::
  "runtime \<Rightarrow> string \<Rightarrow> string \<Rightarrow> jsv list \<Rightarrow> request list \<Rightarrow> jsv list
     \<Rightarrow> request list \<times> (error + jsv list)" where
  "run_tool_calls rt mcpUrl tenant [] tr follow = (tr, Inr follow)"
| "run_tool_calls rt mcpUrl tenant (tc # tcs) tr follow =
     (case exec_tool_call rt mcpUrl tenant tr follow tc of
        (tr', Inl e) \<Rightarrow> (tr', Inl e)
      | (tr', Inr follow') \<Rightarrow> run_tool_calls rt mcpUrl tenant tcs tr' follow')"

definition reply_response :: "jsv \<Rightarrow> error + http_response" where
  "reply_response content =
     (case js_String (js_or content (JStr [])) of
        Inl e \<Rightarrow> Inl e
      | Inr s \<Rightarrow> Inr (Json 200 (JObj [(''reply'', JStr s)])))"

text \<open>Lines 333 to 356: the tool calls and the follow-up completion.\<close>

definition chat_followup ::
  "runtime \<Rightarrow> request list \<Rightarrow> chat_ctx \<Rightarrow> jsv \<Rightarrow> jsv list
     \<Rightarrow> request list \<times> (error + http_response)" where
  "chat_followup rt tr cx msg toolCalls =
     (case run_tool_calls rt (cx_mcpUrl cx) (cx_tenant cx) toolCalls tr (cx_messages cx @ [msg]) of
        (tr', Inl e) \<Rightarrow> (tr', Inl e)
      | (tr', Inr follow) \<Rightarrow>
          (case openaiCompatChat rt tr' (cx_cfg cx) (cx_model cx) (cx_temperature cx) follow
                  JUndefined of
             (tr'', Inl e) \<Rightarrow> (tr'', Inl e)
           | (tr'', Inr out2) \<Rightarrow>
               (tr'', reply_response (optp (first_choice_message out2) ''content''))))"

text \<open>Lines 325 to 331, then the follow-up: the turn from the first completion on.\<close>

definition chat_complete ::
  "runtime \<Rightarrow> request list \<Rightarrow> chat_ctx \<Rightarrow> jsv list \<Rightarrow> request list \<times> (error + http_response)" where
  "chat_complete rt tr cx tools =
     (case openaiCompatChat rt tr (cx_cfg cx) (cx_model cx) (cx_temperature cx) (cx_messages cx)
             (if tools \<noteq> [] then JArr tools else JUndefined) of
        (tr', Inl e) \<Rightarrow> (tr', Inl e)
      | (tr', Inr out1) \<Rightarrow>
          (let msg = js_or (first_choice_message out1) (JObj []);
               toolCalls = tool_calls_of msg
           in if toolCalls = [] then (tr', reply_response (rd msg ''content''))
              else chat_followup rt tr' cx msg toolCalls))"

text \<open>
  The handler, from the parsed body and the effective settings \<open>s\<close> on: the requests
  it sent, in order, and its answer. An \<open>Inl\<close> is caught by the server's
  \<^verbatim>\<open>try\<close>/\<^verbatim>\<open>catch\<close> and answered with status 500.
\<close>

definition chat_turn ::
  "runtime \<Rightarrow> env \<Rightarrow> jsv \<Rightarrow> jsv \<Rightarrow> request list \<times> (error + http_response)" where
  "chat_turn rt ev s parsed =
     (case chat_init ev s parsed of
        Inl e \<Rightarrow> ([], Inl e)
      | Inr (Inl early) \<Rightarrow> ([], Inr early)
      | Inr (Inr cx) \<Rightarrow>
          (case fetch_tools rt [] cx of
             (tr, Inl e) \<Rightarrow> (tr, Inl e)
           | (tr, Inr tools) \<Rightarrow> chat_complete rt tr cx tools))"

section \<open>Tool invocation (MCP server, \<^verbatim>\<open>POST /mcp/call\<close>)\<close>

text \<open>\<^verbatim>\<open>r.status||500\<close>.\<close>

definition status_or_500 :: "int \<Rightarrow> int" where
  "status_or_500 st = (if st = 0 then 500 else st)"

definition maximo_failed :: "fetch_result \<Rightarrow> nat \<Rightarrow> string \<Rightarrow> http_response" where
  "maximo_failed r n url =
     Json (status_or_500 (fr_status r))
       (JObj [(''error'', JStr ''maximo_failed''), (''detail'', JStr (take n (fr_text r))),
              (''url'', JStr url)])"

definition mcp_listOS ::
  "runtime \<Rightarrow> resolved_tenant \<Rightarrow> request list \<times> (error + http_response)" where
  "mcp_listOS rt tenant =
     (let url = rt_apiBase tenant @ ''/os'' in
      case fetchJson rt [] (MaximoGet url (rt_apiKey tenant)) of
        (tr, Inl e) \<Rightarrow> (tr, Inl e)
      | (tr, Inr r) \<Rightarrow>
          (if \<not> fr_ok r \<or> \<not> truthy (fr_json r) then (tr, Inr (maximo_failed r 600 url))
           else (tr, Inr (Json 200 (JObj [(''ok'', JBool True), (''tenant'', JStr (rt_id tenant)),
                                          (''list'', fr_json r)])))))"

text \<open>\<^verbatim>\<open>String(paramsIn[key] || "").trim()\<close>.\<close>

definition oslc_param :: "jsv \<Rightarrow> string \<Rightarrow> error + string" where
  "oslc_param paramsIn key =
     (case js_String (js_or (rd paramsIn key) (JStr [])) of
        Inl e \<Rightarrow> Inl e
      | Inr s \<Rightarrow> Inr (trim s))"

text \<open>The entries that are set on the \<^verbatim>\<open>URLSearchParams\<close>, in the order of the
  \<^verbatim>\<open>set\<close> calls; an empty value is not set.\<close>

definition query_params :: "resolved_tenant \<Rightarrow> jsv \<Rightarrow> error + (string \<times> string) list" where
  "query_params tenant paramsIn =
     (case oslc_param paramsIn ''oslc.where'' of
        Inl e \<Rightarrow> Inl e
      | Inr where0 \<Rightarrow>
     (case oslc_param paramsIn ''oslc.select'' of
        Inl e \<Rightarrow> Inl e
      | Inr select \<Rightarrow>
     (case oslc_param paramsIn ''oslc.orderBy'' of
        Inl e \<Rightarrow> Inl e
      | Inr orderBy \<Rightarrow>
     (case oslc_param paramsIn ''oslc.pageSize'' of
        Inl e \<Rightarrow> Inl e
      | Inr pageSize \<Rightarrow>
          (let wh = (if where0 \<noteq> [] then where0
                     else if rt_site tenant \<noteq> [] then ''siteid=\"'' @ rt_site tenant @ ''\"''
                     else [])
           in Inr (filter (\<lambda>(k, v). v \<noteq> [])
                     [(''oslc.where'', wh), (''oslc.select'', select),
                      (''oslc.orderBy'', orderBy), (''oslc.pageSize'', pageSize)]))))))"

text \<open>The trace record of a successful query.\<close>

definition query_trace :: "string \<Rightarrow> jsv" where
  "query_trace url =
     JObj [(''request'',
            JObj [(''method'', JStr ''GET''), (''url'', JStr url),
                  (''headers'', JObj [(''apikey'', JStr ''***'')])])]"

text \<open>\<^verbatim>\<open>`${tenant.apiBase}/os/${encodeURIComponent(os)}?${params.toString()}`\<close>, with
  the parameters that were set before.\<close>

definition query_url :: "runtime \<Rightarrow> resolved_tenant \<Rightarrow> string \<Rightarrow> jsv \<Rightarrow> error + string" where
  "query_url rt tenant os paramsIn =
     (case query_params tenant paramsIn of
        Inl e \<Rightarrow> Inl e
      | Inr params \<Rightarrow>
          (case encodeURIComponent rt os of
             Inl e \<Rightarrow> Inl e
           | Inr eos \<Rightarrow>
               Inr (rt_apiBase tenant @ ''/os/'' @ eos @ ''?'' @ url_search_params rt params)))"

definition mcp_queryOS ::
  "runtime \<Rightarrow> resolved_tenant \<Rightarrow> jsv \<Rightarrow> request list \<times> (error + http_response)" where
  "mcp_queryOS rt tenant args =
     (case js_String (js_or (rd args ''os'') (JStr [])) of
        Inl e \<Rightarrow> ([], Inl e)
      | Inr os0 \<Rightarrow>
          (let os = trim os0;
               paramsIn = (if truthy (rd args ''params'') \<and> typeof_object (rd args ''params'')
                           then rd args ''params'' else JObj [])
           in if os = [] then ([], Inr (Json 400 (JObj [(''error'', JStr ''missing_os'')])))
              else
                (case query_url rt tenant os paramsIn of
                   Inl e \<Rightarrow> ([], Inl e)
                 | Inr url \<Rightarrow>
                     (case fetchJson rt [] (MaximoGet url (rt_apiKey tenant)) of
                        (tr, Inl e) \<Rightarrow> (tr, Inl e)
                      | (tr, Inr r) \<Rightarrow>
                          (if \<not> fr_ok r \<or> \<not> truthy (fr_json r)
                           then (tr, Inr (maximo_failed r 800 url))
                           else (tr, Inr (Json 200
                                  (JObj [(''ok'', JBool True),
                                         (''tenant'', JStr (rt_id tenant)),
                                         (''os'', JStr os),
                                         (''data'', fr_json r),
                                         (''trace'', query_trace url)]))))))))"

text \<open>
  The handler, from the parsed body and the settings it loaded on. The tenant is
  resolved before the tool name is looked at. \<open>up\<close> is the engine's upper-casing
  that \<open>resolveTenant\<close> takes.
\<close>

definition mcp_call ::
  "(string \<Rightarrow> string) \<Rightarrow> runtime \<Rightarrow> env \<Rightarrow> jsv \<Rightarrow> jsv
     \<Rightarrow> request list \<times> (error + http_response)" where
  "mcp_call up rt ev settings parsed =
     (case getp parsed ''name'' of
        Inl e \<Rightarrow> ([], Inl e)
      | Inr nv \<Rightarrow>
     (case js_String (js_or nv (JStr [])) of
        Inl e \<Rightarrow> ([], Inl e)
      | Inr n0 \<Rightarrow>
     (case resolveTenant up ev settings (rd parsed ''tenant'') of
        Inl e \<Rightarrow> ([], Inl e)
      | Inr tenant \<Rightarrow>
          (let name = trim n0;
               args = js_or (rd parsed ''args'') (JObj [])
           in if name = [] then ([], Inr (Json 400 (JObj [(''error'', JStr ''missing_tool_name'')])))
              else if rt_apiBase tenant = [] \<or> \<not> truthy (rt_apiKey tenant)
                then ([], Inr (Json 400
                        (JObj [(''error'', JStr ''missing_maximo_config''),
                               (''detail'', JStr ''MAXIMO_URL and MAXIMO_APIKEY must be provided (secret/env) or in settings.json.'')])))
              else if name = ''maximo.listOS'' then mcp_listOS rt tenant
              else if name = ''maximo.queryOS'' then mcp_queryOS rt tenant args
              else ([], Inr (Json 404 (JObj [(''error'', JStr ''unknown_tool''),
                                             (''name'', JStr name)])))))))"

section \<open>The direct query (agent server, \<^verbatim>\<open>POST /api/maximo/query\<close>)\<close>

text \<open>
  Lines 374 to 383 of the handler: the entries that are set on the
  \<^verbatim>\<open>URLSearchParams\<close>, \<open>site\<close> being the default site of the settings in upper case.
  The ordering token is a constant of the handler (\<^verbatim>\<open>let orderBy = "-changedate"\<close>);
  this is the only call of \<^verbatim>\<open>normalizeOrderBy\<close> in the two servers.
\<close>

definition direct_query_params :: "string \<Rightarrow> error + (string \<times> string) list" where
  "direct_query_params site =
     (case normalizeOrderBy (JStr ''-changedate'') of
        Inl e \<Rightarrow> Inl e
      | Inr orderBy \<Rightarrow>
          Inr ((if site \<noteq> [] then [(''oslc.where'', ''siteid=\"'' @ site @ ''\"'')] else [])
               @ [(''oslc.select'',
                   ''assetnum,description,siteid,location,status,assettype,changedate''),
                  (''oslc.orderBy'', orderBy),
                  (''oslc.pageSize'', ''100'')]))"

section \<open>Saving settings (agent server, \<^verbatim>\<open>saveSettingsFromUI\<close>)\<close>

text \<open>
  Own enumerable properties, as the spread \<^verbatim>\<open>{...v}\<close> copies them: those of a plain
  object, the indices of an array, the characters of a string.
\<close>

fun own_props :: "jsv \<Rightarrow> (string \<times> jsv) list" where
  "own_props (JObj kvs) = kvs"
| "own_props (JArr xs) = zip (map show_nat [0..<length xs]) xs"
| "own_props (JStr s) = zip (map show_nat [0..<length s]) (map (\<lambda>c. JStr [c]) s)"
| "own_props v = []"

text \<open>Writing one property of an object literal under construction: an existing key
  keeps its place, a new key goes last.\<close>

fun obj_set :: "(string \<times> jsv) list \<Rightarrow> string \<Rightarrow> jsv \<Rightarrow> (string \<times> jsv) list" where
  "obj_set [] k v = [(k, v)]"
| "obj_set ((k', v') # kvs) k v = (if k' = k then (k, v) # kvs else (k', v') # obj_set kvs k v)"

text \<open>\<^verbatim>\<open>{ ...a, ...b }\<close>.\<close>

definition spread2 :: "jsv \<Rightarrow> jsv \<Rightarrow> (string \<times> jsv) list" where
  "spread2 a b = fold (\<lambda>(k, v) acc. obj_set acc k v) (own_props a @ own_props b) []"

text \<open>\<^verbatim>\<open>delete o.k\<close> on an object literal.\<close>

definition obj_delete :: "(string \<times> jsv) list \<Rightarrow> string \<Rightarrow> (string \<times> jsv) list" where
  "obj_delete kvs k = filter (\<lambda>(k', v). k' \<noteq> k) kvs"

text \<open>
  The assignment \<^verbatim>\<open>next.k = v\<close>, as far as the file that is written shows it. The
  module is strict code, so the assignment throws on a number, a string or a boolean
  (and on \<^verbatim>\<open>null\<close>, where the read before it threw already). On an array it adds a
  named property, which \<^verbatim>\<open>JSON.stringify\<close> does not write.
\<close>

fun assign :: "jsv \<Rightarrow> string \<Rightarrow> jsv \<Rightarrow> error + jsv" where
  "assign (JObj kvs) k v = Inr (JObj (obj_set kvs k v))"
| "assign (JArr xs) k v = Inr (JArr xs)"
| "assign other k v = Inl TypeError"

text \<open>\<^verbatim>\<open>x && typeof x === "object"\<close>.\<close>

definition is_object_value :: "jsv \<Rightarrow> bool" where
  "is_object_value x = (truthy x \<and> typeof_object x)"

text \<open>\<^verbatim>\<open>next.k = { ...(next.k||{}), ...part }\<close>.\<close>

definition merge_section :: "jsv \<Rightarrow> string \<Rightarrow> jsv \<Rightarrow> error + jsv" where
  "merge_section nxt k part =
     (case getp nxt k of
        Inl e \<Rightarrow> Inl e
      | Inr old \<Rightarrow> assign nxt k (JObj (spread2 (js_or old (JObj [])) part)))"

text \<open>The same for \<^verbatim>\<open>maximo\<close>, followed by \<^verbatim>\<open>delete next.maximo.apiKey\<close>: the key is
  deleted from the object that was just assigned.\<close>

definition merge_maximo :: "jsv \<Rightarrow> jsv \<Rightarrow> error + jsv" where
  "merge_maximo nxt part =
     (case getp nxt ''maximo'' of
        Inl e \<Rightarrow> Inl e
      | Inr old \<Rightarrow>
          assign nxt ''maximo'' (JObj (obj_delete (spread2 (js_or old (JObj [])) part) ''apiKey'')))"

text \<open>\<^verbatim>\<open>String(t.k||"").trim()\<close> for an entry of \<^verbatim>\<open>payload.tenants\<close>.\<close>

definition tenant_field :: "jsv \<Rightarrow> string \<Rightarrow> error + string" where
  "tenant_field t k =
     (case getp t k of
        Inl e \<Rightarrow> Inl e
      | Inr v \<Rightarrow>
          (case js_String (js_or v (JStr [])) of
             Inl e \<Rightarrow> Inl e
           | Inr s \<Rightarrow> Inr (trim s)))"

definition clean_tenant :: "jsv \<Rightarrow> error + jsv" where
  "clean_tenant t =
     (case tenant_field t ''id'' of Inl e \<Rightarrow> Inl e | Inr i \<Rightarrow>
     (case tenant_field t ''label'' of Inl e \<Rightarrow> Inl e | Inr l \<Rightarrow>
     (case tenant_field t ''maximoBaseUrl'' of Inl e \<Rightarrow> Inl e | Inr b \<Rightarrow>
     (case tenant_field t ''org'' of Inl e \<Rightarrow> Inl e | Inr org \<Rightarrow>
     (case tenant_field t ''site'' of Inl e \<Rightarrow> Inl e | Inr site \<Rightarrow>
        Inr (JObj [(''id'', JStr i), (''label'', JStr l), (''maximoBaseUrl'', JStr b),
                   (''org'', JStr org), (''site'', JStr site)]))))))"

text \<open>\<^verbatim>\<open>payload.tenants.map(...)\<close>; it stops at the first entry that throws.\<close>

fun clean_tenants :: "jsv list \<Rightarrow> error + jsv list" where
  "clean_tenants [] = Inr []"
| "clean_tenants (t # ts) =
     (case clean_tenant t of
        Inl e \<Rightarrow> Inl e
      | Inr c \<Rightarrow> (case clean_tenants ts of Inl e \<Rightarrow> Inl e | Inr cs \<Rightarrow> Inr (c # cs)))"

definition set_tenants :: "jsv \<Rightarrow> jsv \<Rightarrow> error + jsv" where
  "set_tenants nxt tv =
     (case tv of
        JArr ts \<Rightarrow>
          (case clean_tenants ts of
             Inl e \<Rightarrow> Inl e
           | Inr cs \<Rightarrow> assign nxt ''tenants'' (JArr (filter (\<lambda>c. truthy (rd c ''id'')) cs)))
      | _ \<Rightarrow> Inr nxt)"

text \<open>
  \<open>saveSettingsFromUI cur payload\<close> is the value that is written to the settings
  file, \<open>cur\<close> being what \<^verbatim>\<open>loadSettingsRaw\<close> read from it before.
\<close>

definition saveSettingsFromUI :: "jsv \<Rightarrow> jsv \<Rightarrow> error + jsv" where
  "saveSettingsFromUI cur payload =
     (if is_object_value payload then
        (case (if is_object_value (rd payload ''ui'')
               then merge_section cur ''ui'' (rd payload ''ui'') else Inr cur) of
           Inl e \<Rightarrow> Inl e
         | Inr n1 \<Rightarrow>
        (case (if is_object_value (rd payload ''maximo'')
               then merge_maximo n1 (rd payload ''maximo'') else Inr n1) of
           Inl e \<Rightarrow> Inl e
         | Inr n2 \<Rightarrow>
        (case (if is_object_value (rd payload ''mcp'')
               then merge_section n2 ''mcp'' (rd payload ''mcp'') else Inr n2) of
           Inl e \<Rightarrow> Inl e
         | Inr n3 \<Rightarrow> set_tenants n3 (rd payload ''tenants''))))
      else Inr cur)"



section \<open>Vocabulary of the theorems on tenant resolution\<close>

text \<open>
  A registry entry that the resolution can look at without throwing: a plain object
  whose \<^verbatim>\<open>id\<close> has a string form. \<open>has_id wanted x\<close> is the test of the
  \<^verbatim>\<open>find\<close> callback, \<^verbatim>\<open>String(x.id) === wanted\<close>.
\<close>

fun tenant_entry :: "jsv \<Rightarrow> bool" where
  "tenant_entry (JObj kvs) =
     (case js_String (rd (JObj kvs) ''id'') of Inr s \<Rightarrow> True | Inl e \<Rightarrow> False)"
| "tenant_entry v = False"

definition has_id :: "string \<Rightarrow> jsv \<Rightarrow> bool" where
  "has_id wanted x = (js_String (rd x ''id'') = Inr wanted)"

text \<open>
  The tenant record in the words of the specification: the first registry entry whose id
  is the requested one, else the first entry whose id is \<open>default\<close>, else the empty
  record.
\<close>

definition chosen_tenant :: "jsv list \<Rightarrow> string \<Rightarrow> jsv" where
  "chosen_tenant tenants wanted =
     (case List.find (has_id wanted) tenants of
        Some x \<Rightarrow> x
      | None \<Rightarrow> (case List.find (has_id ''default'') tenants of Some x \<Rightarrow> x | None \<Rightarrow> JObj []))"

text \<open>The first truthy value of a list of sources, in their order of precedence; the
  empty string when there is none.\<close>

fun first_truthy :: "jsv list \<Rightarrow> jsv" where
  "first_truthy [] = JStr []"
| "first_truthy (v # vs) = (if truthy v then v else first_truthy vs)"

text \<open>
  Example data. \<open>acme_settings\<close> has a registry with one tenant and global values in
  \<^verbatim>\<open>settings.maximo\<close>; \<open>acme_env\<close> sets the base URL and the credential in the
  environment as well, all three base URLs being different. \<open>registry_only\<close> has one
  tenant and nothing else.
\<close>

definition acme_settings :: jsv where
  "acme_settings =
     JObj [(''tenants'', JArr [JObj [(''id'', JStr ''acme''), (''label'', JStr ''Acme''),
                                     (''maximoBaseUrl'', JStr ''https://acme.example.com/''),
                                     (''org'', JStr ''ACME''), (''site'', JStr ''bedford'')]]),
           (''maximo'', JObj [(''baseUrl'', JStr ''https://mas.example.com''),
                              (''apiKey'', JStr ''file-key'')])]"

definition acme_env :: env where
  "acme_env = \<lparr>MCP_URL = None, MAXIMO_URL = Some ''https://env.example.com'',
               MAXIMO_APIKEY = Some ''env-key'', DEFAULT_SITEID = None\<rparr>"

definition empty_env :: env where
  "empty_env = \<lparr>MCP_URL = None, MAXIMO_URL = None, MAXIMO_APIKEY = None, DEFAULT_SITEID = None\<rparr>"

definition registry_only :: jsv where
  "registry_only = JObj [(''tenants'', JArr [JObj [(''id'', JStr ''acme'')]])]"



section \<open>Vocabulary of the theorems on the handlers\<close>

text \<open>
  Two runs of the MCP server differ at most in the credential: environment and settings
  agree on everything that tenant resolution reads except \<^verbatim>\<open>MAXIMO_APIKEY\<close> and
  \<^verbatim>\<open>settings.maximo.apiKey\<close>.
\<close>

definition same_but_credential :: "env \<Rightarrow> jsv \<Rightarrow> env \<Rightarrow> jsv \<Rightarrow> bool" where
  "same_but_credential ev1 s1 ev2 s2 =
     (MAXIMO_URL ev1 = MAXIMO_URL ev2 \<and> DEFAULT_SITEID ev1 = DEFAULT_SITEID ev2
      \<and> nullish s1 = nullish s2
      \<and> rd s1 ''tenants'' = rd s2 ''tenants''
      \<and> optp (rd s1 ''maximo'') ''defaultTenant'' = optp (rd s2 ''maximo'') ''defaultTenant''
      \<and> optp (rd s1 ''maximo'') ''baseUrl'' = optp (rd s2 ''maximo'') ''baseUrl''
      \<and> optp (rd s1 ''maximo'') ''defaultSite'' = optp (rd s2 ''maximo'') ''defaultSite'')"

text \<open>The request names the tool \<^verbatim>\<open>maximo.queryOS\<close>.\<close>

definition is_queryOS :: "jsv \<Rightarrow> bool" where
  "is_queryOS parsed =
     (case js_String (js_or (rd parsed ''name'') (JStr [])) of
        Inl e \<Rightarrow> False
      | Inr n \<Rightarrow> trim n = ''maximo.queryOS'')"

text \<open>The OSLC parameters that the \<^verbatim>\<open>maximo.queryOS\<close> handler reads from a request:
  \<^verbatim>\<open>args.params\<close> when that is an object, else the empty object.\<close>

definition query_args_params :: "jsv \<Rightarrow> jsv" where
  "query_args_params parsed =
     (let args = js_or (rd parsed ''args'') (JObj []) in
      if truthy (rd args ''params'') \<and> typeof_object (rd args ''params'')
      then rd args ''params'' else JObj [])"

text \<open>A request to the LLM provider.\<close>

fun is_completion :: "request \<Rightarrow> bool" where
  "is_completion (ChatCompletion url auth body) = True"
| "is_completion req = False"

text \<open>The number of completion requests among the requests of a turn.\<close>

definition completions :: "request list \<Rightarrow> nat" where
  "completions tr = length (filter is_completion tr)"

text \<open>The broker invocation that the loop sends for one tool call, and the tool message
  that it pushes for the answer.\<close>

definition broker_call :: "runtime \<Rightarrow> string \<Rightarrow> string \<Rightarrow> jsv \<Rightarrow> request" where
  "broker_call rt mcpUrl tenant tc = McpCall (mcpUrl @ ''/mcp/call'') (call_body rt tenant tc)"

definition tool_message :: "jsv \<Rightarrow> string \<Rightarrow> jsv" where
  "tool_message tid content =
     JObj [(''role'', JStr ''tool''), (''tool_call_id'', tid), (''content'', JStr content)]"

section \<open>A concrete runtime for the examples\<close>

text \<open>
  The theorems hold for every runtime. Their examples run in this one. \<open>demo_parse\<close>
  agrees with \<^verbatim>\<open>JSON.parse\<close> on the strings of its table and on the strings outside it
  that the examples use (the empty string and \<^verbatim>\<open>{oops\<close>, which \<^verbatim>\<open>JSON.parse\<close> rejects);
  \<open>demo_stringify\<close> agrees with \<^verbatim>\<open>JSON.stringify\<close> on the one value it is applied to.
\<close>

definition tool_call_reply :: jsv where
  "tool_call_reply =
     JObj [(''choices'',
            JArr [JObj [(''message'',
                         JObj [(''role'', JStr ''assistant''), (''content'', JNull),
                               (''tool_calls'',
                                JArr [JObj [(''id'', JStr ''call_1''),
                                            (''type'', JStr ''function''),
                                            (''function'',
                                             JObj [(''name'', JStr ''maximo.listOS''),
                                                   (''arguments'', JStr ''{oops'')])]])])]])]"

definition final_reply :: jsv where
  "final_reply =
     JObj [(''choices'',
            JArr [JObj [(''message'',
                         JObj [(''role'', JStr ''assistant''), (''content'', JStr ''Done.'')])]])]"

definition demo_parse :: "string \<Rightarrow> jsv option" where
  "demo_parse s =
     map_of
       [(''{}'', JObj []),
        (''{\"member\":[]}'', JObj [(''member'', JArr [])]),
        (''{\"ok\":true}'', JObj [(''ok'', JBool True)]),
        (''{\"choices\":[{\"message\":{\"role\":\"assistant\",\"content\":null,\"tool_calls\":[{\"id\":\"call_1\",\"type\":\"function\",\"function\":{\"name\":\"maximo.listOS\",\"arguments\":\"{oops\"}}]}}]}'',
         tool_call_reply),
        (''{\"choices\":[{\"message\":{\"role\":\"assistant\",\"content\":\"Done.\"}}]}'',
         final_reply)] s"

definition demo_stringify :: "jsv \<Rightarrow> string" where
  "demo_stringify v = (if v = JObj [(''ok'', JBool True)] then ''{\"ok\":true}'' else ''null'')"

text \<open>Percent-encoding of the bytes of a string, all but the unreserved characters of
  \<^verbatim>\<open>encodeURIComponent\<close>.\<close>

definition hex_digit :: "nat \<Rightarrow> char" where
  "hex_digit d = ''0123456789ABCDEF'' ! d"

definition percent_encode :: "string \<Rightarrow> string \<Rightarrow> string" where
  "percent_encode unreserved s =
     concat (map (\<lambda>c. if c \<in> set unreserved then [c]
                        else [CHR ''%'', hex_digit (of_char c div 16), hex_digit (of_char c mod 16)]) s)"

definition demo_encode :: "string \<Rightarrow> error + string" where
  "demo_encode s =
     Inr (percent_encode
       ''abcdefghijklmnopqrstuvwxyzABCDEFGHIJKLMNOPQRSTUVWXYZ0123456789-_.!~*()'' s)"

fun join_amp :: "string list \<Rightarrow> string" where
  "join_amp [] = []"
| "join_amp [x] = x"
| "join_amp (x # y # ys) = x @ ''&'' @ join_amp (y # ys)"

text \<open>The serialization of \<^verbatim>\<open>URLSearchParams\<close>: a space becomes \<open>+\<close>, the other
  characters are percent-encoded but for letters, digits and \<open>-_.*\<close>.\<close>

definition form_encode :: "string \<Rightarrow> string" where
  "form_encode s =
     concat (map (\<lambda>c. if c = CHR '' '' then ''+''
                        else percent_encode
                          ''abcdefghijklmnopqrstuvwxyzABCDEFGHIJKLMNOPQRSTUVWXYZ0123456789-_.*'' [c]) s)"

definition demo_search_params :: "(string \<times> string) list \<Rightarrow> string" where
  "demo_search_params kvs =
     join_amp (map (\<lambda>(k, v). form_encode k @ ''='' @ form_encode v) kvs)"

text \<open>The temperature: a number is kept; the default 0.7, which is no integer, is
  written as its JSON text.\<close>

definition demo_temperature :: "jsv \<Rightarrow> error + jsv" where
  "demo_temperature v = Inr (case v of JNum n \<Rightarrow> JNum n | _ \<Rightarrow> JStr ''0.7'')"

text \<open>
  The world: the provider asks for one tool call in its first answer and gives the final
  answer afterwards; the broker and the backend answer every request with status 200.
\<close>

definition demo_fetch :: "nat \<Rightarrow> request \<Rightarrow> error + fetch_raw" where
  "demo_fetch n req =
     Inr \<lparr>raw_ok = True, raw_status = 200,
          raw_text =
            (case req of
               ChatCompletion url auth body \<Rightarrow>
                 (if n = 0
                  then ''{\"choices\":[{\"message\":{\"role\":\"assistant\",\"content\":null,\"tool_calls\":[{\"id\":\"call_1\",\"type\":\"function\",\"function\":{\"name\":\"maximo.listOS\",\"arguments\":\"{oops\"}}]}}]}''
                  else ''{\"choices\":[{\"message\":{\"role\":\"assistant\",\"content\":\"Done.\"}}]}'')
             | McpTools url \<Rightarrow> ''{}''
             | McpCall url body \<Rightarrow> ''{\"ok\":true}''
             | MaximoGet url key \<Rightarrow> ''{\"member\":[]}'')\<rparr>"

definition demo_rt :: runtime where
  "demo_rt =
     \<lparr>json_parse = demo_parse, json_stringify = demo_stringify,
      encodeURIComponent = demo_encode, url_search_params = demo_search_params,
      to_temperature = demo_temperature, fetch = demo_fetch\<rparr>"


text \<open>Settings and requests of the examples.\<close>

definition openai_settings :: jsv where
  "openai_settings =
     JObj [(''ai'', JObj [(''openai_key'', JStr ''sk-test'')]),
           (''maximo'', JObj []),
           (''mcp'', JObj [(''url'', JStr ''http://mcp-server:8081/''), (''enableTools'', JBool False)]),
           (''tenants'', JArr [])]"

definition chat_request :: jsv where
  "chat_request = JObj [(''provider'', JStr ''OpenAI''), (''text'', JStr '' show all assets '')]"

definition query_request :: jsv where
  "query_request =
     JObj [(''name'', JStr ''maximo.queryOS''),
           (''args'', JObj [(''os'', JStr ''mxapiasset'')]),
           (''tenant'', JStr ''acme'')]"

text \<open>A query that asks for an ordering in the form of field and direction word.\<close>

definition ordered_query_request :: jsv where
  "ordered_query_request =
     JObj [(''name'', JStr ''maximo.queryOS''),
           (''args'', JObj [(''os'', JStr ''mxapiasset''),
                            (''params'', JObj [(''oslc.orderBy'', JStr ''changedate desc'')])]),
           (''tenant'', JStr ''acme'')]"

text \<open>What the handler fixes for \<open>chat_request\<close> under \<open>openai_settings\<close>, and its
  first completion request.\<close>

definition demo_cx :: chat_ctx where
  "demo_cx =
     \<lparr>cx_cfg = \<lparr>cfg_provider = ''openai'', cfg_key = JStr ''sk-test'',
                cfg_base = ''https://api.openai.com''\<rparr>,
      cx_model = [], cx_temperature = JUndefined,
      cx_messages = [chat_message ''user'' ''show all assets''],
      cx_mcpUrl = ''http://mcp-server:8081'', cx_enableTools = False,
      cx_tenant = ''default''\<rparr>"

definition demo_first_request :: request where
  "demo_first_request =
     ChatCompletion ''https://api.openai.com/v1/chat/completions'' ''Bearer sk-test''
       (JObj [(''model'', JStr ''gpt-4o-mini''), (''temperature'', JStr ''0.7''),
              (''messages'', JArr [chat_message ''user'' ''show all assets''])])"

text \<open>The tool call of \<open>tool_call_reply\<close>, whose argument string is not valid JSON,
  and a tool call whose argument string is empty.\<close>

definition malformed_args_call :: jsv where
  "malformed_args_call =
     JObj [(''id'', JStr ''call_1''), (''type'', JStr ''function''),
           (''function'', JObj [(''name'', JStr ''maximo.listOS''), (''arguments'', JStr ''{oops'')])]"

definition empty_args_call :: jsv where
  "empty_args_call =
     JObj [(''id'', JStr ''call_2''), (''type'', JStr ''function''),
           (''function'', JObj [(''name'', JStr ''maximo.listOS''), (''arguments'', JStr [])])]"




section \<open>Properties of the tool schema normalization\<close>

subsection \<open>Facts about the base functions\<close>






subsection \<open>One record\<close>


lemma convert_tool_native_eq:
  "\<not> is_openai_tool t \<Longrightarrow> js_String (js_or (optp t ''name'') (JStr [])) = Inr n0 \<Longrightarrow>
   convert_tool t =
     (if trim n0 = [] then Inr None
      else (case js_String (js_or (optp t ''description'') (JStr [])) of
              Inl e \<Rightarrow> Inl e
            | Inr d \<Rightarrow> Inr (Some (mk_tool (trim n0) d (pick_schema (optp t ''inputSchema''))))))"
  by (simp add: convert_tool_def Let_def)

lemma convert_tool_native_err:
  "\<not> is_openai_tool t \<Longrightarrow> js_String (js_or (optp t ''name'') (JStr [])) = Inl e \<Longrightarrow>
   convert_tool t = Inl e"
  by (simp add: convert_tool_def Let_def)


lemma convert_tool_openai_not_None:
  "is_openai_tool t \<Longrightarrow> convert_tool t \<noteq> Inr None"
  by (cases "js_String (rd (rd t ''function'') ''name'')";
      cases "js_String (js_or (rd (rd t ''function'') ''description'') (JStr []))")
     (simp_all add: convert_tool_def Let_def)

lemma convert_tool_None:
  "convert_tool t = Inr None \<longleftrightarrow>
     (\<not> is_openai_tool t \<and>
      (\<exists>n0. js_String (js_or (optp t ''name'') (JStr [])) = Inr n0 \<and> trim n0 = []))"
proof (cases "is_openai_tool t")
  case True
  then show ?thesis
    by (simp add: convert_tool_openai_not_None)
next
  case False
  show ?thesis
  proof (cases "js_String (js_or (optp t ''name'') (JStr []))")
    case (Inl e)
    with False show ?thesis by (simp add: convert_tool_native_err)
  next
    case (Inr n0)
    show ?thesis
      unfolding convert_tool_native_eq [OF False Inr]
      by (cases "js_String (js_or (optp t ''description'') (JStr []))") (auto simp: False Inr)
  qed
qed

lemma canonical_tool_convert:
  assumes "canonical_tool t"
  shows "\<exists>n d p. n \<noteq> [] \<and> convert_tool t = Inr (Some (mk_tool n d (JObj p)))"
proof -
  let ?f = "rd t ''function''"
  from assms have ty: "rd t ''type'' = JStr ''function''"
    by (simp add: canonical_tool_def)
  then have t: "truthy t" by (cases t) simp_all
  from assms have "is_plain_object ?f" by (simp add: canonical_tool_def)
  then have f: "truthy ?f" by (cases ?f) simp_all
  from assms obtain n where n: "rd ?f ''name'' = JStr n" "n \<noteq> []"
    by (cases "rd ?f ''name''") (simp_all add: canonical_tool_def)
  from assms obtain d where d: "rd ?f ''description'' = JStr d"
    by (cases "rd ?f ''description''") (simp_all add: canonical_tool_def)
  from assms obtain p where p: "rd ?f ''parameters'' = JObj p"
    by (cases "rd ?f ''parameters''") (simp_all add: canonical_tool_def)
  from ty t f n have "is_openai_tool t"
    by (simp add: is_openai_tool_def)
  with n d p have "convert_tool t = Inr (Some (mk_tool n d (JObj p)))"
    by (simp add: convert_tool_def Let_def js_or_def pick_schema_def)
  with n(2) show ?thesis by blast
qed

lemma convert_tool_mk_tool:
  "n \<noteq> [] \<Longrightarrow> truthy p \<Longrightarrow> typeof_object p \<Longrightarrow>
   convert_tool (mk_tool n d p) = Inr (Some (mk_tool n d p))"
  by (simp add: convert_tool_def is_openai_tool_def mk_tool_def js_or_def pick_schema_def)

subsection \<open>The loop\<close>

lemma tools_loop_fixed:
  "list_all (\<lambda>y. convert_tool y = Inr (Some y)) ys \<Longrightarrow> tools_loop ys out = Inr (out @ ys)"
  by (induction ys arbitrary: out) auto

lemma tools_loop_canonical:
  "list_all canonical_tool xs \<Longrightarrow>
   \<exists>ys. tools_loop xs out = Inr (out @ ys) \<and> length ys = length xs
       \<and> list_all (\<lambda>y. convert_tool y = Inr (Some y)) ys"
proof (induction xs arbitrary: out)
  case Nil
  then show ?case by simp
next
  case (Cons x xs)
  from Cons.prems have "canonical_tool x" by simp
  from canonical_tool_convert [OF this] obtain n d p where n: "n \<noteq> []"
    and cx: "convert_tool x = Inr (Some (mk_tool n d (JObj p)))"
    by blast
  from Cons.prems have "list_all canonical_tool xs" by simp
  from Cons.IH [OF this, of "out @ [mk_tool n d (JObj p)]"]
  obtain ys where ys:
    "tools_loop xs (out @ [mk_tool n d (JObj p)]) = Inr ((out @ [mk_tool n d (JObj p)]) @ ys)"
    "length ys = length xs" "list_all (\<lambda>y. convert_tool y = Inr (Some y)) ys"
    by blast
  have fx: "convert_tool (mk_tool n d (JObj p)) = Inr (Some (mk_tool n d (JObj p)))"
    using n by (simp add: convert_tool_mk_tool)
  show ?case
    by (rule exI [of _ "mk_tool n d (JObj p) # ys"]) (simp add: cx ys fx)
qed




subsection \<open>Idempotence on canonical input\<close>

text \<open>
  C8. The schema normalizer is idempotent on input that is already in canonical form:
  for every sequence of canonical tools the normalizer returns (it throws nothing), keeps
  every record, and normalizing its output again gives that output.
\<close>

theorem toOpenAITools_idempotent_on_canonical:
  assumes "list_all canonical_tool xs"
  shows "\<exists>ys. toOpenAITools (JArr xs) = Inr ys \<and> length ys = length xs
            \<and> toOpenAITools (JArr ys) = Inr ys"
proof -
  from tools_loop_canonical [OF assms, of "[]"]
  obtain ys where ys: "tools_loop xs [] = Inr ys" "length ys = length xs"
    and fixed: "list_all (\<lambda>y. convert_tool y = Inr (Some y)) ys"
    by auto
  from tools_loop_fixed [OF fixed, of "[]"] have "tools_loop ys [] = Inr ys"
    by simp
  with ys show ?thesis
    by (auto simp: toOpenAITools_def)
qed

theorem toOpenAITools_idempotent_on_canonical_witness:
  "list_all canonical_tool
     [JObj [(''type'', JStr ''function''), (''strict'', JBool True),
        (''function'', JObj [(''name'', JStr ''maximo.listOS''),
             (''description'', JStr ''List object structures (/os).''),
             (''parameters'', JObj [(''type'', JStr ''object''), (''properties'', JObj []),
                 (''additionalProperties'', JBool False)])])]]
   \<and> (\<exists>ys. toOpenAITools (JArr
     [JObj [(''type'', JStr ''function''), (''strict'', JBool True),
        (''function'', JObj [(''name'', JStr ''maximo.listOS''),
             (''description'', JStr ''List object structures (/os).''),
             (''parameters'', JObj [(''type'', JStr ''object''), (''properties'', JObj []),
                 (''additionalProperties'', JBool False)])])]]) = Inr ys
        \<and> length ys = 1 \<and> toOpenAITools (JArr ys) = Inr ys)"
proof -
  have h: "list_all canonical_tool
     [JObj [(''type'', JStr ''function''), (''strict'', JBool True),
        (''function'', JObj [(''name'', JStr ''maximo.listOS''),
             (''description'', JStr ''List object structures (/os).''),
             (''parameters'', JObj [(''type'', JStr ''object''), (''properties'', JObj []),
                 (''additionalProperties'', JBool False)])])]]"
    by (simp add: canonical_tool_def)
  from toOpenAITools_idempotent_on_canonical [OF h] h show ?thesis
    by simp
qed

subsection \<open>What the normalizer emits\<close>

lemma printable_iff: "printable v \<longleftrightarrow> (\<exists>s. js_String v = Inr s)"
  by (cases "js_String v") (simp_all add: printable_def)













text \<open>
  A record in canonical shape whose name is the empty array passes the guard of the
  first branch (an array is truthy) and is emitted with the empty name; the second
  branch tests the name after the conversion and would have skipped it.
\<close>

lemma toOpenAITools_empty_name_example:
  "toOpenAITools (JArr [JObj [(''type'', JStr ''function''),
                              (''function'', JObj [(''name'', JArr [])])]])
     = Inr [mk_tool [] [] open_schema]"
  by (simp add: toOpenAITools_def convert_tool_def is_openai_tool_def js_or_def pick_schema_def
        open_schema_def)


section \<open>Properties of the ordering-token conversion\<close>

subsection \<open>Trimming\<close>

lemma is_space_not_field: "is_space c \<Longrightarrow> \<not> is_field_char c"
  by (auto simp: is_space_def is_field_char_def)

lemma lower_char_space:
  assumes "is_space c"
  shows "lower_char c = c"
proof -
  from assms consider "c = CHR 0x09" | "c = CHR 0x0A" | "c = CHR 0x0B" | "c = CHR 0x0C"
    | "c = CHR 0x0D" | "c = CHR '' ''" | "c = CHR 0xA0"
    by (auto simp: is_space_def)
  then show ?thesis
    by cases (simp_all add: lower_char_def upper_letters_def lower_letters_def)
qed

lemma trim_Nil [simp]: "trim [] = []"
  by (simp add: trim_def)

lemma trim_noop:
  assumes "s \<noteq> []" "\<not> is_space (hd s)" "\<not> is_space (last s)"
  shows "trim s = s"
proof -
  from assms have a: "dropWhile is_space s = s"
    by (cases s) auto
  from assms have "dropWhile is_space (rev s) = rev s"
    by (cases "rev s") (auto simp: last_rev hd_rev)
  with a show ?thesis by (simp add: trim_def)
qed

lemma trim_ends:
  assumes "trim x \<noteq> []"
  shows "\<not> is_space (hd (trim x)) \<and> \<not> is_space (last (trim x))"
proof -
  define a where "a = dropWhile is_space x"
  define b where "b = dropWhile is_space (rev a)"
  have t: "trim x = rev b" by (simp add: trim_def a_def b_def)
  with assms have bne: "b \<noteq> []" by simp
  then have hb: "\<not> is_space (hd b)"
    unfolding b_def using hd_dropWhile by metis
  have "rev a = takeWhile is_space (rev a) @ b"
    by (simp add: b_def)
  then have "a = rev b @ rev (takeWhile is_space (rev a))"
    by (metis rev_append rev_rev_ident)
  with bne have "hd a = hd (rev b)" by (metis hd_append2 rev_is_Nil_conv)
  moreover from bne have "a \<noteq> []" using b_def by auto
  then have "\<not> is_space (hd a)" unfolding a_def using hd_dropWhile by metis
  ultimately have "\<not> is_space (hd (rev b))" by simp
  moreover from hb bne have "\<not> is_space (last (rev b))" by (simp add: last_rev)
  ultimately show ?thesis using t by simp
qed

lemma trim_idem: "trim (trim x) = trim x"
proof (cases "trim x = []")
  case True
  then show ?thesis by simp
next
  case False
  from trim_ends [OF False] False show ?thesis by (simp add: trim_noop)
qed

subsection \<open>The regular expression\<close>

lemma match_field_dir_intro:
  assumes "f \<noteq> []" "list_all is_field_char f" "w \<noteq> []" "list_all is_space w"
    and d: "toLowerCase d = ''asc'' \<or> toLowerCase d = ''desc''"
  shows "match_field_dir (f @ w @ d) = Some (f, d)"
proof -
  from assms(3,4) have hw: "\<not> is_field_char (hd w)"
    by (cases w) (auto simp: is_space_not_field)
  from assms(2) have "takeWhile is_field_char (f @ w @ d) = f @ takeWhile is_field_char (w @ d)"
    by (simp add: takeWhile_append2 list_all_iff)
  moreover from hw assms(3) have "takeWhile is_field_char (w @ d) = []"
    by (cases w) auto
  ultimately have tf: "takeWhile is_field_char (f @ w @ d) = f" by simp
  from assms(2) have "dropWhile is_field_char (f @ w @ d) = dropWhile is_field_char (w @ d)"
    by (simp add: dropWhile_append2 list_all_iff)
  moreover from hw assms(3) have "dropWhile is_field_char (w @ d) = w @ d"
    by (cases w) auto
  ultimately have df: "dropWhile is_field_char (f @ w @ d) = w @ d" by simp
  from d have dne: "d \<noteq> []" by (auto simp: toLowerCase_def)
  from d have "lower_char (hd d) = CHR ''a'' \<or> lower_char (hd d) = CHR ''d''"
    by (cases d) (auto simp: toLowerCase_def)
  then have hd_d: "\<not> is_space (hd d)"
    using lower_char_space [of "hd d"] by (auto simp: is_space_def)
  from assms(4) have "takeWhile is_space (w @ d) = w @ takeWhile is_space d"
    by (simp add: takeWhile_append2 list_all_iff)
  moreover from hd_d dne have "takeWhile is_space d = []" by (cases d) auto
  ultimately have tw: "takeWhile is_space (w @ d) = w" by simp
  from assms(4) have "dropWhile is_space (w @ d) = dropWhile is_space d"
    by (simp add: dropWhile_append2 list_all_iff)
  moreover from hd_d dne have "dropWhile is_space d = d" by (cases d) auto
  ultimately have dw: "dropWhile is_space (w @ d) = d" by simp
  show ?thesis
    using tf df tw dw assms(1,3) d by (simp add: match_field_dir_def)
qed

lemma match_field_dir_elim:
  assumes "match_field_dir s = Some (f, d)"
  shows "\<exists>w. s = f @ w @ d \<and> f \<noteq> [] \<and> list_all is_field_char f \<and> w \<noteq> [] \<and> list_all is_space w
            \<and> (toLowerCase d = ''asc'' \<or> toLowerCase d = ''desc'')"
proof -
  define rest where "rest = dropWhile is_field_char s"
  from assms have f: "f = takeWhile is_field_char s" and d: "d = dropWhile is_space rest"
    and fne: "f \<noteq> []" and wne: "takeWhile is_space rest \<noteq> []"
    and dir: "toLowerCase d = ''asc'' \<or> toLowerCase d = ''desc''"
    by (auto simp: match_field_dir_def Let_def rest_def split: if_splits)
  have "s = f @ rest" by (simp add: f rest_def)
  moreover have "rest = takeWhile is_space rest @ d" by (simp add: d)
  ultimately have "s = f @ takeWhile is_space rest @ d" by simp
  moreover have "list_all is_field_char f"
    by (simp add: f list_all_iff) (meson set_takeWhileD)
  moreover have "list_all is_space (takeWhile is_space rest)"
    by (simp add: list_all_iff) (meson set_takeWhileD)
  ultimately show ?thesis using fne wne dir by blast
qed


subsection \<open>The conversion on strings\<close>

lemma normalizeOrderBy_JStr:
  "normalizeOrderBy (JStr x) =
     Inr (let s = trim x in
          if s = [] then []
          else if startsWith s ''+'' \<or> startsWith s ''-'' then s
          else (case match_field_dir s of
                  Some (field, dir) \<Rightarrow>
                    (if toLowerCase dir = ''desc'' then ''-'' @ field else ''+'' @ field)
                | None \<Rightarrow> ''+'' @ s))"
  by (simp add: normalizeOrderBy_def js_or_def Let_def split: option.splits)

lemma prefixed_iff:
  "(startsWith s ''+'' \<or> startsWith s ''-'') \<longleftrightarrow> (s \<noteq> [] \<and> (hd s = CHR ''+'' \<or> hd s = CHR ''-''))"
  by (cases s) (auto simp: startsWith_def)

lemma normalizeOrderBy_fixed:
  assumes "y \<noteq> []" "hd y = CHR ''+'' \<or> hd y = CHR ''-''" "\<not> is_space (last y)"
  shows "normalizeOrderBy (JStr y) = Inr y"
proof -
  from assms(2) have "\<not> is_space (hd y)" by (auto simp: is_space_def)
  with assms have "trim y = y" by (simp add: trim_noop)
  with assms show ?thesis
    by (simp add: normalizeOrderBy_JStr prefixed_iff)
qed

lemma field_not_sign: "is_field_char c \<Longrightarrow> c \<noteq> CHR ''+'' \<and> c \<noteq> CHR ''-''"
  by (auto simp: is_field_char_def)

lemma normalizeOrderBy_idem:
  "\<exists>y. normalizeOrderBy (JStr x) = Inr y \<and> normalizeOrderBy (JStr y) = Inr y"
proof -
  define s where "s = trim x"
  consider (empty) "s = []"
    | (prefixed) "s \<noteq> []" "startsWith s ''+'' \<or> startsWith s ''-''"
    | (form) f d where "s \<noteq> []" "\<not> (startsWith s ''+'' \<or> startsWith s ''-'')"
        "match_field_dir s = Some (f, d)"
    | (other) "s \<noteq> []" "\<not> (startsWith s ''+'' \<or> startsWith s ''-'')" "match_field_dir s = None"
    by (cases "match_field_dir s") auto
  then show ?thesis
  proof cases
    case empty
    then have "normalizeOrderBy (JStr x) = Inr []"
      by (simp add: normalizeOrderBy_JStr s_def)
    moreover have "normalizeOrderBy (JStr []) = Inr []"
      by (simp add: normalizeOrderBy_JStr)
    ultimately show ?thesis by blast
  next
    case prefixed
    then have y: "normalizeOrderBy (JStr x) = Inr s"
      by (simp add: normalizeOrderBy_JStr s_def)
    from prefixed(1) have "\<not> is_space (last s)"
      using trim_ends [of x] by (simp add: s_def)
    with prefixed have "normalizeOrderBy (JStr s) = Inr s"
      by (intro normalizeOrderBy_fixed) (auto simp: prefixed_iff)
    with y show ?thesis by blast
  next
    case form
    let ?y = "(if toLowerCase d = ''desc'' then ''-'' else ''+'') @ f"
    from form have y: "normalizeOrderBy (JStr x) = Inr ?y"
      by (simp add: normalizeOrderBy_JStr s_def)
    from match_field_dir_elim [OF form(3)] have fne: "f \<noteq> []" and ff: "list_all is_field_char f"
      by auto
    from fne ff have "is_field_char (last f)"
      by (simp add: list_all_iff)
    then have "\<not> is_space (last f)" using is_space_not_field by blast
    with fne have "normalizeOrderBy (JStr ?y) = Inr ?y"
      by (intro normalizeOrderBy_fixed) auto
    with y show ?thesis by blast
  next
    case other
    then have y: "normalizeOrderBy (JStr x) = Inr (''+'' @ s)"
      by (simp add: normalizeOrderBy_JStr s_def)
    from other(1) have "\<not> is_space (last s)"
      using trim_ends [of x] by (simp add: s_def)
    with other(1) have "normalizeOrderBy (JStr (''+'' @ s)) = Inr (''+'' @ s)"
      by (intro normalizeOrderBy_fixed) auto
    with y show ?thesis by blast
  qed
qed

lemma normalizeOrderBy_form:
  assumes s: "trim x = f @ w @ d"
    and f: "f \<noteq> []" "list_all is_field_char f" and w: "w \<noteq> []" "list_all is_space w"
    and d: "toLowerCase d = ''asc'' \<or> toLowerCase d = ''desc''"
  shows "normalizeOrderBy (JStr x) = Inr ((if toLowerCase d = ''desc'' then ''-'' else ''+'') @ f)"
proof -
  from f have "is_field_char (hd f)" by (cases f) auto
  with f(1) s have "\<not> (startsWith (trim x) ''+'' \<or> startsWith (trim x) ''-'')"
    using field_not_sign by (auto simp: prefixed_iff)
  moreover from match_field_dir_intro [OF f w d] s
  have "match_field_dir (trim x) = Some (f, d)" by simp
  moreover from s f(1) have "trim x \<noteq> []" by simp
  ultimately show ?thesis
    by (simp add: normalizeOrderBy_JStr)
qed

text \<open>The conversion, case by case.\<close>

lemma normalizeOrderBy_cases:
  "\<exists>y. normalizeOrderBy (JStr x) = Inr y
      \<and> normalizeOrderBy (JStr y) = Inr y
      \<and> (trim x = [] \<longrightarrow> y = [])
      \<and> (startsWith (trim x) ''+'' \<or> startsWith (trim x) ''-'' \<longrightarrow> y = trim x)
      \<and> (\<forall>f w d. trim x = f @ w @ d \<and> f \<noteq> [] \<and> list_all is_field_char f
                  \<and> w \<noteq> [] \<and> list_all is_space w \<and> toLowerCase d = ''desc''
                \<longrightarrow> y = ''-'' @ f)
      \<and> (\<forall>f w d. trim x = f @ w @ d \<and> f \<noteq> [] \<and> list_all is_field_char f
                  \<and> w \<noteq> [] \<and> list_all is_space w \<and> toLowerCase d = ''asc''
                \<longrightarrow> y = ''+'' @ f)
      \<and> (trim x \<noteq> [] \<and> \<not> startsWith (trim x) ''+'' \<and> \<not> startsWith (trim x) ''-''
           \<and> (\<forall>f w d. trim x = f @ w @ d \<and> f \<noteq> [] \<and> list_all is_field_char f
                  \<and> w \<noteq> [] \<and> list_all is_space w
                \<longrightarrow> toLowerCase d \<noteq> ''asc'' \<and> toLowerCase d \<noteq> ''desc'')
         \<longrightarrow> y = ''+'' @ trim x)"
proof -
  from normalizeOrderBy_idem [of x] obtain y
    where y: "normalizeOrderBy (JStr x) = Inr y" and idem: "normalizeOrderBy (JStr y) = Inr y"
    by blast
  have empty: "y = []" if "trim x = []"
    using that y by (simp add: normalizeOrderBy_JStr)
  have pre: "y = trim x" if "startsWith (trim x) ''+'' \<or> startsWith (trim x) ''-''"
    using that y by (auto simp: normalizeOrderBy_JStr prefixed_iff)
  have desc: "y = ''-'' @ f"
    if "trim x = f @ w @ d \<and> f \<noteq> [] \<and> list_all is_field_char f
          \<and> w \<noteq> [] \<and> list_all is_space w \<and> toLowerCase d = ''desc''" for f w d
    using normalizeOrderBy_form [of x f w d] that y by simp
  have asc: "y = ''+'' @ f"
    if "trim x = f @ w @ d \<and> f \<noteq> [] \<and> list_all is_field_char f
          \<and> w \<noteq> [] \<and> list_all is_space w \<and> toLowerCase d = ''asc''" for f w d
    using normalizeOrderBy_form [of x f w d] that y by simp
  have other: "y = ''+'' @ trim x"
    if h: "trim x \<noteq> [] \<and> \<not> startsWith (trim x) ''+'' \<and> \<not> startsWith (trim x) ''-''
           \<and> (\<forall>f w d. trim x = f @ w @ d \<and> f \<noteq> [] \<and> list_all is_field_char f
                  \<and> w \<noteq> [] \<and> list_all is_space w
                \<longrightarrow> toLowerCase d \<noteq> ''asc'' \<and> toLowerCase d \<noteq> ''desc'')"
  proof -
    from h have ne: "trim x \<noteq> []" by (elim conjE)
    from h have np1: "\<not> startsWith (trim x) ''+''" by (elim conjE)
    from h have np2: "\<not> startsWith (trim x) ''-''" by (elim conjE)
    note np = np1 np2
    from h have nf: "\<forall>f w d. trim x = f @ w @ d \<and> f \<noteq> [] \<and> list_all is_field_char f
                  \<and> w \<noteq> [] \<and> list_all is_space w
                \<longrightarrow> toLowerCase d \<noteq> ''asc'' \<and> toLowerCase d \<noteq> ''desc''"
      by (elim conjE)
    have "match_field_dir (trim x) = None"
    proof (cases "match_field_dir (trim x)")
      case None
      then show ?thesis .
    next
      case (Some fd)
      obtain f d where fd: "fd = (f, d)" by (cases fd)
      from match_field_dir_elim [of "trim x" f d] Some fd obtain w
        where w: "trim x = f @ w @ d \<and> f \<noteq> [] \<and> list_all is_field_char f
                   \<and> w \<noteq> [] \<and> list_all is_space w"
          and dir: "toLowerCase d = ''asc'' \<or> toLowerCase d = ''desc''"
        by auto
      from nf [rule_format, OF w] dir show ?thesis by auto
    qed
    with ne np y show ?thesis
      by (simp add: normalizeOrderBy_JStr)
  qed
  show ?thesis
  proof (rule exI [of _ y], intro conjI allI impI)
    show "normalizeOrderBy (JStr x) = Inr y" by (rule y)
    show "normalizeOrderBy (JStr y) = Inr y" by (rule idem)
    show "y = []" if "trim x = []" using that by (rule empty)
    show "y = trim x" if "startsWith (trim x) ''+'' \<or> startsWith (trim x) ''-''"
      using that by (rule pre)
    show "y = ''-'' @ f"
      if "trim x = f @ w @ d \<and> f \<noteq> [] \<and> list_all is_field_char f
          \<and> w \<noteq> [] \<and> list_all is_space w \<and> toLowerCase d = ''desc''" for f w d
      using that by (rule desc)
    show "y = ''+'' @ f"
      if "trim x = f @ w @ d \<and> f \<noteq> [] \<and> list_all is_field_char f
          \<and> w \<noteq> [] \<and> list_all is_space w \<and> toLowerCase d = ''asc''" for f w d
      using that by (rule asc)
    show "y = ''+'' @ trim x"
      if "trim x \<noteq> [] \<and> \<not> startsWith (trim x) ''+'' \<and> \<not> startsWith (trim x) ''-''
           \<and> (\<forall>f w d. trim x = f @ w @ d \<and> f \<noteq> [] \<and> list_all is_field_char f
                  \<and> w \<noteq> [] \<and> list_all is_space w
                \<longrightarrow> toLowerCase d \<noteq> ''asc'' \<and> toLowerCase d \<noteq> ''desc'')"
      using that by (rule other)
  qed
qed

text \<open>The three examples of the specification.\<close>

lemma normalizeOrderBy_examples:
  "normalizeOrderBy (JStr ''changedate desc'') = Inr ''-changedate''"
  "normalizeOrderBy (JStr ''-changedate'') = Inr ''-changedate''"
  "normalizeOrderBy (JStr ''changedate'') = Inr ''+changedate''"
  by (simp_all add: normalizeOrderBy_JStr trim_def is_space_def startsWith_def
        match_field_dir_def is_field_char_def toLowerCase_def lower_char_def
        upper_letters_def lower_letters_def)

section \<open>Properties of tenant resolution\<close>

subsection \<open>The registry lookup\<close>

lemma tenant_entry_truthy: "tenant_entry x \<Longrightarrow> truthy x \<and> \<not> nullish x"
  by (cases x) auto

lemma find_tenant_entries:
  "list_all tenant_entry ts \<Longrightarrow>
   find_tenant ts wanted = Inr (case List.find (has_id wanted) ts of Some x \<Rightarrow> x | None \<Rightarrow> JUndefined)"
proof (induction ts)
  case Nil
  then show ?case by simp
next
  case (Cons x ts)
  from Cons.prems have x: "tenant_entry x" and ts: "list_all tenant_entry ts" by simp_all
  from x obtain s where s: "js_String (rd x ''id'') = Inr s"
    by (cases x) (auto split: sum.splits)
  from x have g: "getp x ''id'' = Inr (rd x ''id'')"
    using tenant_entry_truthy [OF x] by (simp add: getp_def)
  show ?case
    using Cons.IH [OF ts] s g by (simp add: has_id_def)
qed

lemma find_Some_entry:
  "list_all tenant_entry ts \<Longrightarrow> List.find P ts = Some x \<Longrightarrow> truthy x"
  by (induction ts) (auto simp: tenant_entry_truthy split: if_splits)

lemma pick_tenant_entries:
  assumes "list_all tenant_entry ts"
  shows "pick_tenant ts wanted = Inr (chosen_tenant ts wanted)"
proof (cases "List.find (has_id wanted) ts")
  case None
  show ?thesis
  proof (cases "List.find (has_id ''default'') ts")
    case n2: None
    with None show ?thesis
      by (simp add: pick_tenant_def chosen_tenant_def find_tenant_entries [OF assms] js_or_def)
  next
    case (Some x)
    from find_Some_entry [OF assms Some] Some None show ?thesis
      by (simp add: pick_tenant_def chosen_tenant_def find_tenant_entries [OF assms] js_or_def)
  qed
next
  case (Some x)
  from find_Some_entry [OF assms Some] Some show ?thesis
    by (simp add: pick_tenant_def chosen_tenant_def find_tenant_entries [OF assms])
qed

subsection \<open>Base URL, credential and site\<close>

lemma first_truthy_or:
  "js_or a (js_or b (js_or c (JStr []))) = first_truthy [a, b, c]"
  "js_or a (js_or b (JStr [])) = first_truthy [a, b]"
  "js_or a (JStr []) = first_truthy [a]"
  by (simp_all add: js_or_def)

lemma printable_env_val [simp]: "printable (env_val x)"
  by (cases x) (simp_all add: printable_def env_val_def)

lemma printable_first_truthy: "list_all printable vs \<Longrightarrow> printable (first_truthy vs)"
  by (induction vs) (simp_all add: printable_def)

lemma normMaximoBase_or: "normMaximoBase (js_or a (JStr [])) = normMaximoBase a"
  by (simp add: normMaximoBase_def js_or_def)

lemma normMaximoBase_printable: "printable v \<Longrightarrow> \<exists>b. normMaximoBase v = Inr b"
  by (cases "js_String (js_or v (JStr []))")
     (auto simp: normMaximoBase_def printable_def js_or_def Let_def split: if_splits)

lemma normMaximoBase_ends:
  "normMaximoBase u = Inr b \<Longrightarrow> b \<noteq> [] \<Longrightarrow> endsWith b ''/maximo''"
  by (cases "js_String (js_or u (JStr []))")
     (auto simp: normMaximoBase_def Let_def endsWith_def split: if_splits)

lemma maximoApiBase_of_norm:
  "normMaximoBase u = Inr b \<Longrightarrow> maximoApiBase u = Inr (if b = [] then [] else b @ ''/api'')"
  using normMaximoBase_ends [of u b] by (simp add: maximoApiBase_def)

lemma resolveTenant_intro:
  assumes "\<not> nullish settings"
    and "tenant_id settings tenantId = Inr wanted"
    and "pick_tenant (tenants_of settings) wanted = Inr t"
    and "js_String (first_truthy [rd t ''site'', optp (rd settings ''maximo'') ''defaultSite'',
                                  env_val (DEFAULT_SITEID ev)]) = Inr site"
    and "normMaximoBase (first_truthy [rd t ''maximoBaseUrl'',
                                       optp (rd settings ''maximo'') ''baseUrl'',
                                       env_val (MAXIMO_URL ev)]) = Inr base"
  shows "resolveTenant up ev settings tenantId =
     Inr \<lparr>rt_id = wanted, rt_baseUrl = base,
          rt_apiBase = (if base = [] then [] else base @ ''/api''),
          rt_apiKey = first_truthy [env_val (MAXIMO_APIKEY ev),
                                    optp (rd settings ''maximo'') ''apiKey''],
          rt_site = toUpperCase up site,
          rt_org = first_truthy [rd t ''org'']\<rparr>"
  using assms(1,2,3) assms(4,5) [unfolded first_truthy_or(1) [symmetric]]
    maximoApiBase_of_norm [OF assms(5) [unfolded first_truthy_or(1) [symmetric]]]
  unfolding first_truthy_or(2) [symmetric] first_truthy_or(3) [symmetric]
  by (simp add: resolveTenant_def getp_def Let_def)


subsection \<open>Order of the lookup and fallbacks\<close>




subsection \<open>Precedence of the sources\<close>

lemma resolveTenant_Inr_full:
  assumes "resolveTenant up ev settings tenantId = Inr r"
  shows "\<exists>wanted t site. tenant_id settings tenantId = Inr wanted
      \<and> pick_tenant (tenants_of settings) wanted = Inr t
      \<and> js_String (js_or (rd t ''site'')
                         (js_or (optp (rd settings ''maximo'') ''defaultSite'')
                            (js_or (env_val (DEFAULT_SITEID ev)) (JStr [])))) = Inr site
      \<and> normMaximoBase (js_or (rd t ''maximoBaseUrl'')
                           (js_or (optp (rd settings ''maximo'') ''baseUrl'')
                              (js_or (env_val (MAXIMO_URL ev)) (JStr [])))) = Inr (rt_baseUrl r)
      \<and> maximoApiBase (js_or (rd t ''maximoBaseUrl'')
                           (js_or (optp (rd settings ''maximo'') ''baseUrl'')
                              (js_or (env_val (MAXIMO_URL ev)) (JStr [])))) = Inr (rt_apiBase r)
      \<and> rt_id r = wanted
      \<and> rt_site r = toUpperCase up site
      \<and> rt_org r = js_or (rd t ''org'') (JStr [])"
  using assms
  by (auto simp: resolveTenant_def Let_def split: sum.splits)

lemma resolveTenant_Inr_key:
  assumes "resolveTenant up ev settings tenantId = Inr r"
  shows "rt_apiKey r = js_or (env_val (MAXIMO_APIKEY ev))
                         (js_or (optp (rd settings ''maximo'') ''apiKey'') (JStr []))"
  using assms
  by (auto simp: resolveTenant_def Let_def split: sum.splits)

lemma resolveTenant_returns:
  assumes obj: "\<not> nullish settings"
    and entries: "list_all tenant_entry (tenants_of settings)"
    and wanted: "tenant_id settings tenantId = Inr wanted"
    and t: "t = chosen_tenant (tenants_of settings) wanted"
    and sites: "printable (rd t ''site'')" "printable (optp (rd settings ''maximo'') ''defaultSite'')"
    and bases: "printable (rd t ''maximoBaseUrl'')"
      "printable (optp (rd settings ''maximo'') ''baseUrl'')"
  shows "\<exists>r. resolveTenant up ev settings tenantId = Inr r \<and> rt_id r = wanted"
proof -
  let ?site = "first_truthy [rd t ''site'', optp (rd settings ''maximo'') ''defaultSite'',
                             env_val (DEFAULT_SITEID ev)]"
  let ?base = "first_truthy [rd t ''maximoBaseUrl'', optp (rd settings ''maximo'') ''baseUrl'',
                             env_val (MAXIMO_URL ev)]"
  from pick_tenant_entries [OF entries, of wanted] t
  have pick: "pick_tenant (tenants_of settings) wanted = Inr t"
    by simp
  from sites have "printable ?site"
    by (intro printable_first_truthy) simp
  then obtain site where site: "js_String ?site = Inr site"
    by (auto simp: printable_iff)
  from bases have "printable ?base"
    by (intro printable_first_truthy) simp
  from normMaximoBase_printable [OF this] obtain base where base: "normMaximoBase ?base = Inr base"
    by blast
  let ?r = "\<lparr>rt_id = wanted, rt_baseUrl = base,
            rt_apiBase = (if base = [] then [] else base @ ''/api''),
            rt_apiKey = first_truthy [env_val (MAXIMO_APIKEY ev),
                                      optp (rd settings ''maximo'') ''apiKey''],
            rt_site = toUpperCase up site,
            rt_org = first_truthy [rd t ''org'']\<rparr>"
  have "resolveTenant up ev settings tenantId = Inr ?r"
    by (rule resolveTenant_intro [OF obj wanted pick site base])
  then have "resolveTenant up ev settings tenantId = Inr ?r \<and> rt_id ?r = wanted"
    by simp
  then show ?thesis by (rule exI)
qed

text \<open>
  C10. Whenever tenant resolution returns, the base URL of the resolved tenant is the
  normalized \<^verbatim>\<open>maximoBaseUrl\<close> of the tenant record \<open>t\<close> that the lookup picked when
  that is not empty, whatever the settings and the environment hold; else the normalized
  \<^verbatim>\<open>settings.maximo.baseUrl\<close> when that is not empty, whatever the environment holds;
  and the environment variable \<^verbatim>\<open>MAXIMO_URL\<close> only as the last fallback. For the
  credential the order is the other way round: the environment variable
  \<^verbatim>\<open>MAXIMO_APIKEY\<close>, when set and not empty, wins over \<^verbatim>\<open>settings.maximo.apiKey\<close>.
  And tenant resolution does return, for the id it was asked for, whenever the settings
  are an object, the registry entries are objects with printable ids, the id to resolve
  is printable and the tenant record's and the settings' base URL and site are
  printable; the tenant record is then the one \<open>chosen_tenant\<close> describes.
\<close>

theorem resolveTenant_precedence:
  "(\<not> nullish settings \<and> list_all tenant_entry (tenants_of settings)
      \<and> tenant_id settings tenantId = Inr wanted
      \<and> list_all printable
          [rd (chosen_tenant (tenants_of settings) wanted) ''site'',
           optp (rd settings ''maximo'') ''defaultSite'',
           rd (chosen_tenant (tenants_of settings) wanted) ''maximoBaseUrl'',
           optp (rd settings ''maximo'') ''baseUrl'']
     \<longrightarrow> (\<exists>r'. resolveTenant up ev settings tenantId = Inr r' \<and> rt_id r' = wanted))
   \<and> (resolveTenant up ev settings tenantId = Inr r
     \<longrightarrow> (\<exists>t. pick_tenant (tenants_of settings) (rt_id r) = Inr t
            \<and> (list_all tenant_entry (tenants_of settings)
                 \<longrightarrow> t = chosen_tenant (tenants_of settings) (rt_id r))
            \<and> (truthy (rd t ''maximoBaseUrl'')
                 \<longrightarrow> normMaximoBase (rd t ''maximoBaseUrl'') = Inr (rt_baseUrl r))
            \<and> (\<not> truthy (rd t ''maximoBaseUrl'')
                  \<and> truthy (optp (rd settings ''maximo'') ''baseUrl'')
                 \<longrightarrow> normMaximoBase (optp (rd settings ''maximo'') ''baseUrl'')
                       = Inr (rt_baseUrl r))
            \<and> (\<not> truthy (rd t ''maximoBaseUrl'')
                  \<and> \<not> truthy (optp (rd settings ''maximo'') ''baseUrl'')
                 \<longrightarrow> normMaximoBase (env_val (MAXIMO_URL ev)) = Inr (rt_baseUrl r))
            \<and> (truthy (env_val (MAXIMO_APIKEY ev))
                 \<longrightarrow> rt_apiKey r = env_val (MAXIMO_APIKEY ev))
            \<and> (\<not> truthy (env_val (MAXIMO_APIKEY ev))
                  \<and> truthy (optp (rd settings ''maximo'') ''apiKey'')
                 \<longrightarrow> rt_apiKey r = optp (rd settings ''maximo'') ''apiKey'')
            \<and> (\<not> truthy (env_val (MAXIMO_APIKEY ev))
                  \<and> \<not> truthy (optp (rd settings ''maximo'') ''apiKey'')
                 \<longrightarrow> rt_apiKey r = JStr [])))"
proof (rule conjI; rule impI)
  assume h: "\<not> nullish settings \<and> list_all tenant_entry (tenants_of settings)
      \<and> tenant_id settings tenantId = Inr wanted
      \<and> list_all printable
          [rd (chosen_tenant (tenants_of settings) wanted) ''site'',
           optp (rd settings ''maximo'') ''defaultSite'',
           rd (chosen_tenant (tenants_of settings) wanted) ''maximoBaseUrl'',
           optp (rd settings ''maximo'') ''baseUrl'']"
  from h have obj: "\<not> nullish settings"
    and entries: "list_all tenant_entry (tenants_of settings)"
    and wanted: "tenant_id settings tenantId = Inr wanted"
    and p: "printable (rd (chosen_tenant (tenants_of settings) wanted) ''site'')"
      "printable (optp (rd settings ''maximo'') ''defaultSite'')"
      "printable (rd (chosen_tenant (tenants_of settings) wanted) ''maximoBaseUrl'')"
      "printable (optp (rd settings ''maximo'') ''baseUrl'')"
    by simp_all
  show "\<exists>r'. resolveTenant up ev settings tenantId = Inr r' \<and> rt_id r' = wanted"
    by (rule resolveTenant_returns [OF obj entries wanted refl p])
next
  assume res: "resolveTenant up ev settings tenantId = Inr r"
  from resolveTenant_Inr_full [OF res] obtain t
    where pick: "pick_tenant (tenants_of settings) (rt_id r) = Inr t"
      and base: "normMaximoBase (js_or (rd t ''maximoBaseUrl'')
                           (js_or (optp (rd settings ''maximo'') ''baseUrl'')
                              (js_or (env_val (MAXIMO_URL ev)) (JStr [])))) = Inr (rt_baseUrl r)"
    by blast
  note key = resolveTenant_Inr_key [OF res]
  have chosen: "list_all tenant_entry (tenants_of settings)
                 \<longrightarrow> t = chosen_tenant (tenants_of settings) (rt_id r)"
  proof
    assume "list_all tenant_entry (tenants_of settings)"
    from pick_tenant_entries [OF this, of "rt_id r"] pick
    show "t = chosen_tenant (tenants_of settings) (rt_id r)" by simp
  qed
  have b1: "truthy (rd t ''maximoBaseUrl'')
                 \<longrightarrow> normMaximoBase (rd t ''maximoBaseUrl'') = Inr (rt_baseUrl r)"
    using base by (auto simp: js_or_def)
  have b2: "\<not> truthy (rd t ''maximoBaseUrl'')
                  \<and> truthy (optp (rd settings ''maximo'') ''baseUrl'')
                 \<longrightarrow> normMaximoBase (optp (rd settings ''maximo'') ''baseUrl'')
                       = Inr (rt_baseUrl r)"
    using base by (auto simp: js_or_def)
  have b3: "\<not> truthy (rd t ''maximoBaseUrl'')
                  \<and> \<not> truthy (optp (rd settings ''maximo'') ''baseUrl'')
                 \<longrightarrow> normMaximoBase (env_val (MAXIMO_URL ev)) = Inr (rt_baseUrl r)"
  proof
    assume "\<not> truthy (rd t ''maximoBaseUrl'')
                  \<and> \<not> truthy (optp (rd settings ''maximo'') ''baseUrl'')"
    with base have "normMaximoBase (js_or (env_val (MAXIMO_URL ev)) (JStr [])) = Inr (rt_baseUrl r)"
      by (simp add: js_or_def)
    then show "normMaximoBase (env_val (MAXIMO_URL ev)) = Inr (rt_baseUrl r)"
      by (simp only: normMaximoBase_or)
  qed
  have k1: "truthy (env_val (MAXIMO_APIKEY ev))
                 \<longrightarrow> rt_apiKey r = env_val (MAXIMO_APIKEY ev)"
    using key by (auto simp: js_or_def)
  have k2: "\<not> truthy (env_val (MAXIMO_APIKEY ev))
                  \<and> truthy (optp (rd settings ''maximo'') ''apiKey'')
                 \<longrightarrow> rt_apiKey r = optp (rd settings ''maximo'') ''apiKey''"
    using key by (auto simp: js_or_def)
  have k3: "\<not> truthy (env_val (MAXIMO_APIKEY ev))
                  \<and> \<not> truthy (optp (rd settings ''maximo'') ''apiKey'')
                 \<longrightarrow> rt_apiKey r = JStr []"
    using key by (auto simp: js_or_def)
  show "\<exists>t. pick_tenant (tenants_of settings) (rt_id r) = Inr t
            \<and> (list_all tenant_entry (tenants_of settings)
                 \<longrightarrow> t = chosen_tenant (tenants_of settings) (rt_id r))
            \<and> (truthy (rd t ''maximoBaseUrl'')
                 \<longrightarrow> normMaximoBase (rd t ''maximoBaseUrl'') = Inr (rt_baseUrl r))
            \<and> (\<not> truthy (rd t ''maximoBaseUrl'')
                  \<and> truthy (optp (rd settings ''maximo'') ''baseUrl'')
                 \<longrightarrow> normMaximoBase (optp (rd settings ''maximo'') ''baseUrl'')
                       = Inr (rt_baseUrl r))
            \<and> (\<not> truthy (rd t ''maximoBaseUrl'')
                  \<and> \<not> truthy (optp (rd settings ''maximo'') ''baseUrl'')
                 \<longrightarrow> normMaximoBase (env_val (MAXIMO_URL ev)) = Inr (rt_baseUrl r))
            \<and> (truthy (env_val (MAXIMO_APIKEY ev))
                 \<longrightarrow> rt_apiKey r = env_val (MAXIMO_APIKEY ev))
            \<and> (\<not> truthy (env_val (MAXIMO_APIKEY ev))
                  \<and> truthy (optp (rd settings ''maximo'') ''apiKey'')
                 \<longrightarrow> rt_apiKey r = optp (rd settings ''maximo'') ''apiKey'')
            \<and> (\<not> truthy (env_val (MAXIMO_APIKEY ev))
                  \<and> \<not> truthy (optp (rd settings ''maximo'') ''apiKey'')
                 \<longrightarrow> rt_apiKey r = JStr [])"
    by (rule exI [of _ t], intro conjI) (fact pick chosen b1 b2 b3 k1 k2 k3)+
qed

theorem resolveTenant_precedence_witness:
  "(case resolveTenant id acme_env acme_settings (JStr ''acme'') of
      Inr r \<Rightarrow> rt_baseUrl r = ''https://acme.example.com/maximo'' \<and> rt_apiKey r = JStr ''env-key''
    | Inl e \<Rightarrow> False)
   \<and> (case resolveTenant id acme_env acme_settings (JStr ''other'') of
        Inr r \<Rightarrow> rt_baseUrl r = ''https://mas.example.com/maximo'' \<and> rt_apiKey r = JStr ''env-key''
      | Inl e \<Rightarrow> False)
   \<and> (case resolveTenant id (acme_env\<lparr>MAXIMO_APIKEY := None\<rparr>) registry_only (JStr ''acme'') of
        Inr r \<Rightarrow> rt_baseUrl r = ''https://env.example.com/maximo'' \<and> rt_apiKey r = JStr []
      | Inl e \<Rightarrow> False)
   \<and> (case resolveTenant id (acme_env\<lparr>MAXIMO_APIKEY := Some []\<rparr>) acme_settings (JStr ''acme'') of
        Inr r \<Rightarrow> rt_apiKey r = JStr ''file-key''
      | Inl e \<Rightarrow> False)"
proof -
  have entries: "list_all tenant_entry (tenants_of acme_settings)"
    "list_all tenant_entry (tenants_of registry_only)"
    by code_simp+
  have v1: "truthy (rd (chosen_tenant (tenants_of acme_settings) ''acme'') ''maximoBaseUrl'')"
    "normMaximoBase (rd (chosen_tenant (tenants_of acme_settings) ''acme'') ''maximoBaseUrl'')
       = Inr ''https://acme.example.com/maximo''"
    "truthy (env_val (MAXIMO_APIKEY acme_env))"
    "env_val (MAXIMO_APIKEY acme_env) = JStr ''env-key''"
    by code_simp+
  have v2: "\<not> truthy (rd (chosen_tenant (tenants_of acme_settings) ''other'') ''maximoBaseUrl'')
       \<and> truthy (optp (rd acme_settings ''maximo'') ''baseUrl'')"
    "normMaximoBase (optp (rd acme_settings ''maximo'') ''baseUrl'')
       = Inr ''https://mas.example.com/maximo''"
    by code_simp+
  have v3: "\<not> truthy (rd (chosen_tenant (tenants_of registry_only) ''acme'') ''maximoBaseUrl'')
       \<and> \<not> truthy (optp (rd registry_only ''maximo'') ''baseUrl'')"
    "normMaximoBase (env_val (MAXIMO_URL (acme_env\<lparr>MAXIMO_APIKEY := None\<rparr>)))
       = Inr ''https://env.example.com/maximo''"
    "\<not> truthy (env_val (MAXIMO_APIKEY (acme_env\<lparr>MAXIMO_APIKEY := None\<rparr>)))
       \<and> \<not> truthy (optp (rd registry_only ''maximo'') ''apiKey'')"
    by code_simp+
  have v4: "\<not> truthy (env_val (MAXIMO_APIKEY (acme_env\<lparr>MAXIMO_APIKEY := Some []\<rparr>)))
       \<and> truthy (optp (rd acme_settings ''maximo'') ''apiKey'')"
    "optp (rd acme_settings ''maximo'') ''apiKey'' = JStr ''file-key''"
    by code_simp+
  have h1: "\<not> nullish acme_settings \<and> list_all tenant_entry (tenants_of acme_settings)
      \<and> tenant_id acme_settings (JStr ''acme'') = Inr ''acme''
      \<and> list_all printable
          [rd (chosen_tenant (tenants_of acme_settings) ''acme'') ''site'',
           optp (rd acme_settings ''maximo'') ''defaultSite'',
           rd (chosen_tenant (tenants_of acme_settings) ''acme'') ''maximoBaseUrl'',
           optp (rd acme_settings ''maximo'') ''baseUrl'']"
    by (intro conjI; code_simp)
  from resolveTenant_precedence
         [where settings = acme_settings and tenantId = "JStr ''acme''" and wanted = "''acme''"
            and up = id and ev = "acme_env", THEN conjunct1, THEN mp, OF h1]
  obtain r1 where r1: "resolveTenant id (acme_env) acme_settings (JStr ''acme'') = Inr r1"
    "rt_id r1 = ''acme''"
    by blast
  from resolveTenant_precedence
         [where settings = acme_settings and tenantId = "JStr ''acme''"
            and up = id and ev = "acme_env" and r = r1, THEN conjunct2, THEN mp, OF r1(1)]
  obtain t1 where tc1: "list_all tenant_entry (tenants_of acme_settings)
                 \<longrightarrow> t1 = chosen_tenant (tenants_of acme_settings) (rt_id r1)"
    and b11: "truthy (rd t1 ''maximoBaseUrl'')
                 \<longrightarrow> normMaximoBase (rd t1 ''maximoBaseUrl'') = Inr (rt_baseUrl r1)"
    and k11: "truthy (env_val (MAXIMO_APIKEY (acme_env)))
                 \<longrightarrow> rt_apiKey r1 = env_val (MAXIMO_APIKEY (acme_env))"
    by blast
  from tc1 entries(1) r1(2) have t1: "t1 = chosen_tenant (tenants_of acme_settings) ''acme''"
    by simp
  from b11 k11 v1 have "rt_baseUrl r1 = ''https://acme.example.com/maximo'' \<and> rt_apiKey r1 = JStr ''env-key''"
    unfolding t1 by simp
  with r1(1) have w1: "case resolveTenant id (acme_env) acme_settings (JStr ''acme'') of
      Inr r \<Rightarrow> rt_baseUrl r = ''https://acme.example.com/maximo'' \<and> rt_apiKey r = JStr ''env-key''
    | Inl e \<Rightarrow> False"
    by simp
  have h2: "\<not> nullish acme_settings \<and> list_all tenant_entry (tenants_of acme_settings)
      \<and> tenant_id acme_settings (JStr ''other'') = Inr ''other''
      \<and> list_all printable
          [rd (chosen_tenant (tenants_of acme_settings) ''other'') ''site'',
           optp (rd acme_settings ''maximo'') ''defaultSite'',
           rd (chosen_tenant (tenants_of acme_settings) ''other'') ''maximoBaseUrl'',
           optp (rd acme_settings ''maximo'') ''baseUrl'']"
    by (intro conjI; code_simp)
  from resolveTenant_precedence
         [where settings = acme_settings and tenantId = "JStr ''other''" and wanted = "''other''"
            and up = id and ev = "acme_env", THEN conjunct1, THEN mp, OF h2]
  obtain r2 where r2: "resolveTenant id (acme_env) acme_settings (JStr ''other'') = Inr r2"
    "rt_id r2 = ''other''"
    by blast
  from resolveTenant_precedence
         [where settings = acme_settings and tenantId = "JStr ''other''"
            and up = id and ev = "acme_env" and r = r2, THEN conjunct2, THEN mp, OF r2(1)]
  obtain t2 where tc2: "list_all tenant_entry (tenants_of acme_settings)
                 \<longrightarrow> t2 = chosen_tenant (tenants_of acme_settings) (rt_id r2)"
    and b22: "\<not> truthy (rd t2 ''maximoBaseUrl'')
                  \<and> truthy (optp (rd acme_settings ''maximo'') ''baseUrl'')
                 \<longrightarrow> normMaximoBase (optp (rd acme_settings ''maximo'') ''baseUrl'')
                       = Inr (rt_baseUrl r2)"
    and k12: "truthy (env_val (MAXIMO_APIKEY (acme_env)))
                 \<longrightarrow> rt_apiKey r2 = env_val (MAXIMO_APIKEY (acme_env))"
    by blast
  from tc2 entries(1) r2(2) have t2: "t2 = chosen_tenant (tenants_of acme_settings) ''other''"
    by simp
  from b22 k12 v2 v1(3,4) have "rt_baseUrl r2 = ''https://mas.example.com/maximo'' \<and> rt_apiKey r2 = JStr ''env-key''"
    unfolding t2 by simp
  with r2(1) have w2: "case resolveTenant id (acme_env) acme_settings (JStr ''other'') of
      Inr r \<Rightarrow> rt_baseUrl r = ''https://mas.example.com/maximo'' \<and> rt_apiKey r = JStr ''env-key''
    | Inl e \<Rightarrow> False"
    by simp
  have h3: "\<not> nullish registry_only \<and> list_all tenant_entry (tenants_of registry_only)
      \<and> tenant_id registry_only (JStr ''acme'') = Inr ''acme''
      \<and> list_all printable
          [rd (chosen_tenant (tenants_of registry_only) ''acme'') ''site'',
           optp (rd registry_only ''maximo'') ''defaultSite'',
           rd (chosen_tenant (tenants_of registry_only) ''acme'') ''maximoBaseUrl'',
           optp (rd registry_only ''maximo'') ''baseUrl'']"
    by (intro conjI; code_simp)
  from resolveTenant_precedence
         [where settings = registry_only and tenantId = "JStr ''acme''" and wanted = "''acme''"
            and up = id and ev = "acme_env\<lparr>MAXIMO_APIKEY := None\<rparr>", THEN conjunct1, THEN mp, OF h3]
  obtain r3 where r3: "resolveTenant id (acme_env\<lparr>MAXIMO_APIKEY := None\<rparr>) registry_only (JStr ''acme'') = Inr r3"
    "rt_id r3 = ''acme''"
    by blast
  from resolveTenant_precedence
         [where settings = registry_only and tenantId = "JStr ''acme''"
            and up = id and ev = "acme_env\<lparr>MAXIMO_APIKEY := None\<rparr>" and r = r3, THEN conjunct2, THEN mp, OF r3(1)]
  obtain t3 where tc3: "list_all tenant_entry (tenants_of registry_only)
                 \<longrightarrow> t3 = chosen_tenant (tenants_of registry_only) (rt_id r3)"
    and b33: "\<not> truthy (rd t3 ''maximoBaseUrl'')
                  \<and> \<not> truthy (optp (rd registry_only ''maximo'') ''baseUrl'')
                 \<longrightarrow> normMaximoBase (env_val (MAXIMO_URL (acme_env\<lparr>MAXIMO_APIKEY := None\<rparr>))) = Inr (rt_baseUrl r3)"
    and k33: "\<not> truthy (env_val (MAXIMO_APIKEY (acme_env\<lparr>MAXIMO_APIKEY := None\<rparr>)))
                  \<and> \<not> truthy (optp (rd registry_only ''maximo'') ''apiKey'')
                 \<longrightarrow> rt_apiKey r3 = JStr []"
    by blast
  from tc3 entries(2) r3(2) have t3: "t3 = chosen_tenant (tenants_of registry_only) ''acme''"
    by simp
  from b33 k33 v3 have "rt_baseUrl r3 = ''https://env.example.com/maximo'' \<and> rt_apiKey r3 = JStr []"
    unfolding t3 by simp
  with r3(1) have w3: "case resolveTenant id (acme_env\<lparr>MAXIMO_APIKEY := None\<rparr>) registry_only (JStr ''acme'') of
      Inr r \<Rightarrow> rt_baseUrl r = ''https://env.example.com/maximo'' \<and> rt_apiKey r = JStr []
    | Inl e \<Rightarrow> False"
    by simp
  have h4: "\<not> nullish acme_settings \<and> list_all tenant_entry (tenants_of acme_settings)
      \<and> tenant_id acme_settings (JStr ''acme'') = Inr ''acme''
      \<and> list_all printable
          [rd (chosen_tenant (tenants_of acme_settings) ''acme'') ''site'',
           optp (rd acme_settings ''maximo'') ''defaultSite'',
           rd (chosen_tenant (tenants_of acme_settings) ''acme'') ''maximoBaseUrl'',
           optp (rd acme_settings ''maximo'') ''baseUrl'']"
    by (intro conjI; code_simp)
  from resolveTenant_precedence
         [where settings = acme_settings and tenantId = "JStr ''acme''" and wanted = "''acme''"
            and up = id and ev = "acme_env\<lparr>MAXIMO_APIKEY := Some []\<rparr>", THEN conjunct1, THEN mp, OF h4]
  obtain r4 where r4: "resolveTenant id (acme_env\<lparr>MAXIMO_APIKEY := Some []\<rparr>) acme_settings (JStr ''acme'') = Inr r4"
    "rt_id r4 = ''acme''"
    by blast
  from resolveTenant_precedence
         [where settings = acme_settings and tenantId = "JStr ''acme''"
            and up = id and ev = "acme_env\<lparr>MAXIMO_APIKEY := Some []\<rparr>" and r = r4, THEN conjunct2, THEN mp, OF r4(1)]
  obtain t4 where tc4: "list_all tenant_entry (tenants_of acme_settings)
                 \<longrightarrow> t4 = chosen_tenant (tenants_of acme_settings) (rt_id r4)"
    and k24: "\<not> truthy (env_val (MAXIMO_APIKEY (acme_env\<lparr>MAXIMO_APIKEY := Some []\<rparr>)))
                  \<and> truthy (optp (rd acme_settings ''maximo'') ''apiKey'')
                 \<longrightarrow> rt_apiKey r4 = optp (rd acme_settings ''maximo'') ''apiKey''"
    by blast
  from tc4 entries(1) r4(2) have t4: "t4 = chosen_tenant (tenants_of acme_settings) ''acme''"
    by simp
  from k24 v4 have "rt_apiKey r4 = JStr ''file-key''"
    unfolding t4 by simp
  with r4(1) have w4: "case resolveTenant id (acme_env\<lparr>MAXIMO_APIKEY := Some []\<rparr>) acme_settings (JStr ''acme'') of
      Inr r \<Rightarrow> rt_apiKey r = JStr ''file-key''
    | Inl e \<Rightarrow> False"
    by simp
  from w1 w2 w3 w4 show ?thesis
    by (intro conjI)
qed


section \<open>Properties of the tool invocation\<close>

lemma resolveTenant_same:
  assumes same: "same_but_credential ev1 s1 ev2 s2"
    and r1: "resolveTenant up ev1 s1 tenantId = Inr t1"
    and r2: "resolveTenant up ev2 s2 tenantId = Inr t2"
  shows "rt_id t1 = rt_id t2 \<and> rt_baseUrl t1 = rt_baseUrl t2 \<and> rt_apiBase t1 = rt_apiBase t2
       \<and> rt_site t1 = rt_site t2 \<and> rt_org t1 = rt_org t2"
proof -
  from same have ids: "tenant_id s1 tenantId = tenant_id s2 tenantId"
    by (simp add: same_but_credential_def tenant_id_def)
  from same have ts: "tenants_of s1 = tenants_of s2"
    by (simp add: same_but_credential_def tenants_of_def)
  from same have g: "optp (rd s1 ''maximo'') ''baseUrl'' = optp (rd s2 ''maximo'') ''baseUrl''"
    "optp (rd s1 ''maximo'') ''defaultSite'' = optp (rd s2 ''maximo'') ''defaultSite''"
    "MAXIMO_URL ev1 = MAXIMO_URL ev2" "DEFAULT_SITEID ev1 = DEFAULT_SITEID ev2"
    by (simp_all add: same_but_credential_def)
  from resolveTenant_Inr_full [OF r1] obtain w1 u1 site1 where
    a1: "tenant_id s1 tenantId = Inr w1" "pick_tenant (tenants_of s1) w1 = Inr u1"
      "js_String (js_or (rd u1 ''site'')
                         (js_or (optp (rd s1 ''maximo'') ''defaultSite'')
                            (js_or (env_val (DEFAULT_SITEID ev1)) (JStr [])))) = Inr site1"
      "normMaximoBase (js_or (rd u1 ''maximoBaseUrl'')
                           (js_or (optp (rd s1 ''maximo'') ''baseUrl'')
                              (js_or (env_val (MAXIMO_URL ev1)) (JStr [])))) = Inr (rt_baseUrl t1)"
      "maximoApiBase (js_or (rd u1 ''maximoBaseUrl'')
                           (js_or (optp (rd s1 ''maximo'') ''baseUrl'')
                              (js_or (env_val (MAXIMO_URL ev1)) (JStr [])))) = Inr (rt_apiBase t1)"
      "rt_id t1 = w1" "rt_site t1 = toUpperCase up site1" "rt_org t1 = js_or (rd u1 ''org'') (JStr [])"
    by blast
  from resolveTenant_Inr_full [OF r2] obtain w2 u2 site2 where
    a2: "tenant_id s2 tenantId = Inr w2" "pick_tenant (tenants_of s2) w2 = Inr u2"
      "js_String (js_or (rd u2 ''site'')
                         (js_or (optp (rd s2 ''maximo'') ''defaultSite'')
                            (js_or (env_val (DEFAULT_SITEID ev2)) (JStr [])))) = Inr site2"
      "normMaximoBase (js_or (rd u2 ''maximoBaseUrl'')
                           (js_or (optp (rd s2 ''maximo'') ''baseUrl'')
                              (js_or (env_val (MAXIMO_URL ev2)) (JStr [])))) = Inr (rt_baseUrl t2)"
      "maximoApiBase (js_or (rd u2 ''maximoBaseUrl'')
                           (js_or (optp (rd s2 ''maximo'') ''baseUrl'')
                              (js_or (env_val (MAXIMO_URL ev2)) (JStr [])))) = Inr (rt_apiBase t2)"
      "rt_id t2 = w2" "rt_site t2 = toUpperCase up site2" "rt_org t2 = js_or (rd u2 ''org'') (JStr [])"
    by blast
  from a1(1) a2(1) ids have w: "w1 = w2" by simp
  with a1(2) a2(2) ts have u: "u1 = u2" by simp
  from a1(3) a2(3) u g have "site1 = site2" by simp
  moreover from a1(4) a2(4) u g have "rt_baseUrl t1 = rt_baseUrl t2" by simp
  moreover from a1(5) a2(5) u g have "rt_apiBase t1 = rt_apiBase t2" by simp
  ultimately show ?thesis
    using w u a1(6-8) a2(6-8) by simp
qed

lemma query_url_same:
  assumes "encodeURIComponent rt1 = encodeURIComponent rt2"
    and "url_search_params rt1 = url_search_params rt2"
    and "rt_apiBase t1 = rt_apiBase t2" and "rt_site t1 = rt_site t2"
  shows "query_url rt1 t1 os p = query_url rt2 t2 os p"
proof -
  have qp: "query_params t1 p = query_params t2 p"
    by (simp only: query_params_def assms(4))
  show ?thesis
    by (simp only: query_url_def qp assms(1,2,3))
qed

lemma mcp_queryOS_ok:
  assumes "mcp_queryOS rt tenant args = (tr, Inr (Json st body))" and "rd body ''ok'' = JBool True"
  shows "\<exists>os0 url. js_String (js_or (rd args ''os'') (JStr [])) = Inr os0
      \<and> query_url rt tenant (trim os0)
           (if truthy (rd args ''params'') \<and> typeof_object (rd args ''params'')
            then rd args ''params'' else JObj []) = Inr url
      \<and> tr = [MaximoGet url (rt_apiKey tenant)]
      \<and> rd body ''trace'' = query_trace url"
proof (cases "js_String (js_or (rd args ''os'') (JStr []))")
  case (Inl e)
  with assms show ?thesis by (simp add: mcp_queryOS_def)
next
  case (Inr os0)
  let ?p = "if truthy (rd args ''params'') \<and> typeof_object (rd args ''params'')
            then rd args ''params'' else JObj []"
  show ?thesis
  proof (cases "trim os0 = []")
    case True
    with Inr assms show ?thesis by (auto simp: mcp_queryOS_def Let_def)
  next
    case False
    show ?thesis
    proof (cases "query_url rt tenant (trim os0) ?p")
      case (Inl e)
      with Inr False assms show ?thesis by (simp add: mcp_queryOS_def Let_def)
    next
      case url: (Inr url)
      show ?thesis
      proof (cases "fetch rt 0 (MaximoGet url (rt_apiKey tenant))")
        case (Inl e)
        with Inr False url assms show ?thesis
          by (simp add: mcp_queryOS_def Let_def fetchJson_def)
      next
        case raw: (Inr raw)
        from Inr False url raw assms show ?thesis
          by (auto simp: mcp_queryOS_def Let_def fetchJson_def maximo_failed_def
                   split: if_splits)
      qed
    qed
  qed
qed

lemma mcp_listOS_no_ok_trace:
  assumes "mcp_listOS rt tenant = (tr, Inr (Json st body))"
  shows "rd body ''trace'' = JUndefined"
  using assms
  by (auto simp: mcp_listOS_def Let_def fetchJson_def maximo_failed_def split: sum.splits if_splits)

lemma mcp_call_queryOS:
  assumes "is_queryOS parsed"
    and "mcp_call up rt ev settings parsed = (tr, Inr (Json st body))" and "rd body ''ok'' = JBool True"
  shows "\<exists>tenant. resolveTenant up ev settings (rd parsed ''tenant'') = Inr tenant
      \<and> mcp_queryOS rt tenant (js_or (rd parsed ''args'') (JObj [])) = (tr, Inr (Json st body))"
proof -
  from assms(1) obtain n where n: "js_String (js_or (rd parsed ''name'') (JStr [])) = Inr n"
    and q: "trim n = ''maximo.queryOS''"
    by (auto simp: is_queryOS_def split: sum.splits)
  show ?thesis
  proof (cases "nullish parsed")
    case True
    with assms(2) show ?thesis by (simp add: mcp_call_def getp_def)
  next
    case False
    then have g: "getp parsed ''name'' = Inr (rd parsed ''name'')" by (simp add: getp_def)
    show ?thesis
    proof (cases "resolveTenant up ev settings (rd parsed ''tenant'')")
      case (Inl e)
      with g n assms(2) show ?thesis by (simp add: mcp_call_def)
    next
      case (Inr tenant)
      with g n q assms(2,3) show ?thesis
        by (auto simp: mcp_call_def Let_def split: if_splits)
    qed
  qed
qed

text \<open>
  C9. A successful \<^verbatim>\<open>maximo.queryOS\<close> invocation (an answer with \<^verbatim>\<open>ok: true\<close>) returns
  a trace record whose credential header is the mask \<^verbatim>\<open>***\<close>, and the trace record is
  the same for two runs that differ only in the credential: in the environment variable
  \<^verbatim>\<open>MAXIMO_APIKEY\<close>, in \<^verbatim>\<open>settings.maximo.apiKey\<close>, and in what the backend answered.
\<close>

theorem queryOS_trace_hides_credential:
  assumes tool: "is_queryOS parsed"
    and run1: "mcp_call up rt1 ev1 s1 parsed = (tr1, Inr (Json st1 body1))"
    and ok1: "rd body1 ''ok'' = JBool True"
    and run2: "mcp_call up rt2 ev2 s2 parsed = (tr2, Inr (Json st2 body2))"
    and ok2: "rd body2 ''ok'' = JBool True"
    and same: "same_but_credential ev1 s1 ev2 s2"
    and enc: "encodeURIComponent rt1 = encodeURIComponent rt2"
    and usp: "url_search_params rt1 = url_search_params rt2"
  shows "rd body1 ''trace'' = rd body2 ''trace''
       \<and> rd (rd (rd (rd body1 ''trace'') ''request'') ''headers'') ''apikey'' = JStr ''***''"
proof -
  let ?args = "js_or (rd parsed ''args'') (JObj [])"
  let ?p = "if truthy (rd ?args ''params'') \<and> typeof_object (rd ?args ''params'')
            then rd ?args ''params'' else JObj []"
  from mcp_call_queryOS [OF tool run1 ok1] obtain t1
    where t1: "resolveTenant up ev1 s1 (rd parsed ''tenant'') = Inr t1"
      and q1: "mcp_queryOS rt1 t1 ?args = (tr1, Inr (Json st1 body1))"
    by blast
  from mcp_call_queryOS [OF tool run2 ok2] obtain t2
    where t2: "resolveTenant up ev2 s2 (rd parsed ''tenant'') = Inr t2"
      and q2: "mcp_queryOS rt2 t2 ?args = (tr2, Inr (Json st2 body2))"
    by blast
  from mcp_queryOS_ok [OF q1 ok1] obtain os1 url1
    where o1: "js_String (js_or (rd ?args ''os'') (JStr [])) = Inr os1"
      and u1: "query_url rt1 t1 (trim os1) ?p = Inr url1"
      and b1: "rd body1 ''trace'' = query_trace url1"
    by blast
  from mcp_queryOS_ok [OF q2 ok2] obtain os2 url2
    where o2: "js_String (js_or (rd ?args ''os'') (JStr [])) = Inr os2"
      and u2: "query_url rt2 t2 (trim os2) ?p = Inr url2"
      and b2: "rd body2 ''trace'' = query_trace url2"
    by blast
  from o1 o2 have os: "os1 = os2" by simp
  from resolveTenant_same [OF same t1 t2]
  have "rt_apiBase t1 = rt_apiBase t2" "rt_site t1 = rt_site t2" by simp_all
  from query_url_same [OF enc usp this] u1 u2 os have "url1 = url2" by simp
  with b1 b2 show ?thesis by (simp add: query_trace_def)
qed

lemma acme_query_run:
  "mcp_call (map upper_char) demo_rt acme_env acme_settings query_request =
     ([MaximoGet ''https://acme.example.com/maximo/api/os/mxapiasset?oslc.where=siteid%3D%22BEDFORD%22''
         (JStr ''env-key'')],
      Inr (Json 200
        (JObj [(''ok'', JBool True), (''tenant'', JStr ''acme''), (''os'', JStr ''mxapiasset''),
               (''data'', JObj [(''member'', JArr [])]),
               (''trace'', query_trace ''https://acme.example.com/maximo/api/os/mxapiasset?oslc.where=siteid%3D%22BEDFORD%22'')])))"
  by code_simp

lemma acme_query_run_rotated:
  "mcp_call (map upper_char) demo_rt (acme_env\<lparr>MAXIMO_APIKEY := Some ''rotated-key''\<rparr>) acme_settings query_request =
     ([MaximoGet ''https://acme.example.com/maximo/api/os/mxapiasset?oslc.where=siteid%3D%22BEDFORD%22''
         (JStr ''rotated-key'')],
      Inr (Json 200
        (JObj [(''ok'', JBool True), (''tenant'', JStr ''acme''), (''os'', JStr ''mxapiasset''),
               (''data'', JObj [(''member'', JArr [])]),
               (''trace'', query_trace ''https://acme.example.com/maximo/api/os/mxapiasset?oslc.where=siteid%3D%22BEDFORD%22'')])))"
  by code_simp

theorem queryOS_trace_hides_credential_witness:
  "is_queryOS query_request
   \<and> same_but_credential acme_env acme_settings
        (acme_env\<lparr>MAXIMO_APIKEY := Some ''rotated-key''\<rparr>) acme_settings
   \<and> fst (mcp_call (map upper_char) demo_rt acme_env acme_settings query_request)
       \<noteq> fst (mcp_call (map upper_char) demo_rt (acme_env\<lparr>MAXIMO_APIKEY := Some ''rotated-key''\<rparr>)
                acme_settings query_request)
   \<and> rd (rd (rd (query_trace ''https://acme.example.com/maximo/api/os/mxapiasset?oslc.where=siteid%3D%22BEDFORD%22'')
              ''request'') ''headers'') ''apikey'' = JStr ''***''"
proof -
  have tool: "is_queryOS query_request"
    by code_simp
  have same: "same_but_credential acme_env acme_settings
        (acme_env\<lparr>MAXIMO_APIKEY := Some ''rotated-key''\<rparr>) acme_settings"
    by (simp add: same_but_credential_def)
  have ok: "rd (JObj [(''ok'', JBool True), (''tenant'', JStr ''acme''), (''os'', JStr ''mxapiasset''),
               (''data'', JObj [(''member'', JArr [])]),
               (''trace'', query_trace ''https://acme.example.com/maximo/api/os/mxapiasset?oslc.where=siteid%3D%22BEDFORD%22'')])
             ''ok'' = JBool True"
    by simp
  from queryOS_trace_hides_credential
         [OF tool acme_query_run ok acme_query_run_rotated ok same refl refl]
  have "rd (rd (rd (query_trace ''https://acme.example.com/maximo/api/os/mxapiasset?oslc.where=siteid%3D%22BEDFORD%22'')
              ''request'') ''headers'') ''apikey'' = JStr ''***''"
    by simp
  with tool same show ?thesis
    by (simp add: acme_query_run acme_query_run_rotated)
qed

section \<open>The ordering token in the two query handlers\<close>

lemma query_params_orderBy:
  assumes "query_params tenant paramsIn = Inr kvs"
  shows "\<exists>tok. js_String (js_or (rd paramsIn ''oslc.orderBy'') (JStr [])) = Inr tok
       \<and> map_of kvs ''oslc.orderBy'' = (if trim tok = [] then None else Some (trim tok))"
proof -
  from assms obtain w s ob p where w: "oslc_param paramsIn ''oslc.where'' = Inr w"
    and s: "oslc_param paramsIn ''oslc.select'' = Inr s"
    and ob: "oslc_param paramsIn ''oslc.orderBy'' = Inr ob"
    and p: "oslc_param paramsIn ''oslc.pageSize'' = Inr p"
    by (auto simp: query_params_def split: sum.splits)
  from ob obtain tok where tok: "js_String (js_or (rd paramsIn ''oslc.orderBy'') (JStr [])) = Inr tok"
    and t: "ob = trim tok"
    by (auto simp: oslc_param_def split: sum.splits)
  define wh where "wh = (if w \<noteq> [] then w
                     else if rt_site tenant \<noteq> [] then ''siteid=\"'' @ rt_site tenant @ ''\"''
                     else [])"
  have "query_params tenant paramsIn = Inr (filter (\<lambda>(k, v). v \<noteq> [])
                     [(''oslc.where'', wh), (''oslc.select'', s),
                      (''oslc.orderBy'', ob), (''oslc.pageSize'', p)])"
    unfolding query_params_def w s ob p wh_def by (simp only: sum.case Let_def)
  with assms have kvs: "kvs = filter (\<lambda>(k, v). v \<noteq> [])
                     [(''oslc.where'', wh), (''oslc.select'', s),
                      (''oslc.orderBy'', ob), (''oslc.pageSize'', p)]"
    by simp
  have "map_of kvs ''oslc.orderBy'' = (if ob = [] then None else Some ob)"
    unfolding kvs by simp
  with tok t show ?thesis by blast
qed

lemma query_url_form:
  assumes "query_url rt tenant os p = Inr url"
  shows "\<exists>kvs eos. query_params tenant p = Inr kvs
       \<and> url = (rt_apiBase tenant @ ''/os/'' @ eos) @ ''?'' @ url_search_params rt kvs"
  using assms by (auto simp: query_url_def split: sum.splits)

lemma mcp_queryOS_sent:
  assumes "fst (mcp_queryOS rt tenant args) \<noteq> []"
  shows "\<exists>os0 url. js_String (js_or (rd args ''os'') (JStr [])) = Inr os0
      \<and> query_url rt tenant (trim os0)
           (if truthy (rd args ''params'') \<and> typeof_object (rd args ''params'')
            then rd args ''params'' else JObj []) = Inr url
      \<and> fst (mcp_queryOS rt tenant args) = [MaximoGet url (rt_apiKey tenant)]"
proof (cases "js_String (js_or (rd args ''os'') (JStr []))")
  case (Inl e)
  with assms show ?thesis by (simp add: mcp_queryOS_def)
next
  case (Inr os0)
  let ?p = "if truthy (rd args ''params'') \<and> typeof_object (rd args ''params'')
            then rd args ''params'' else JObj []"
  show ?thesis
  proof (cases "trim os0 = []")
    case True
    with Inr assms show ?thesis by (simp add: mcp_queryOS_def Let_def)
  next
    case False
    show ?thesis
    proof (cases "query_url rt tenant (trim os0) ?p")
      case (Inl e)
      with Inr False assms show ?thesis by (simp add: mcp_queryOS_def Let_def)
    next
      case url: (Inr url)
      have "fst (mcp_queryOS rt tenant args) = [MaximoGet url (rt_apiKey tenant)]"
      proof (cases "fetch rt 0 (MaximoGet url (rt_apiKey tenant))")
        case (Inl e)
        with Inr False url show ?thesis
          by (simp add: mcp_queryOS_def Let_def fetchJson_def)
      next
        case raw: (Inr raw)
        with Inr False url show ?thesis
          by (simp add: mcp_queryOS_def Let_def fetchJson_def)
      qed
      with Inr url show ?thesis by blast
    qed
  qed
qed

lemma mcp_call_queryOS_sent:
  assumes "is_queryOS parsed" and "fst (mcp_call up rt ev settings parsed) \<noteq> []"
  shows "\<exists>tenant. mcp_call up rt ev settings parsed =
                    mcp_queryOS rt tenant (js_or (rd parsed ''args'') (JObj []))"
proof -
  from assms(1) obtain n where n: "js_String (js_or (rd parsed ''name'') (JStr [])) = Inr n"
    and q: "trim n = ''maximo.queryOS''"
    by (auto simp: is_queryOS_def split: sum.splits)
  show ?thesis
  proof (cases "nullish parsed")
    case True
    with assms(2) show ?thesis by (simp add: mcp_call_def getp_def)
  next
    case False
    then have g: "getp parsed ''name'' = Inr (rd parsed ''name'')" by (simp add: getp_def)
    show ?thesis
    proof (cases "resolveTenant up ev settings (rd parsed ''tenant'')")
      case (Inl e)
      with g n assms(2) show ?thesis by (simp add: mcp_call_def)
    next
      case (Inr tenant)
      show ?thesis
      proof (cases "rt_apiBase tenant = [] \<or> \<not> truthy (rt_apiKey tenant)")
        case True
        with Inr g n q assms(2) show ?thesis by (auto simp: mcp_call_def Let_def)
      next
        case False
        with Inr g n q have "mcp_call up rt ev settings parsed =
                    mcp_queryOS rt tenant (js_or (rd parsed ''args'') (JObj []))"
          by (simp add: mcp_call_def Let_def)
        then show ?thesis by blast
      qed
    qed
  qed
qed

text \<open>The \<^verbatim>\<open>maximo.queryOS\<close> handler sends the caller's ordering token as it is.\<close>

lemma mcp_call_orderBy:
  assumes "is_queryOS parsed" and "fst (mcp_call up rt ev settings parsed) \<noteq> []"
  shows "\<exists>path kvs key tok.
           fst (mcp_call up rt ev settings parsed) =
             [MaximoGet (path @ ''?'' @ url_search_params rt kvs) key]
         \<and> js_String (js_or (rd (query_args_params parsed) ''oslc.orderBy'') (JStr [])) = Inr tok
         \<and> map_of kvs ''oslc.orderBy'' = (if trim tok = [] then None else Some (trim tok))"
proof -
  let ?args = "js_or (rd parsed ''args'') (JObj [])"
  from mcp_call_queryOS_sent [OF assms] obtain tenant
    where call: "mcp_call up rt ev settings parsed = mcp_queryOS rt tenant ?args"
    by blast
  with assms(2) have "fst (mcp_queryOS rt tenant ?args) \<noteq> []" by simp
  from mcp_queryOS_sent [OF this] obtain os0 url
    where url: "query_url rt tenant (trim os0) (query_args_params parsed) = Inr url"
      and sent: "fst (mcp_queryOS rt tenant ?args) = [MaximoGet url (rt_apiKey tenant)]"
    by (auto simp: query_args_params_def Let_def)
  from query_url_form [OF url] obtain kvs eos
    where kvs: "query_params tenant (query_args_params parsed) = Inr kvs"
      and form: "url = (rt_apiBase tenant @ ''/os/'' @ eos) @ ''?'' @ url_search_params rt kvs"
    by blast
  from query_params_orderBy [OF kvs] obtain tok
    where "js_String (js_or (rd (query_args_params parsed) ''oslc.orderBy'') (JStr [])) = Inr tok"
      and "map_of kvs ''oslc.orderBy'' = (if trim tok = [] then None else Some (trim tok))"
    by blast
  with call sent form show ?thesis
    by (intro exI [of _ "rt_apiBase tenant @ ''/os/'' @ eos"] exI [of _ kvs]
              exI [of _ "rt_apiKey tenant"] exI [of _ tok]) simp
qed

lemma direct_query_orderBy:
  "\<exists>kvs. direct_query_params site = Inr kvs \<and> map_of kvs ''oslc.orderBy'' = Some ''-changedate''"
proof -
  have "normalizeOrderBy (JStr ''-changedate'') = Inr ''-changedate''"
    by (rule normalizeOrderBy_examples)
  then show ?thesis
    by (simp add: direct_query_params_def)
qed

text \<open>
  C6, as amended. The conversion \<^verbatim>\<open>normalizeOrderBy\<close> returns on every string (it is
  total and throws nothing), and converting its result again changes nothing. It works
  on the input with surrounding white space trimmed: a trimmed input that starts with
  \<open>+\<close> or \<open>-\<close> is returned as trimmed; a trimmed input of the form field, white
  space, direction word (\<open>asc\<close> or \<open>desc\<close> in any letter case) becomes the field
  prefixed with \<open>-\<close> for \<open>desc\<close> and with \<open>+\<close> for \<open>asc\<close>; any other input
  that is not empty after trimming is returned trimmed and prefixed with \<open>+\<close>; an
  input that is empty after trimming gives the empty string. The conversion is applied
  by the direct query of the agent server only, to the constant token \<open>-changedate\<close>,
  which it leaves as it is. The \<^verbatim>\<open>maximo.queryOS\<close> handler of the MCP server does not
  apply it: whenever the handler sends a query, the ordering entry of the query
  parameters is the caller's \<^verbatim>\<open>oslc.orderBy\<close> token, trimmed and otherwise
  unchanged, and there is no ordering entry when that is empty.
\<close>

theorem normalizeOrderBy_conversion:
  "(\<exists>y. normalizeOrderBy (JStr x) = Inr y
      \<and> normalizeOrderBy (JStr y) = Inr y
      \<and> (trim x = [] \<longrightarrow> y = [])
      \<and> (startsWith (trim x) ''+'' \<or> startsWith (trim x) ''-'' \<longrightarrow> y = trim x)
      \<and> (\<forall>f w d. trim x = f @ w @ d \<and> f \<noteq> [] \<and> list_all is_field_char f
                  \<and> w \<noteq> [] \<and> list_all is_space w \<and> toLowerCase d = ''desc''
                \<longrightarrow> y = ''-'' @ f)
      \<and> (\<forall>f w d. trim x = f @ w @ d \<and> f \<noteq> [] \<and> list_all is_field_char f
                  \<and> w \<noteq> [] \<and> list_all is_space w \<and> toLowerCase d = ''asc''
                \<longrightarrow> y = ''+'' @ f)
      \<and> (trim x \<noteq> [] \<and> \<not> startsWith (trim x) ''+'' \<and> \<not> startsWith (trim x) ''-''
           \<and> (\<forall>f w d. trim x = f @ w @ d \<and> f \<noteq> [] \<and> list_all is_field_char f
                  \<and> w \<noteq> [] \<and> list_all is_space w
                \<longrightarrow> toLowerCase d \<noteq> ''asc'' \<and> toLowerCase d \<noteq> ''desc'')
         \<longrightarrow> y = ''+'' @ trim x))
   \<and> (\<exists>kvs. direct_query_params site = Inr kvs
          \<and> map_of kvs ''oslc.orderBy'' = Some ''-changedate'')
   \<and> (is_queryOS parsed \<and> fst (mcp_call up rt ev settings parsed) \<noteq> []
        \<longrightarrow> (\<exists>path kvs key tok.
               fst (mcp_call up rt ev settings parsed) =
                 [MaximoGet (path @ ''?'' @ url_search_params rt kvs) key]
             \<and> js_String (js_or (rd (query_args_params parsed) ''oslc.orderBy'') (JStr []))
                 = Inr tok
             \<and> map_of kvs ''oslc.orderBy'' = (if trim tok = [] then None else Some (trim tok))))"
proof (intro conjI impI)
  show "\<exists>y. normalizeOrderBy (JStr x) = Inr y
      \<and> normalizeOrderBy (JStr y) = Inr y
      \<and> (trim x = [] \<longrightarrow> y = [])
      \<and> (startsWith (trim x) ''+'' \<or> startsWith (trim x) ''-'' \<longrightarrow> y = trim x)
      \<and> (\<forall>f w d. trim x = f @ w @ d \<and> f \<noteq> [] \<and> list_all is_field_char f
                  \<and> w \<noteq> [] \<and> list_all is_space w \<and> toLowerCase d = ''desc''
                \<longrightarrow> y = ''-'' @ f)
      \<and> (\<forall>f w d. trim x = f @ w @ d \<and> f \<noteq> [] \<and> list_all is_field_char f
                  \<and> w \<noteq> [] \<and> list_all is_space w \<and> toLowerCase d = ''asc''
                \<longrightarrow> y = ''+'' @ f)
      \<and> (trim x \<noteq> [] \<and> \<not> startsWith (trim x) ''+'' \<and> \<not> startsWith (trim x) ''-''
           \<and> (\<forall>f w d. trim x = f @ w @ d \<and> f \<noteq> [] \<and> list_all is_field_char f
                  \<and> w \<noteq> [] \<and> list_all is_space w
                \<longrightarrow> toLowerCase d \<noteq> ''asc'' \<and> toLowerCase d \<noteq> ''desc'')
         \<longrightarrow> y = ''+'' @ trim x)"
    by (rule normalizeOrderBy_cases)
  show "\<exists>kvs. direct_query_params site = Inr kvs
          \<and> map_of kvs ''oslc.orderBy'' = Some ''-changedate''"
    by (rule direct_query_orderBy)
  show "\<exists>path kvs key tok.
               fst (mcp_call up rt ev settings parsed) =
                 [MaximoGet (path @ ''?'' @ url_search_params rt kvs) key]
             \<and> js_String (js_or (rd (query_args_params parsed) ''oslc.orderBy'') (JStr []))
                 = Inr tok
             \<and> map_of kvs ''oslc.orderBy'' = (if trim tok = [] then None else Some (trim tok))"
    if "is_queryOS parsed \<and> fst (mcp_call up rt ev settings parsed) \<noteq> []"
    using that by (intro mcp_call_orderBy) simp_all
qed

theorem normalizeOrderBy_conversion_witness:
  "normalizeOrderBy (JStr ''changedate DESC'') = Inr ''-changedate''
   \<and> normalizeOrderBy (JStr ''-changedate'') = Inr ''-changedate''
   \<and> is_queryOS ordered_query_request
   \<and> fst (mcp_call id demo_rt acme_env acme_settings ordered_query_request) \<noteq> []
   \<and> (\<exists>path kvs key.
         fst (mcp_call id demo_rt acme_env acme_settings ordered_query_request) =
           [MaximoGet (path @ ''?'' @ url_search_params demo_rt kvs) key]
       \<and> map_of kvs ''oslc.orderBy'' = Some ''changedate desc'')"
proof -
  note conv = normalizeOrderBy_conversion
                [of "''changedate DESC''" "[]" ordered_query_request id demo_rt acme_env acme_settings]
  from conv [THEN conjunct1] obtain y
    where y: "normalizeOrderBy (JStr ''changedate DESC'') = Inr y"
      and idem: "normalizeOrderBy (JStr y) = Inr y"
      and desc: "\<forall>f w d. trim ''changedate DESC'' = f @ w @ d \<and> f \<noteq> []
                  \<and> list_all is_field_char f
                  \<and> w \<noteq> [] \<and> list_all is_space w \<and> toLowerCase d = ''desc''
                \<longrightarrow> y = ''-'' @ f"
    by (elim exE conjE)
  have "trim ''changedate DESC'' = ''changedate'' @ '' '' @ ''DESC'' \<and> ''changedate'' \<noteq> []
          \<and> list_all is_field_char ''changedate''
          \<and> '' '' \<noteq> [] \<and> list_all is_space '' '' \<and> toLowerCase ''DESC'' = ''desc''"
    by (simp add: trim_def is_space_def is_field_char_def toLowerCase_def lower_char_def
          upper_letters_def lower_letters_def)
  from desc [rule_format, OF this] have "y = ''-changedate''"
    by simp
  with y idem have conv1: "normalizeOrderBy (JStr ''changedate DESC'') = Inr ''-changedate''"
    and conv2: "normalizeOrderBy (JStr ''-changedate'') = Inr ''-changedate''"
    by simp_all
  have tool: "is_queryOS ordered_query_request"
    by code_simp
  have sent: "fst (mcp_call id demo_rt acme_env acme_settings ordered_query_request) \<noteq> []"
    by code_simp
  have tok: "js_String (js_or (rd (query_args_params ordered_query_request) ''oslc.orderBy'')
                          (JStr [])) = Inr ''changedate desc''"
    "trim ''changedate desc'' = ''changedate desc''"
    by code_simp+
  from conv [THEN conjunct2, THEN conjunct2, THEN mp, OF conjI, OF tool sent]
  obtain path kvs key t
    where tr: "fst (mcp_call id demo_rt acme_env acme_settings ordered_query_request) =
                 [MaximoGet (path @ ''?'' @ url_search_params demo_rt kvs) key]"
      and t: "js_String (js_or (rd (query_args_params ordered_query_request) ''oslc.orderBy'')
                          (JStr [])) = Inr t"
      and entry: "map_of kvs ''oslc.orderBy'' = (if trim t = [] then None else Some (trim t))"
    by blast
  from t tok(1) have "t = ''changedate desc''"
    by simp
  with entry tok(2) have "map_of kvs ''oslc.orderBy'' = Some ''changedate desc''"
    by simp
  with tr have "\<exists>path kvs key.
         fst (mcp_call id demo_rt acme_env acme_settings ordered_query_request) =
           [MaximoGet (path @ ''?'' @ url_search_params demo_rt kvs) key]
       \<and> map_of kvs ''oslc.orderBy'' = Some ''changedate desc''"
    by blast
  with conv1 conv2 tool sent show ?thesis
    by (intro conjI)
qed

text \<open>
  The claim as it was stated fails in the handler that receives the caller's ordering
  token: a \<^verbatim>\<open>maximo.queryOS\<close> request that asks for \<open>changedate desc\<close> is sent to
  the backend with that token, not with \<open>-changedate\<close>. It also fails for the
  conversion itself on input with surrounding white space: a token that starts with
  \<open>-\<close> and ends with a blank is not returned unchanged, and the string that is one
  blank, which is not empty, is not returned prefixed with \<open>+\<close>.
\<close>

theorem queryOS_orderBy_unconverted_counterexample:
  "fst (mcp_call id demo_rt acme_env acme_settings ordered_query_request) =
     [MaximoGet ''https://acme.example.com/maximo/api/os/mxapiasset?oslc.where=siteid%3D%22BEDFORD%22&oslc.orderBy=changedate+desc''
        (JStr ''env-key'')]
   \<and> normalizeOrderBy (JStr ''changedate desc'') = Inr ''-changedate''
   \<and> normalizeOrderBy (JStr ''-changedate '') = Inr ''-changedate''
   \<and> ''-changedate'' \<noteq> ''-changedate ''
   \<and> normalizeOrderBy (JStr '' '') = Inr []"
  by code_simp


section \<open>Properties of the chat turn\<close>

subsection \<open>Missing credential\<close>

text \<open>
  C2. When the provider configuration that the request resolves to has an empty (falsy)
  credential, the turn ends with the answer 400 \<^verbatim>\<open>missing_api_key\<close> and no request
  was sent: no completion, no catalog fetch, no broker invoke. The completion function
  itself, called with such a configuration, throws before it sends anything.
\<close>

theorem chat_turn_missing_credential:
  assumes "chat_provider parsed = Inr provider"
    and "providerConfig (JStr provider) s = Inr cfg"
    and "\<not> truthy (cfg_key cfg)"
  shows "chat_turn rt ev s parsed =
           ([], Inr (Json 400 (JObj [(''error'', JStr ''missing_api_key''),
                                     (''detail'', JStr (''Missing '' @ provider @ '' API key''))])))
       \<and> openaiCompatChat rt tr cfg model temperature messages tools =
           (tr, Inl (MissingApiKey (cfg_provider cfg)))"
  using assms
  by (simp add: chat_turn_def chat_init_def missing_api_key_response_def openaiCompatChat_def)

theorem chat_turn_missing_credential_witness:
  "chat_provider (JObj [(''provider'', JStr ''Mistral''), (''text'', JStr ''hi'')]) = Inr ''mistral''
   \<and> providerConfig (JStr ''mistral'') openai_settings =
       Inr \<lparr>cfg_provider = ''mistral'', cfg_key = JStr [], cfg_base = ''https://api.mistral.ai''\<rparr>
   \<and> chat_turn demo_rt empty_env openai_settings
        (JObj [(''provider'', JStr ''Mistral''), (''text'', JStr ''hi'')]) =
       ([], Inr (Json 400 (JObj [(''error'', JStr ''missing_api_key''),
                                 (''detail'', JStr ''Missing mistral API key'')])))"
proof -
  have p: "chat_provider (JObj [(''provider'', JStr ''Mistral''), (''text'', JStr ''hi'')])
             = Inr ''mistral''"
    by code_simp
  have c: "providerConfig (JStr ''mistral'') openai_settings =
       Inr \<lparr>cfg_provider = ''mistral'', cfg_key = JStr [], cfg_base = ''https://api.mistral.ai''\<rparr>"
    by code_simp
  from chat_turn_missing_credential [OF p c, of demo_rt empty_env] p c show ?thesis
    by simp
qed

subsection \<open>The requests of a turn\<close>

lemma tool_message_rd [simp]:
  "rd (tool_message tid content) ''role'' = JStr ''tool''"
  "rd (tool_message tid content) ''tool_call_id'' = tid"
  by (simp_all add: tool_message_def)

lemma completions_simps [simp]:
  "completions [] = 0"
  "completions (tr @ tr') = completions tr + completions tr'"
  "completions [ChatCompletion u a b] = 1"
  "completions [McpCall u b] = 0"
  "completions [McpTools u] = 0"
  by (simp_all add: completions_def)

lemma fetchJson_fst [simp]: "fst (fetchJson rt tr req) = tr @ [req]"
  by (simp add: fetchJson_def)

lemma fetchJson_eq:
  "fetchJson rt tr req = (tr', r) \<Longrightarrow> tr' = tr @ [req]"
  by (simp add: fetchJson_def)

lemma openaiCompatChat_cases:
  assumes "openaiCompatChat rt tr cfg model t msgs tools = (tr', r)"
  shows "(tr' = tr \<and> (\<exists>e. r = Inl e))
       \<or> (\<exists>temp k. truthy (cfg_key cfg) \<and> to_temperature rt t = Inr temp
              \<and> js_String (cfg_key cfg) = Inr k
              \<and> tr' = tr @ [ChatCompletion (cfg_base cfg @ ''/v1/chat/completions'') (''Bearer '' @ k)
                               (completion_body model temp msgs tools)])"
proof (cases "truthy (cfg_key cfg)")
  case False
  with assms have "tr' = tr \<and> r = Inl (MissingApiKey (cfg_provider cfg))"
    by (simp add: openaiCompatChat_def)
  then show ?thesis by blast
next
  case key: True
  show ?thesis
  proof (cases "to_temperature rt t")
    case (Inl e)
    with key assms have "tr' = tr \<and> r = Inl e"
      by (simp add: openaiCompatChat_def)
    then show ?thesis by blast
  next
    case temp: (Inr temp)
    show ?thesis
    proof (cases "js_String (cfg_key cfg)")
      case (Inl e)
      with key temp assms have "tr' = tr \<and> r = Inl e"
        by (simp add: openaiCompatChat_def)
      then show ?thesis by blast
    next
      case k: (Inr k)
      let ?req = "ChatCompletion (cfg_base cfg @ ''/v1/chat/completions'') (''Bearer '' @ k)
                    (completion_body model temp msgs tools)"
      obtain tr2 r2 where f: "fetchJson rt tr ?req = (tr2, r2)" by (cases "fetchJson rt tr ?req")
      from fetchJson_eq [OF f] have tr2: "tr2 = tr @ [?req]" .
      from assms key temp k f have "tr' = tr2"
        by (cases r2) (auto simp: openaiCompatChat_def split: if_splits)
      with tr2 key temp k show ?thesis by blast
    qed
  qed
qed




lemma exec_tool_call_fst:
  "fst (exec_tool_call rt mcpUrl tenant tr follow tc) = tr @ [broker_call rt mcpUrl tenant tc]"
proof -
  let ?req = "McpCall (mcpUrl @ ''/mcp/call'') (call_body rt tenant tc)"
  obtain tr2 r2 where f: "fetchJson rt tr ?req = (tr2, r2)" by (cases "fetchJson rt tr ?req")
  from fetchJson_eq [OF f] have tr2: "tr2 = tr @ [?req]" .
  from f have "fst (exec_tool_call rt mcpUrl tenant tr follow tc) = tr2"
    by (cases r2; cases "getp tc ''id''") (simp_all add: exec_tool_call_def)
  with tr2 show ?thesis by (simp add: broker_call_def)
qed

lemma exec_tool_call_ok:
  assumes "fetch rt (length tr) (broker_call rt mcpUrl tenant tc) = Inr raw" and "\<not> nullish tc"
  shows "\<exists>content. exec_tool_call rt mcpUrl tenant tr follow tc =
           (tr @ [broker_call rt mcpUrl tenant tc],
            Inr (follow @ [tool_message (rd tc ''id'') content]))"
  using assms
  by (simp add: exec_tool_call_def fetchJson_def broker_call_def getp_def tool_message_def)















subsection \<open>Tool calls with malformed arguments\<close>

lemma run_tool_calls_append:
  "run_tool_calls rt mcpUrl tenant (pre @ rest) tr follow =
     (case run_tool_calls rt mcpUrl tenant pre tr follow of
        (tr1, Inl e) \<Rightarrow> (tr1, Inl e)
      | (tr1, Inr follow1) \<Rightarrow> run_tool_calls rt mcpUrl tenant rest tr1 follow1)"
proof (induction pre arbitrary: tr follow)
  case Nil
  then show ?case by simp
next
  case (Cons tc pre)
  obtain tr' r where e: "exec_tool_call rt mcpUrl tenant tr follow tc = (tr', r)"
    by (cases "exec_tool_call rt mcpUrl tenant tr follow tc")
  show ?case
    by (cases r) (simp_all add: e Cons.IH)
qed

lemma run_tool_calls_extends:
  "\<exists>sent. fst (run_tool_calls rt mcpUrl tenant tcs tr follow) = tr @ sent"
proof (induction tcs arbitrary: tr follow)
  case Nil
  then show ?case by simp
next
  case (Cons tc tcs)
  obtain tr' r where e: "exec_tool_call rt mcpUrl tenant tr follow tc = (tr', r)"
    by (cases "exec_tool_call rt mcpUrl tenant tr follow tc")
  from exec_tool_call_fst [of rt mcpUrl tenant tr follow tc] e
  have tr': "tr' = tr @ [broker_call rt mcpUrl tenant tc]" by simp
  show ?case
  proof (cases r)
    case (Inl err)
    with e tr' show ?thesis by simp
  next
    case (Inr follow')
    from Cons.IH [of tr' follow'] obtain sent
      where "fst (run_tool_calls rt mcpUrl tenant tcs tr' follow') = tr' @ sent"
      by blast
    with e Inr tr' show ?thesis by simp
  qed
qed

lemma exec_tool_call_rejected:
  "fetch rt (length tr) (broker_call rt mcpUrl tenant tc) = Inl e \<Longrightarrow>
   exec_tool_call rt mcpUrl tenant tr follow tc = (tr @ [broker_call rt mcpUrl tenant tc], Inl e)"
  by (simp add: exec_tool_call_def fetchJson_def broker_call_def)

lemma tool_args_raw:
  assumes "rd (rd tc ''function'') ''arguments'' = JStr a" and "a \<noteq> []"
    and "json_parse rt a = None"
  shows "call_body rt tenant tc =
           JObj [(''name'', rd (rd tc ''function'') ''name''),
                 (''args'', JObj [(''raw'', JStr a)]),
                 (''tenant'', JStr tenant)]"
proof -
  from assms(1) have nn: "\<not> nullish tc" "\<not> nullish (rd tc ''function'')"
    by (cases tc; cases "rd tc ''function''"; simp)+
  then have f: "optp (optp tc ''function'') ''arguments'' = JStr a"
    "optp (optp tc ''function'') ''name'' = rd (rd tc ''function'') ''name''"
    using assms(1) by (simp_all add: optp_def)
  with assms(2,3) show ?thesis
    by (simp add: call_body_def tool_args_def js_or_def)
qed

lemma tool_args_default:
  assumes "\<not> truthy (optp (optp tc ''function'') ''arguments'')"
    and "json_parse rt ''{}'' = Some (JObj [])"
  shows "call_body rt tenant tc =
           JObj [(''name'', optp (optp tc ''function'') ''name''),
                 (''args'', JObj []),
                 (''tenant'', JStr tenant)]"
  using assms by (simp add: call_body_def tool_args_def js_or_def)

lemma chat_turn_loop:
  assumes "chat_init ev s parsed = Inr (Inr cx)"
    and "fetch_tools rt [] cx = (tr0, Inr tools)"
    and "openaiCompatChat rt tr0 (cx_cfg cx) (cx_model cx) (cx_temperature cx) (cx_messages cx)
           (if tools \<noteq> [] then JArr tools else JUndefined) = (tr, Inr out1)"
    and "tool_calls_of (js_or (first_choice_message out1) (JObj [])) \<noteq> []"
  shows "chat_turn rt ev s parsed =
           chat_followup rt tr cx (js_or (first_choice_message out1) (JObj []))
             (tool_calls_of (js_or (first_choice_message out1) (JObj [])))"
  using assms by (simp add: chat_turn_def chat_complete_def Let_def)

lemma chat_followup_extends:
  "\<exists>more. fst (chat_followup rt tr cx msg tcs) =
     fst (run_tool_calls rt (cx_mcpUrl cx) (cx_tenant cx) tcs tr (cx_messages cx @ [msg])) @ more"
proof -
  obtain tr' r where l: "run_tool_calls rt (cx_mcpUrl cx) (cx_tenant cx) tcs tr (cx_messages cx @ [msg]) = (tr', r)"
    by (cases "run_tool_calls rt (cx_mcpUrl cx) (cx_tenant cx) tcs tr (cx_messages cx @ [msg])")
  show ?thesis
  proof (cases r)
    case (Inl e)
    with l show ?thesis by (simp add: chat_followup_def)
  next
    case (Inr follow)
    obtain tr2 r2 where o: "openaiCompatChat rt tr' (cx_cfg cx) (cx_model cx) (cx_temperature cx) follow JUndefined = (tr2, r2)"
      by (cases "openaiCompatChat rt tr' (cx_cfg cx) (cx_model cx) (cx_temperature cx) follow JUndefined")
    from openaiCompatChat_cases [OF o] obtain more where m: "tr2 = tr' @ more"
      by auto
    from l Inr o have "fst (chat_followup rt tr cx msg tcs) = tr2"
      by (cases r2) (simp_all add: chat_followup_def)
    with m l show ?thesis by simp
  qed
qed

lemma chat_turn_reaches_call:
  assumes "chat_init ev s parsed = Inr (Inr cx)"
    and "fetch_tools rt [] cx = (tr0, Inr tools)"
    and "openaiCompatChat rt tr0 (cx_cfg cx) (cx_model cx) (cx_temperature cx) (cx_messages cx)
           (if tools \<noteq> [] then JArr tools else JUndefined) = (tr, Inr out1)"
    and "tool_calls_of (js_or (first_choice_message out1) (JObj [])) = pre @ tc # post"
    and "take (Suc (length tr1))
            (fst (run_tool_calls rt (cx_mcpUrl cx) (cx_tenant cx) (pre @ tc # post) tr
                    (cx_messages cx @ [js_or (first_choice_message out1) (JObj [])])))
           = tr1 @ [bc]"
  shows "take (Suc (length tr1)) (fst (chat_turn rt ev s parsed)) = tr1 @ [bc]"
proof -
  let ?msg = "js_or (first_choice_message out1) (JObj [])"
  let ?run = "fst (run_tool_calls rt (cx_mcpUrl cx) (cx_tenant cx) (pre @ tc # post) tr
                    (cx_messages cx @ [?msg]))"
  from assms(4) have ne: "tool_calls_of ?msg \<noteq> []" by simp
  from chat_turn_loop [OF assms(1,2,3) ne] assms(4)
  have t: "chat_turn rt ev s parsed = chat_followup rt tr cx ?msg (pre @ tc # post)" by simp
  from chat_followup_extends [of rt tr cx ?msg "pre @ tc # post"] obtain more
    where m: "fst (chat_followup rt tr cx ?msg (pre @ tc # post)) = ?run @ more" by blast
  from assms(5) have "length (take (Suc (length tr1)) ?run) = Suc (length tr1)" by simp
  then have "Suc (length tr1) \<le> length ?run" by simp
  then have "take (Suc (length tr1)) (?run @ more) = take (Suc (length tr1)) ?run" by simp
  with t m assms(5) show ?thesis by simp
qed

lemma chat_turn_call_rejected:
  assumes "chat_init ev s parsed = Inr (Inr cx)"
    and "fetch_tools rt [] cx = (tr0, Inr tools)"
    and "openaiCompatChat rt tr0 (cx_cfg cx) (cx_model cx) (cx_temperature cx) (cx_messages cx)
           (if tools \<noteq> [] then JArr tools else JUndefined) = (tr, Inr out1)"
    and "tool_calls_of (js_or (first_choice_message out1) (JObj [])) = pre @ tc # post"
    and "run_tool_calls rt (cx_mcpUrl cx) (cx_tenant cx) (pre @ tc # post) tr
           (cx_messages cx @ [js_or (first_choice_message out1) (JObj [])]) = (tr2, Inl e)"
  shows "chat_turn rt ev s parsed = (tr2, Inl e)"
proof -
  let ?msg = "js_or (first_choice_message out1) (JObj [])"
  from assms(4) have ne: "tool_calls_of ?msg \<noteq> []" by simp
  from chat_turn_loop [OF assms(1,2,3) ne] assms(4)
  have "chat_turn rt ev s parsed = chat_followup rt tr cx ?msg (pre @ tc # post)" by simp
  with assms(5) show ?thesis by (simp add: chat_followup_def)
qed

text \<open>
  C7, as amended. Let the loop over the tool calls reach a tool call: the loop has run
  over the calls before it and has not failed (\<open>reached\<close>: each of them was answered by
  the broker and was no \<^verbatim>\<open>null\<close> entry). Then the broker invocation for this call is
  the next request sent, whatever its argument string is. If the argument string is not
  empty and not valid JSON, the argument object of the invocation is
  \<^verbatim>\<open>{raw: <the argument string>}\<close>; if the argument string is empty or missing, the
  string \<^verbatim>\<open>{}\<close> is decoded in its place and the argument object is the empty object.
  The arguments do not fail the turn: when the broker answers the invocation and the
  entry is not \<^verbatim>\<open>null\<close>, the loop pushes the tool message and goes on with the next
  call; when the broker cannot be reached, the loop ends there with that error. The
  last part states the same of the whole turn: if the first completion's assistant
  message carries these tool calls, the invocation is among the requests of the turn,
  at that place, and a broker that cannot be reached ends the turn with its error.
\<close>

theorem run_tool_calls_malformed_arguments:
  assumes reached: "run_tool_calls rt mcpUrl tenant pre tr follow = (tr1, Inr follow1)"
  shows "take (Suc (length tr1))
            (fst (run_tool_calls rt mcpUrl tenant (pre @ tc # post) tr follow))
           = tr1 @ [broker_call rt mcpUrl tenant tc]
     \<and> (\<forall>a. rd (rd tc ''function'') ''arguments'' = JStr a \<and> a \<noteq> [] \<and> json_parse rt a = None
          \<longrightarrow> broker_call rt mcpUrl tenant tc =
                McpCall (mcpUrl @ ''/mcp/call'')
                  (JObj [(''name'', rd (rd tc ''function'') ''name''),
                         (''args'', JObj [(''raw'', JStr a)]),
                         (''tenant'', JStr tenant)]))
     \<and> (\<not> truthy (optp (optp tc ''function'') ''arguments'')
          \<and> json_parse rt ''{}'' = Some (JObj [])
          \<longrightarrow> broker_call rt mcpUrl tenant tc =
                McpCall (mcpUrl @ ''/mcp/call'')
                  (JObj [(''name'', optp (optp tc ''function'') ''name''),
                         (''args'', JObj []),
                         (''tenant'', JStr tenant)]))
     \<and> (\<forall>raw. \<not> nullish tc
            \<and> fetch rt (length tr1) (broker_call rt mcpUrl tenant tc) = Inr raw
          \<longrightarrow> (\<exists>content.
                 run_tool_calls rt mcpUrl tenant (pre @ tc # post) tr follow =
                 run_tool_calls rt mcpUrl tenant post (tr1 @ [broker_call rt mcpUrl tenant tc])
                   (follow1 @ [tool_message (rd tc ''id'') content])))
     \<and> (\<forall>e. fetch rt (length tr1) (broker_call rt mcpUrl tenant tc) = Inl e
          \<longrightarrow> run_tool_calls rt mcpUrl tenant (pre @ tc # post) tr follow =
                (tr1 @ [broker_call rt mcpUrl tenant tc], Inl e))
     \<and> (\<forall>ev s parsed cx tr0 tools out1.
          chat_init ev s parsed = Inr (Inr cx)
          \<and> cx_mcpUrl cx = mcpUrl \<and> cx_tenant cx = tenant
          \<and> fetch_tools rt [] cx = (tr0, Inr tools)
          \<and> openaiCompatChat rt tr0 (cx_cfg cx) (cx_model cx) (cx_temperature cx)
                (cx_messages cx) (if tools \<noteq> [] then JArr tools else JUndefined)
                = (tr, Inr out1)
          \<and> tool_calls_of (js_or (first_choice_message out1) (JObj [])) = pre @ tc # post
          \<and> follow = cx_messages cx @ [js_or (first_choice_message out1) (JObj [])]
          \<longrightarrow> take (Suc (length tr1)) (fst (chat_turn rt ev s parsed))
                = tr1 @ [broker_call rt mcpUrl tenant tc]
              \<and> (\<forall>e. fetch rt (length tr1) (broker_call rt mcpUrl tenant tc) = Inl e
                    \<longrightarrow> chat_turn rt ev s parsed =
                          (tr1 @ [broker_call rt mcpUrl tenant tc], Inl e)))"
proof -
  let ?bc = "broker_call rt mcpUrl tenant tc"
  have split: "run_tool_calls rt mcpUrl tenant (pre @ tc # post) tr follow =
                 run_tool_calls rt mcpUrl tenant (tc # post) tr1 follow1"
    by (simp add: run_tool_calls_append reached)
  obtain tr2 r where e: "exec_tool_call rt mcpUrl tenant tr1 follow1 tc = (tr2, r)"
    by (cases "exec_tool_call rt mcpUrl tenant tr1 follow1 tc")
  from exec_tool_call_fst [of rt mcpUrl tenant tr1 follow1 tc] e
  have tr2: "tr2 = tr1 @ [?bc]" by simp
  have sent: "take (Suc (length tr1))
                (fst (run_tool_calls rt mcpUrl tenant (pre @ tc # post) tr follow)) = tr1 @ [?bc]"
  proof (cases r)
    case (Inl err)
    with split e tr2 show ?thesis by simp
  next
    case (Inr follow2)
    from run_tool_calls_extends [of rt mcpUrl tenant post tr2 follow2] obtain more
      where "fst (run_tool_calls rt mcpUrl tenant post tr2 follow2) = tr2 @ more"
      by blast
    with split e Inr tr2 show ?thesis by simp
  qed
  have raw: "\<forall>a. rd (rd tc ''function'') ''arguments'' = JStr a \<and> a \<noteq> [] \<and> json_parse rt a = None
          \<longrightarrow> ?bc = McpCall (mcpUrl @ ''/mcp/call'')
                  (JObj [(''name'', rd (rd tc ''function'') ''name''),
                         (''args'', JObj [(''raw'', JStr a)]),
                         (''tenant'', JStr tenant)])"
    by (intro allI impI, elim conjE) (simp add: broker_call_def tool_args_raw)
  have dflt: "\<not> truthy (optp (optp tc ''function'') ''arguments'')
          \<and> json_parse rt ''{}'' = Some (JObj [])
          \<longrightarrow> ?bc = McpCall (mcpUrl @ ''/mcp/call'')
                  (JObj [(''name'', optp (optp tc ''function'') ''name''),
                         (''args'', JObj []),
                         (''tenant'', JStr tenant)])"
    by (intro impI, elim conjE) (simp add: broker_call_def tool_args_default)
  have goes_on: "\<forall>raw. \<not> nullish tc \<and> fetch rt (length tr1) ?bc = Inr raw
          \<longrightarrow> (\<exists>content.
                 run_tool_calls rt mcpUrl tenant (pre @ tc # post) tr follow =
                 run_tool_calls rt mcpUrl tenant post (tr1 @ [?bc])
                   (follow1 @ [tool_message (rd tc ''id'') content]))"
  proof (intro allI impI)
    fix raw
    assume h: "\<not> nullish tc \<and> fetch rt (length tr1) ?bc = Inr raw"
    then have "fetch rt (length tr1) ?bc = Inr raw" and "\<not> nullish tc"
      by simp_all
    from exec_tool_call_ok [OF this, of follow1] obtain content
      where "exec_tool_call rt mcpUrl tenant tr1 follow1 tc =
               (tr1 @ [?bc], Inr (follow1 @ [tool_message (rd tc ''id'') content]))"
      by blast
    with split have "run_tool_calls rt mcpUrl tenant (pre @ tc # post) tr follow =
                 run_tool_calls rt mcpUrl tenant post (tr1 @ [?bc])
                   (follow1 @ [tool_message (rd tc ''id'') content])"
      by simp
    then show "\<exists>content.
                 run_tool_calls rt mcpUrl tenant (pre @ tc # post) tr follow =
                 run_tool_calls rt mcpUrl tenant post (tr1 @ [?bc])
                   (follow1 @ [tool_message (rd tc ''id'') content])"
      by blast
  qed
  have fails: "\<forall>e. fetch rt (length tr1) ?bc = Inl e
          \<longrightarrow> run_tool_calls rt mcpUrl tenant (pre @ tc # post) tr follow = (tr1 @ [?bc], Inl e)"
    by (intro allI impI) (simp add: split exec_tool_call_rejected)
  have turn: "\<forall>ev s parsed cx tr0 tools out1.
          chat_init ev s parsed = Inr (Inr cx)
          \<and> cx_mcpUrl cx = mcpUrl \<and> cx_tenant cx = tenant
          \<and> fetch_tools rt [] cx = (tr0, Inr tools)
          \<and> openaiCompatChat rt tr0 (cx_cfg cx) (cx_model cx) (cx_temperature cx)
                (cx_messages cx) (if tools \<noteq> [] then JArr tools else JUndefined)
                = (tr, Inr out1)
          \<and> tool_calls_of (js_or (first_choice_message out1) (JObj [])) = pre @ tc # post
          \<and> follow = cx_messages cx @ [js_or (first_choice_message out1) (JObj [])]
          \<longrightarrow> take (Suc (length tr1)) (fst (chat_turn rt ev s parsed)) = tr1 @ [?bc]
              \<and> (\<forall>e. fetch rt (length tr1) ?bc = Inl e
                    \<longrightarrow> chat_turn rt ev s parsed = (tr1 @ [?bc], Inl e))"
  proof (intro allI impI)
    fix ev s parsed cx tr0 tools out1
    assume h: "chat_init ev s parsed = Inr (Inr cx)
          \<and> cx_mcpUrl cx = mcpUrl \<and> cx_tenant cx = tenant
          \<and> fetch_tools rt [] cx = (tr0, Inr tools)
          \<and> openaiCompatChat rt tr0 (cx_cfg cx) (cx_model cx) (cx_temperature cx)
                (cx_messages cx) (if tools \<noteq> [] then JArr tools else JUndefined)
                = (tr, Inr out1)
          \<and> tool_calls_of (js_or (first_choice_message out1) (JObj [])) = pre @ tc # post
          \<and> follow = cx_messages cx @ [js_or (first_choice_message out1) (JObj [])]"
    from h have init: "chat_init ev s parsed = Inr (Inr cx)" by (elim conjE)
    from h have u: "cx_mcpUrl cx = mcpUrl" and t: "cx_tenant cx = tenant" by simp_all
    from h have tools: "fetch_tools rt [] cx = (tr0, Inr tools)" by (elim conjE)
    from h have first: "openaiCompatChat rt tr0 (cx_cfg cx) (cx_model cx) (cx_temperature cx)
                (cx_messages cx) (if tools \<noteq> [] then JArr tools else JUndefined)
                = (tr, Inr out1)" by (elim conjE)
    from h have calls: "tool_calls_of (js_or (first_choice_message out1) (JObj [])) = pre @ tc # post"
      by (elim conjE)
    from h have f: "follow = cx_messages cx @ [js_or (first_choice_message out1) (JObj [])]"
      by (elim conjE)
    from sent have sent': "take (Suc (length tr1))
            (fst (run_tool_calls rt (cx_mcpUrl cx) (cx_tenant cx) (pre @ tc # post) tr
                    (cx_messages cx @ [js_or (first_choice_message out1) (JObj [])])))
           = tr1 @ [?bc]"
      by (simp only: u t f)
    have one: "take (Suc (length tr1)) (fst (chat_turn rt ev s parsed)) = tr1 @ [?bc]"
      by (rule chat_turn_reaches_call [OF init tools first calls sent'])
    have two: "\<forall>e. fetch rt (length tr1) ?bc = Inl e
                    \<longrightarrow> chat_turn rt ev s parsed = (tr1 @ [?bc], Inl e)"
    proof (intro allI impI)
      fix e
      assume "fetch rt (length tr1) ?bc = Inl e"
      with fails have "run_tool_calls rt mcpUrl tenant (pre @ tc # post) tr follow = (tr1 @ [?bc], Inl e)"
        by blast
      then have "run_tool_calls rt (cx_mcpUrl cx) (cx_tenant cx) (pre @ tc # post) tr
           (cx_messages cx @ [js_or (first_choice_message out1) (JObj [])]) = (tr1 @ [?bc], Inl e)"
        by (simp only: u t f)
      from chat_turn_call_rejected [OF init tools first calls this]
      show "chat_turn rt ev s parsed = (tr1 @ [?bc], Inl e)" .
    qed
    from one two
    show "take (Suc (length tr1)) (fst (chat_turn rt ev s parsed)) = tr1 @ [?bc]
              \<and> (\<forall>e. fetch rt (length tr1) ?bc = Inl e
                    \<longrightarrow> chat_turn rt ev s parsed = (tr1 @ [?bc], Inl e))"
      by (rule conjI)
  qed
  show ?thesis
    by (intro conjI) (fact sent raw dflt goes_on fails turn)+
qed

theorem run_tool_calls_malformed_arguments_witness:
  "json_parse demo_rt ''{oops'' = None
   \<and> take 1 (fst (run_tool_calls demo_rt ''http://mcp-server:8081'' ''default''
                    [malformed_args_call, empty_args_call] [] [])) =
       [McpCall ''http://mcp-server:8081/mcp/call''
          (JObj [(''name'', JStr ''maximo.listOS''),
                 (''args'', JObj [(''raw'', JStr ''{oops'')]),
                 (''tenant'', JStr ''default'')])]
   \<and> take 2 (fst (run_tool_calls demo_rt ''http://mcp-server:8081'' ''default''
                    [malformed_args_call, empty_args_call] [] [])) =
       [McpCall ''http://mcp-server:8081/mcp/call''
          (JObj [(''name'', JStr ''maximo.listOS''),
                 (''args'', JObj [(''raw'', JStr ''{oops'')]),
                 (''tenant'', JStr ''default'')]),
        McpCall ''http://mcp-server:8081/mcp/call''
          (JObj [(''name'', JStr ''maximo.listOS''), (''args'', JObj []),
                 (''tenant'', JStr ''default'')])]
   \<and> snd (run_tool_calls demo_rt ''http://mcp-server:8081'' ''default''
             [malformed_args_call, empty_args_call] [] []) =
       Inr [tool_message (JStr ''call_1'') ''{\"ok\":true}'',
            tool_message (JStr ''call_2'') ''{\"ok\":true}'']
   \<and> tool_calls_of (js_or (first_choice_message tool_call_reply) (JObj [])) = [malformed_args_call]
   \<and> take 2 (fst (chat_turn demo_rt empty_env openai_settings chat_request)) =
       [demo_first_request,
        McpCall ''http://mcp-server:8081/mcp/call''
          (JObj [(''name'', JStr ''maximo.listOS''),
                 (''args'', JObj [(''raw'', JStr ''{oops'')]),
                 (''tenant'', JStr ''default'')])]"
proof -
  let ?u = "''http://mcp-server:8081''"
  let ?first = "McpCall ''http://mcp-server:8081/mcp/call''
          (JObj [(''name'', JStr ''maximo.listOS''),
                 (''args'', JObj [(''raw'', JStr ''{oops'')]),
                 (''tenant'', JStr ''default'')])"
  let ?second = "McpCall ''http://mcp-server:8081/mcp/call''
          (JObj [(''name'', JStr ''maximo.listOS''), (''args'', JObj []),
                 (''tenant'', JStr ''default'')])"
  have bad: "json_parse demo_rt ''{oops'' = None"
    by code_simp
  have start: "run_tool_calls demo_rt ?u ''default'' [] [] [] = ([], Inr [])"
    by simp
  have a1: "rd (rd malformed_args_call ''function'') ''arguments'' = JStr ''{oops''
              \<and> ''{oops'' \<noteq> [] \<and> json_parse demo_rt ''{oops'' = None"
    "rd (rd malformed_args_call ''function'') ''name'' = JStr ''maximo.listOS''"
    "?u @ ''/mcp/call'' = ''http://mcp-server:8081/mcp/call''"
    by code_simp+
  note one = run_tool_calls_malformed_arguments
               [OF start, of malformed_args_call "[empty_args_call]"]
  from one [THEN conjunct2, THEN conjunct1, rule_format, OF a1(1)]
  have "broker_call demo_rt ?u ''default'' malformed_args_call =
                McpCall (?u @ ''/mcp/call'')
                  (JObj [(''name'', rd (rd malformed_args_call ''function'') ''name''),
                         (''args'', JObj [(''raw'', JStr ''{oops'')]),
                         (''tenant'', JStr ''default'')])" .
  then have bc1: "broker_call demo_rt ?u ''default'' malformed_args_call = ?first"
    by (simp only: a1(2,3))
  from one [THEN conjunct1] bc1 have t1: "take 1 (fst (run_tool_calls demo_rt ?u ''default''
                    [malformed_args_call, empty_args_call] [] [])) = [?first]"
    by simp
  have mid: "run_tool_calls demo_rt ?u ''default'' [malformed_args_call] [] [] =
               ([?first], Inr [tool_message (JStr ''call_1'') ''{\"ok\":true}''])"
    by code_simp
  have a2: "\<not> truthy (optp (optp empty_args_call ''function'') ''arguments'')
              \<and> json_parse demo_rt ''{}'' = Some (JObj [])"
    "optp (optp empty_args_call ''function'') ''name'' = JStr ''maximo.listOS''"
    by code_simp+
  note two = run_tool_calls_malformed_arguments [OF mid, of empty_args_call "[]"]
  from two [THEN conjunct2, THEN conjunct2, THEN conjunct1, THEN mp, OF a2(1)]
  have "broker_call demo_rt ?u ''default'' empty_args_call =
                McpCall (?u @ ''/mcp/call'')
                  (JObj [(''name'', optp (optp empty_args_call ''function'') ''name''),
                         (''args'', JObj []),
                         (''tenant'', JStr ''default'')])" .
  then have bc2: "broker_call demo_rt ?u ''default'' empty_args_call = ?second"
    by (simp only: a2(2) a1(3))
  from two [THEN conjunct1] bc2 have t2: "take 2 (fst (run_tool_calls demo_rt ?u ''default''
                    [malformed_args_call, empty_args_call] [] [])) = [?first, ?second]"
    by (simp add: numeral_2_eq_2)
  have res: "snd (run_tool_calls demo_rt ?u ''default''
             [malformed_args_call, empty_args_call] [] []) =
       Inr [tool_message (JStr ''call_1'') ''{\"ok\":true}'',
            tool_message (JStr ''call_2'') ''{\"ok\":true}'']"
    by code_simp
  let ?msg = "js_or (first_choice_message tool_call_reply) (JObj [])"
  have calls: "tool_calls_of ?msg = [malformed_args_call]"
    by code_simp
  have start3: "run_tool_calls demo_rt ?u ''default'' [] [demo_first_request]
                  (cx_messages demo_cx @ [?msg])
                = ([demo_first_request], Inr (cx_messages demo_cx @ [?msg]))"
    by simp
  have h: "chat_init empty_env openai_settings chat_request = Inr (Inr demo_cx)
          \<and> cx_mcpUrl demo_cx = ?u \<and> cx_tenant demo_cx = ''default''
          \<and> fetch_tools demo_rt [] demo_cx = ([], Inr [])
          \<and> openaiCompatChat demo_rt [] (cx_cfg demo_cx) (cx_model demo_cx)
                (cx_temperature demo_cx) (cx_messages demo_cx)
                (if ([]::jsv list) \<noteq> [] then JArr [] else JUndefined)
                = ([demo_first_request], Inr tool_call_reply)
          \<and> tool_calls_of ?msg = [] @ malformed_args_call # []
          \<and> cx_messages demo_cx @ [?msg] = cx_messages demo_cx @ [?msg]"
    by (intro conjI; code_simp)
  note three = run_tool_calls_malformed_arguments
                 [OF start3, of malformed_args_call "[]"]
  from three [THEN conjunct2, THEN conjunct2, THEN conjunct2, THEN conjunct2, THEN conjunct2,
              rule_format, OF h, THEN conjunct1] bc1
  have t3: "take 2 (fst (chat_turn demo_rt empty_env openai_settings chat_request)) =
              [demo_first_request, ?first]"
    by (simp add: numeral_2_eq_2)
  from bad t1 t2 res calls t3 show ?thesis
    by (intro conjI)
qed

text \<open>
  The claim as it was stated fails for the empty argument string, which is not valid
  JSON: \<^verbatim>\<open>tc?.function?.arguments || "{}"\<close> replaces it by \<^verbatim>\<open>{}\<close> before the
  parse, so the broker is invoked with the empty object and not with \<^verbatim>\<open>{raw: ""}\<close>.
\<close>

theorem tool_args_empty_string_counterexample:
  "json_parse demo_rt [] = None
   \<and> run_tool_calls demo_rt ''http://mcp-server:8081'' ''default'' [empty_args_call] [] [] =
       ([McpCall ''http://mcp-server:8081/mcp/call''
           (JObj [(''name'', JStr ''maximo.listOS''), (''args'', JObj []),
                  (''tenant'', JStr ''default'')])],
        Inr [JObj [(''role'', JStr ''tool''), (''tool_call_id'', JStr ''call_2''),
                   (''content'', JStr ''{\"ok\":true}'')]])
   \<and> JObj [] \<noteq> JObj [(''raw'', JStr [])]"
  by code_simp


section \<open>Properties of saving settings\<close>

lemma map_of_obj_set:
  "map_of (obj_set kvs k v) k' = (if k' = k then Some v else map_of kvs k')"
  by (induction kvs) auto

lemma rd_obj_set: "rd (JObj (obj_set kvs k v)) k' = (if k' = k then v else rd (JObj kvs) k')"
  by (simp add: map_of_obj_set)

lemma map_of_obj_delete: "map_of (obj_delete kvs k) k = None"
  by (induction kvs) (auto simp: obj_delete_def)

lemma rd_obj_delete: "rd (JObj (obj_delete kvs k)) k = JUndefined"
  by (simp add: map_of_obj_delete)

lemma assign_frame:
  "assign n k v = Inr n' \<Longrightarrow> k' \<noteq> k \<Longrightarrow> rd n' k' = rd n k'"
  by (cases n) (auto simp: map_of_obj_set)

lemma assign_value:
  "assign n k v = Inr n' \<Longrightarrow> rd n' k = v \<or> (isArray n \<and> n' = n)"
  by (cases n) (auto simp: map_of_obj_set)

lemma merge_section_frame:
  "merge_section n k part = Inr n' \<Longrightarrow> k' \<noteq> k \<Longrightarrow> rd n' k' = rd n k'"
  by (auto simp: merge_section_def split: sum.splits dest: assign_frame)

lemma merge_maximo_frame:
  "merge_maximo n part = Inr n' \<Longrightarrow> k' \<noteq> ''maximo'' \<Longrightarrow> rd n' k' = rd n k'"
  by (auto simp: merge_maximo_def split: sum.splits dest: assign_frame)

lemma merge_maximo_no_key:
  assumes "merge_maximo n part = Inr n'"
  shows "rd (rd n' ''maximo'') ''apiKey'' = JUndefined"
proof -
  from assms obtain old where a: "assign n ''maximo''
      (JObj (obj_delete (spread2 (js_or old (JObj [])) part) ''apiKey'')) = Inr n'"
    by (auto simp: merge_maximo_def split: sum.splits)
  from assign_value [OF a] show ?thesis
    by (auto simp: map_of_obj_delete elim: isArray.elims)
qed






lemma save_steps:
  assumes "saveSettingsFromUI cur payload = Inr w" and "is_object_value payload"
  shows "\<exists>n1 n2 n3.
      (if is_object_value (rd payload ''ui'') then merge_section cur ''ui'' (rd payload ''ui'')
       else Inr cur) = Inr n1
    \<and> (if is_object_value (rd payload ''maximo'') then merge_maximo n1 (rd payload ''maximo'')
       else Inr n1) = Inr n2
    \<and> (if is_object_value (rd payload ''mcp'') then merge_section n2 ''mcp'' (rd payload ''mcp'')
       else Inr n2) = Inr n3
    \<and> set_tenants n3 (rd payload ''tenants'') = Inr w"
proof -
  define a1 where "a1 = (if is_object_value (rd payload ''ui'')
                         then merge_section cur ''ui'' (rd payload ''ui'') else Inr cur)"
  define a2 where "a2 = (\<lambda>n1. if is_object_value (rd payload ''maximo'')
                         then merge_maximo n1 (rd payload ''maximo'') else Inr n1)"
  define a3 where "a3 = (\<lambda>n2. if is_object_value (rd payload ''mcp'')
                         then merge_section n2 ''mcp'' (rd payload ''mcp'') else Inr n2)"
  have "saveSettingsFromUI cur payload =
          (case a1 of Inl e \<Rightarrow> Inl e
                        | Inr n1 \<Rightarrow> (case a2 n1 of Inl e \<Rightarrow> Inl e
                            | Inr n2 \<Rightarrow> (case a3 n2 of Inl e \<Rightarrow> Inl e
                                | Inr n3 \<Rightarrow> set_tenants n3 (rd payload ''tenants''))))"
    unfolding saveSettingsFromUI_def a1_def a2_def a3_def
    by (simp only: assms(2) if_True)
  with assms(1) have eq: "(case a1 of Inl e \<Rightarrow> Inl e
                        | Inr n1 \<Rightarrow> (case a2 n1 of Inl e \<Rightarrow> Inl e
                            | Inr n2 \<Rightarrow> (case a3 n2 of Inl e \<Rightarrow> Inl e
                                | Inr n3 \<Rightarrow> set_tenants n3 (rd payload ''tenants'')))) = Inr w"
    by simp
  from eq obtain n1 where n1: "a1 = Inr n1" by (cases a1) simp_all
  from eq n1 obtain n2 where n2: "a2 n1 = Inr n2" by (cases "a2 n1") simp_all
  from eq n1 n2 obtain n3 where n3: "a3 n2 = Inr n3" by (cases "a3 n2") simp_all
  from eq n1 n2 n3 have "set_tenants n3 (rd payload ''tenants'') = Inr w" by simp
  with n1 n2 n3 show ?thesis
    unfolding a1_def a2_def a3_def by blast
qed


subsection \<open>Merging a section\<close>





lemma assign_plain:
  "is_plain_object n \<Longrightarrow> \<exists>kvs. n = JObj kvs \<and> assign n k v = Inr (JObj (obj_set kvs k v))"
  by (cases n) simp_all









subsection \<open>What a save writes\<close>






end
